(* ===== verification/Prelude.thy ===== *)
theory Prelude
  imports
    Complex_Main
    "HOL-Library.Char_ord"
    "HOL-Library.List_Lexorder"
    "HOL-Library.Sublist"
begin

text \<open>
  What every component of the development shares.

  \<^item> Asynchronous TypeScript methods become \<^emph>\<open>procedures\<close>: functions from the state to a
    result and the state left behind. The result is a sum, \<open>Inl\<close> for the exception that was
    thrown and \<open>Inr\<close> for the value; the state is returned in both cases, because what was
    written before a \<open>throw\<close> stays written. \<open>await\<close> followed by the rest of the method
    is \<open>bindP\<close>, \<open>try/catch\<close> is \<open>catchP\<close>.
  \<^item> Strings are lists of characters; a character stands for one UTF-16 code unit below 256.
    \<open>trim\<close>, \<open>split\<close>, \<open>join\<close>, \<open>startsWith\<close> are those of ECMAScript on such strings.
  \<^item> List and map facts that several components use.
\<close>

section \<open>Proof collections\<close>

named_theorems proc_iff
  \<open>characterisations of when a procedure returns a value, and when it throws\<close>
named_theorems keeps_intro
  \<open>how procedures are composed from procedures that keep a state predicate\<close>
named_theorems entity_defs
  \<open>definitions that a proof about an entity or a DTO unfolds\<close>

section \<open>Exceptions\<close>

text \<open>
  The classes of \<open>@nestjs/common\<close> that the services throw. The message of an exception is
  data (the code compares two of them nowhere, but clients see them), so each literal of the
  source is a constructor of its own. \<open>LibraryError\<close> is any other rejection of an awaited
  call, which Nest turns into a 500.
\<close>

datatype message =
    RoleNotSelfAssignable | EmailAlreadyRegistered | InvalidCredentials
  | TwoFactorSessionExpired | InvalidVerificationCode | UserNotFound
  | RefreshTokenInvalid | RefreshTokenRevoked | RefreshTokenMissing
  | RedisDown | TooManyAttempts | TwoFactorAlreadyEnabled | NoPendingEnrolment
  | BearerMissing | WrongTokenType | TokenInvalid | RoleNotAllowed
  | FreelanceProfileNotFoundOrNotAllowed | FreelanceProfileNotFound | GearNotFound
  | OnlyValidatedGear | LoadoutFull | GearAlreadyReviewed
  | FileMissing | FileTooLarge | NotAPdf | UnreadablePdf | DuplicateCertification
  | CertificationNotFound | DocumentForbidden | DocumentPurged | CertificationAlreadyReviewed
  | StorageObjectNotFound
  | MessageEmpty | MessageTooLong | NotARecruiterFreelancePair
  | MatchingUnavailable | ValidationFailed | Degraded

datatype exn =
    BadRequest message
  | Unauthorized message
  | Forbidden message
  | NotFound message
  | Conflict message
  | PayloadTooLarge message
  | TooManyRequests message
  | BadGateway message
  | ServiceUnavailable message
  | LibraryError

text \<open>The HTTP status Nest answers with.\<close>

fun http_status :: "exn \<Rightarrow> nat" where
  "http_status (BadRequest _) = 400"
| "http_status (Unauthorized _) = 401"
| "http_status (Forbidden _) = 403"
| "http_status (NotFound _) = 404"
| "http_status (Conflict _) = 409"
| "http_status (PayloadTooLarge _) = 413"
| "http_status (TooManyRequests _) = 429"
| "http_status (BadGateway _) = 502"
| "http_status (ServiceUnavailable _) = 503"
| "http_status LibraryError = 500"

section \<open>Procedures\<close>

type_synonym ('s, 'a) proc = "'s \<Rightarrow> (exn + 'a) \<times> 's"

definition returnP :: "'a \<Rightarrow> ('s, 'a) proc" where
  "returnP x = (\<lambda>s. (Inr x, s))"

definition throwP :: "exn \<Rightarrow> ('s, 'a) proc" where
  "throwP e = (\<lambda>s. (Inl e, s))"

definition bindP :: "('s, 'a) proc \<Rightarrow> ('a \<Rightarrow> ('s, 'b) proc) \<Rightarrow> ('s, 'b) proc" where
  "bindP m f = (\<lambda>s. case m s of (Inl e, s') \<Rightarrow> (Inl e, s') | (Inr x, s') \<Rightarrow> f x s')"

definition catchP :: "('s, 'a) proc \<Rightarrow> (exn \<Rightarrow> ('s, 'a) proc) \<Rightarrow> ('s, 'a) proc" where
  "catchP m h = (\<lambda>s. case m s of (Inl e, s') \<Rightarrow> h e s' | (Inr x, s') \<Rightarrow> (Inr x, s'))"

text \<open>A procedure on one part of a larger state, given by how to read and how to write the part.\<close>

definition liftP :: "('w \<Rightarrow> 's) \<Rightarrow> ('s \<Rightarrow> 'w \<Rightarrow> 'w) \<Rightarrow> ('s, 'a) proc \<Rightarrow> ('w, 'a) proc" where
  "liftP get put m = (\<lambda>w. case m (get w) of (r, s') \<Rightarrow> (r, put s' w))"

text \<open>A synchronous call that may throw, as a step of a procedure.\<close>

definition liftE :: "exn + 'a \<Rightarrow> ('s, 'a) proc" where
  "liftE r = (\<lambda>s. (r, s))"

lemma liftE_iff [proc_iff, simp]: "liftE x s = (r, s') \<longleftrightarrow> r = x \<and> s' = s"
  by (auto simp: liftE_def)

lemma bindP_liftE [simp]:
  "bindP (liftE (Inr x)) f = f x" "bindP (liftE (Inl e)) f = throwP e"
  by (simp_all add: bindP_def liftE_def throwP_def)

lemma bindP_liftE_cases:
  assumes "bindP (liftE x) f s = (r, s')"
  obtains e where "x = Inl e" "r = Inl e" "s' = s" | y where "x = Inr y" "f y s = (r, s')"
  using assms by (cases x) (auto simp: throwP_def)

lemma returnP_iff [proc_iff, simp]: "returnP x s = (r, s') \<longleftrightarrow> r = Inr x \<and> s' = s"
  by (auto simp: returnP_def)

lemma throwP_iff [proc_iff, simp]: "throwP e s = (r, s') \<longleftrightarrow> r = Inl e \<and> s' = s"
  by (auto simp: throwP_def)

lemma bindP_Inr_iff [proc_iff]:
  "bindP m f s = (Inr x, s'') \<longleftrightarrow> (\<exists>y s'. m s = (Inr y, s') \<and> f y s' = (Inr x, s''))"
  by (auto simp: bindP_def split: prod.splits sum.splits)

lemma bindP_Inl_iff [proc_iff]:
  "bindP m f s = (Inl e, s'') \<longleftrightarrow>
     m s = (Inl e, s'') \<or> (\<exists>y s'. m s = (Inr y, s') \<and> f y s' = (Inl e, s''))"
  by (auto simp: bindP_def split: prod.splits sum.splits)

lemma catchP_Inr_iff [proc_iff]:
  "catchP m h s = (Inr x, s'') \<longleftrightarrow>
     m s = (Inr x, s'') \<or> (\<exists>e s'. m s = (Inl e, s') \<and> h e s' = (Inr x, s''))"
  by (auto simp: catchP_def split: prod.splits sum.splits)

lemma catchP_Inl_iff [proc_iff]:
  "catchP m h s = (Inl e, s'') \<longleftrightarrow> (\<exists>d s'. m s = (Inl d, s') \<and> h d s' = (Inl e, s''))"
  by (auto simp: catchP_def split: prod.splits sum.splits)

lemma liftP_iff [proc_iff]:
  "liftP get put m w = (r, w') \<longleftrightarrow> (\<exists>s'. m (get w) = (r, s') \<and> w' = put s' w)"
  by (auto simp: liftP_def split: prod.splits)

lemma bindP_returnP [simp]: "bindP (returnP x) f = f x"
  by (simp add: bindP_def returnP_def)

lemma bindP_throwP [simp]: "bindP (throwP e) f = throwP e"
  by (simp add: bindP_def throwP_def)

lemma bindP_assoc: "bindP (bindP m f) g = bindP m (\<lambda>x. bindP (f x) g)"
  by (auto simp: bindP_def split: prod.splits sum.splits)

text \<open>Evaluation of a procedure at a state, for the concrete runs.\<close>

lemmas proc_eval = returnP_def throwP_def bindP_def catchP_def liftP_def liftE_def

subsection \<open>State predicates that procedures keep\<close>

text \<open>
  \<open>keeps I m\<close>: whatever \<open>m\<close> returns or throws, it leaves a state where \<open>I\<close> holds
  if it was started in one.
\<close>

definition keeps :: "('s \<Rightarrow> bool) \<Rightarrow> ('s, 'a) proc \<Rightarrow> bool" where
  "keeps I m \<longleftrightarrow> (\<forall>s r s'. I s \<longrightarrow> m s = (r, s') \<longrightarrow> I s')"

lemma keepsI: "(\<And>s r s'. I s \<Longrightarrow> m s = (r, s') \<Longrightarrow> I s') \<Longrightarrow> keeps I m"
  by (auto simp: keeps_def)

lemma keepsD: "keeps I m \<Longrightarrow> m s = (r, s') \<Longrightarrow> I s \<Longrightarrow> I s'"
  by (auto simp: keeps_def)

lemma keeps_returnP [keeps_intro, simp]: "keeps I (returnP x)"
  by (auto simp: keeps_def)

lemma keeps_throwP [keeps_intro, simp]: "keeps I (throwP e)"
  by (auto simp: keeps_def)

lemma keeps_liftE [keeps_intro, simp]: "keeps I (liftE r)"
  by (auto simp: keeps_def)

lemma keeps_bindP [keeps_intro]:
  assumes "keeps I m" "\<And>x. keeps I (f x)"
  shows "keeps I (bindP m f)"
proof (rule keepsI)
  fix s r s' assume I: "I s" and run: "bindP m f s = (r, s')"
  obtain q s1 where m: "m s = (q, s1)" by fastforce
  have "I s1" using keepsD [OF assms(1) m I] .
  with m run show "I s'"
    by (cases q) (auto simp: bindP_def intro: keepsD [OF assms(2)])
qed

lemma keeps_catchP [keeps_intro]:
  assumes "keeps I m" "\<And>e. keeps I (h e)"
  shows "keeps I (catchP m h)"
proof (rule keepsI)
  fix s r s' assume I: "I s" and run: "catchP m h s = (r, s')"
  obtain q s1 where m: "m s = (q, s1)" by fastforce
  have "I s1" using keepsD [OF assms(1) m I] .
  with m run show "I s'"
    by (cases q) (auto simp: catchP_def intro: keepsD [OF assms(2)])
qed

lemma keeps_if [keeps_intro]:
  "(b \<Longrightarrow> keeps I m) \<Longrightarrow> (\<not> b \<Longrightarrow> keeps I m') \<Longrightarrow> keeps I (if b then m else m')"
  by simp

lemma keeps_option [keeps_intro]:
  "(x = None \<Longrightarrow> keeps I m) \<Longrightarrow> (\<And>y. x = Some y \<Longrightarrow> keeps I (f y)) \<Longrightarrow>
   keeps I (case x of None \<Rightarrow> m | Some y \<Rightarrow> f y)"
  by (cases x) auto

lemma keeps_liftP:
  "(\<And>w s' r. I w \<Longrightarrow> m (get w) = (r, s') \<Longrightarrow> I (put s' w)) \<Longrightarrow> keeps I (liftP get put m)"
  by (auto simp: keeps_def liftP_iff)

section \<open>ECMAScript strings\<close>

text \<open>WhiteSpace and LineTerminator code points below 256: TAB, LF, VT, FF, CR, SP, NBSP.\<close>

definition is_js_space :: "char \<Rightarrow> bool" where
  "is_js_space c \<longleftrightarrow> of_char c \<in> {9, 10, 11, 12, 13, 32, 160 :: nat}"

definition js_trim :: "string \<Rightarrow> string" where
  "js_trim s = rev (dropWhile is_js_space (rev (dropWhile is_js_space s)))"

fun js_split :: "char \<Rightarrow> string \<Rightarrow> string list" where
  "js_split c [] = [[]]"
| "js_split c (x # xs) =
     (if x = c then [] # js_split c xs
      else (x # hd (js_split c xs)) # tl (js_split c xs))"

fun js_join :: "string \<Rightarrow> string list \<Rightarrow> string" where
  "js_join sep [] = []"
| "js_join sep [s] = s"
| "js_join sep (s # t # ts) = s @ sep @ js_join sep (t # ts)"

definition js_startsWith :: "string \<Rightarrow> string \<Rightarrow> bool" where
  "js_startsWith s p \<longleftrightarrow> take (length p) s = p"

fun js_includes :: "string \<Rightarrow> string \<Rightarrow> bool" where
  "js_includes [] p \<longleftrightarrow> p = []"
| "js_includes (c # s) p \<longleftrightarrow> js_startsWith (c # s) p \<or> js_includes s p"

text \<open>An optional string as a condition: \<open>undefined\<close>, \<open>null\<close> and the empty string are false.\<close>

definition truthy_str :: "string option \<Rightarrow> bool" where
  "truthy_str x \<longleftrightarrow> x \<noteq> None \<and> x \<noteq> Some []"

lemma truthy_str_iff: "truthy_str x \<longleftrightarrow> (\<exists>s. x = Some s \<and> s \<noteq> [])"
  by (cases x) (auto simp: truthy_str_def)

lemma js_split_not_Nil [simp]: "js_split c s \<noteq> []"
  by (cases s) auto

lemma js_split_no_sep: "c \<notin> set s \<Longrightarrow> js_split c s = [s]"
  by (induction s) auto

lemma js_split_append:
  "c \<notin> set s \<Longrightarrow> js_split c (s @ c # t) = s # js_split c t"
  by (induction s) auto

lemma js_split_parts: "p \<in> set (js_split c s) \<Longrightarrow> c \<notin> set p"
proof (induction s arbitrary: p)
  case Nil
  then show ?case by simp
next
  case (Cons x xs)
  obtain q qs where q: "js_split c xs = q # qs"
    by (cases "js_split c xs") auto
  with Cons show ?case by (auto split: if_splits)
qed

lemma js_split_join:
  "ss \<noteq> [] \<Longrightarrow> (\<And>s. s \<in> set ss \<Longrightarrow> c \<notin> set s) \<Longrightarrow> js_split c (js_join [c] ss) = ss"
  by (induction "[c]" ss rule: js_join.induct) (auto simp: js_split_no_sep js_split_append)

lemma js_startsWith_append [simp]: "js_startsWith (p @ s) p"
  by (simp add: js_startsWith_def)

lemma js_startsWithE:
  assumes "js_startsWith s p" obtains t where "s = p @ t"
  using assms append_take_drop_id [of "length p" s] unfolding js_startsWith_def by metis

lemma js_startsWith_iff: "js_startsWith s p \<longleftrightarrow> prefix p s"
  by (metis js_startsWithE js_startsWith_append prefix_def)

lemma js_includes_iff: "js_includes s p \<longleftrightarrow> sublist p s"
proof (induction s)
  case (Cons c s)
  then show ?case by (simp add: js_startsWith_iff sublist_Cons_right)
qed simp

lemma dropWhile_hd: "dropWhile P s \<noteq> [] \<Longrightarrow> \<not> P (hd (dropWhile P s))"
  by (induction s) auto

lemma dropWhile_idem_hd: "s = [] \<or> \<not> P (hd s) \<Longrightarrow> dropWhile P s = s"
  by (cases s) auto

lemma hd_dropWhile_end: "s \<noteq> [] \<Longrightarrow> \<not> P (hd s) \<Longrightarrow> hd (rev (dropWhile P (rev s))) = hd s"
  by (cases s) (simp_all add: dropWhile_append3)

lemma js_trim_ends:
  assumes "js_trim s \<noteq> []"
  shows "\<not> is_js_space (hd (js_trim s))" "\<not> is_js_space (last (js_trim s))"
proof -
  let ?t = "dropWhile is_js_space s"
  have d: "dropWhile is_js_space (rev ?t) \<noteq> []"
    using assms by (simp add: js_trim_def del: dropWhile_eq_Nil_conv)
  then have t: "?t \<noteq> []" by (metis dropWhile.simps(1) rev.simps(1))
  have "hd (js_trim s) = hd ?t"
    unfolding js_trim_def using t dropWhile_hd [OF t] by (rule hd_dropWhile_end)
  then show "\<not> is_js_space (hd (js_trim s))" using dropWhile_hd [OF t] by simp
  show "\<not> is_js_space (last (js_trim s))"
    using dropWhile_hd [OF d] d by (simp add: js_trim_def last_rev del: dropWhile_eq_Nil_conv)
qed

lemma js_trim_idem [simp]: "js_trim (js_trim s) = js_trim s"
proof (cases "js_trim s = []")
  case True
  then show ?thesis by (metis dropWhile.simps(1) js_trim_def rev.simps(1))
next
  case False
  then have "dropWhile is_js_space (js_trim s) = js_trim s"
    by (intro dropWhile_idem_hd) (simp add: js_trim_ends)
  moreover from False have "dropWhile is_js_space (rev (js_trim s)) = rev (js_trim s)"
    by (intro dropWhile_idem_hd) (simp add: js_trim_ends hd_rev)
  ultimately show ?thesis by (simp add: js_trim_def [of "js_trim s"])
qed

lemma js_trim_length: "length (js_trim s) \<le> length s"
  unfolding js_trim_def
  by (metis length_dropWhile_le length_rev le_trans)

lemma js_trim_plain:
  assumes "\<And>c. c \<in> set s \<Longrightarrow> \<not> is_js_space c"
  shows "js_trim s = s"
proof -
  have "dropWhile is_js_space t = t" if "set t \<subseteq> set s" for t
    using assms that by (cases t) auto
  then show ?thesis by (simp add: js_trim_def)
qed

lemma set_js_trim: "set (js_trim s) \<subseteq> set s"
  unfolding js_trim_def set_rev by (metis set_dropWhileD set_rev subsetI)

section \<open>Numbers and strings\<close>

definition digit_char :: "nat \<Rightarrow> char" where
  "digit_char d = char_of (48 + d)"

fun show_nat :: "nat \<Rightarrow> string" where
  "show_nat n = (if n < 10 then [digit_char n] else show_nat (n div 10) @ [digit_char (n mod 10)])"

declare show_nat.simps [simp del]

definition show_int :: "int \<Rightarrow> string" where
  "show_int i = (if i < 0 then ''-'' @ show_nat (nat (- i)) else show_nat (nat i))"

text \<open>\<open>padStart(width, '0')\<close>.\<close>

definition pad_nat :: "nat \<Rightarrow> nat \<Rightarrow> string" where
  "pad_nat width n = replicate (width - length (show_nat n)) CHR ''0'' @ show_nat n"

definition is_decimal :: "char \<Rightarrow> bool" where
  "is_decimal c \<longleftrightarrow> 48 \<le> (of_char c :: nat) \<and> (of_char c :: nat) \<le> 57"

definition decimal_value :: "string \<Rightarrow> nat" where
  "decimal_value s = foldl (\<lambda>n c. n * 10 + (of_char c - 48)) 0 s"

text \<open>\<open>parseInt(s, 10)\<close>; \<open>None\<close> is \<open>NaN\<close>.\<close>

definition js_parseInt :: "string \<Rightarrow> int option" where
  "js_parseInt s = (let t = dropWhile is_js_space s;
      neg = (case t of c # _ \<Rightarrow> c = CHR ''-'' | [] \<Rightarrow> False);
      u = (case t of c # r \<Rightarrow> if c = CHR ''-'' \<or> c = CHR ''+'' then r else t | [] \<Rightarrow> t);
      ds = takeWhile is_decimal u
    in if ds = [] then None
       else Some (if neg then - int (decimal_value ds) else int (decimal_value ds)))"

lemma digit_char_value [simp]: "d < 10 \<Longrightarrow> (of_char (digit_char d) :: nat) = 48 + d"
  by (simp add: digit_char_def)

lemma is_decimal_digit [simp]: "d < 10 \<Longrightarrow> is_decimal (digit_char d)"
  by (simp add: is_decimal_def)

lemma show_nat_decimal: "c \<in> set (show_nat n) \<Longrightarrow> is_decimal c"
proof (induction n rule: show_nat.induct)
  case (1 n)
  then show ?case by (subst (asm) show_nat.simps) (auto split: if_splits)
qed

lemma show_nat_not_Nil [simp]: "show_nat n \<noteq> []"
  by (subst show_nat.simps) simp

lemma decimal_value_show_nat [simp]: "decimal_value (show_nat n) = n"
proof (induction n rule: show_nat.induct)
  case (1 n)
  then show ?case by (subst show_nat.simps) (auto simp: decimal_value_def)
qed

lemma is_js_space_decimal: "is_decimal c \<Longrightarrow> \<not> is_js_space c"
  by (auto simp: is_decimal_def is_js_space_def)

lemma js_parseInt_show_nat: "js_parseInt (show_nat n) = Some (int n)"
proof -
  obtain c r where s: "show_nat n = c # r" by (cases "show_nat n") auto
  have d: "is_decimal c" using show_nat_decimal [of c n] s by simp
  then have c: "c \<noteq> CHR ''-''" "c \<noteq> CHR ''+''" by (auto simp: is_decimal_def)
  have "takeWhile is_decimal (show_nat n) = show_nat n"
    by (rule takeWhile_eq_all_conv [THEN iffD2]) (auto intro: show_nat_decimal)
  then have tw: "takeWhile is_decimal (c # r) = c # r" by (simp only: s)
  have dw: "dropWhile is_js_space (c # r) = c # r" using is_js_space_decimal [OF d] by simp
  have dv: "decimal_value (c # r) = n" using decimal_value_show_nat [of n] by (simp only: s)
  show ?thesis
    unfolding js_parseInt_def Let_def s dw list.case using c by (simp add: tw dv del: takeWhile.simps)
qed

lemma length_show_nat: "n < 10 ^ k \<Longrightarrow> 0 < k \<Longrightarrow> length (show_nat n) \<le> k"
proof (induction n arbitrary: k rule: show_nat.induct)
  case (1 n)
  show ?case
  proof (cases "n < 10")
    case True
    then show ?thesis using 1(3) by (subst show_nat.simps) simp
  next
    case False
    with 1(2) obtain j where k: "k = Suc j" "0 < j" by (cases k; cases "k - 1") auto
    then have "n div 10 < 10 ^ j" using 1(2) by (simp add: less_mult_imp_div_less mult.commute)
    then have "length (show_nat (n div 10)) \<le> j" using 1(1) [OF False _ k(2)] by simp
    then show ?thesis using False k by (subst show_nat.simps) simp
  qed
qed

lemma length_pad_nat: "n < 10 ^ k \<Longrightarrow> 0 < k \<Longrightarrow> length (pad_nat k n) = k"
  using length_show_nat [of n k] by (simp add: pad_nat_def)

section \<open>Lists, sets and maps\<close>

lemma find_SomeD: "find P xs = Some x \<Longrightarrow> x \<in> set xs \<and> P x"
  by (auto simp: find_Some_iff)

lemma find_NoneD: "find P xs = None \<Longrightarrow> x \<in> set xs \<Longrightarrow> \<not> P x"
  by (auto simp: find_None_iff)

lemma distinct_filter_le_card:
  "distinct xs \<Longrightarrow> length (filter P xs) = card {x \<in> set xs. P x}"
  by (metis distinct_card distinct_filter set_filter)

text \<open>How a keyed update changes the number of entries that satisfy a predicate.\<close>

definition matching :: "('k \<rightharpoonup> 'r) \<Rightarrow> ('r \<Rightarrow> bool) \<Rightarrow> 'k set" where
  "matching m P = {k. \<exists>r. m k = Some r \<and> P r}"

lemma matching_dom: "matching m P \<subseteq> dom m"
  by (auto simp: matching_def)

lemma finite_matching [simp]: "finite (dom m) \<Longrightarrow> finite (matching m P)"
  by (rule finite_subset [OF matching_dom])

lemma matching_upd:
  "matching (m(k \<mapsto> r)) P = (if P r then insert k (matching m P) else matching m P - {k})"
  by (auto simp: matching_def)

lemma card_matching_upd_le:
  assumes "finite (dom m)"
  shows "card (matching (m(k \<mapsto> r)) P) \<le> Suc (card (matching m P))"
proof -
  have "matching (m(k \<mapsto> r)) P \<subseteq> insert k (matching m P)" by (auto simp: matching_upd)
  then have "card (matching (m(k \<mapsto> r)) P) \<le> card (insert k (matching m P))"
    using assms by (intro card_mono) simp_all
  then show ?thesis using card_insert_le_m1 assms by (simp add: card_insert_if split: if_splits)
qed

lemma card_matching_upd_same:
  assumes "finite (dom m)" "P r \<Longrightarrow> k \<in> matching m P"
  shows "card (matching (m(k \<mapsto> r)) P) \<le> card (matching m P)"
  using assms by (intro card_mono) (auto simp: matching_upd)

end
