(* ===== verification/Domain.thy ===== *)
theory Domain
  imports Prelude
begin

text \<open>
  The data model shared by the services: the enums of \<open>common/enums.ts\<close>, the TypeORM entities
  (\<open>users/user.entity.ts\<close>, \<open>gear/gear.entity.ts\<close>,
  \<open>certifications/certification.entity.ts\<close>) and the Mongoose schema of
  \<open>chat/message.schema.ts\<close>. Ids are UUID strings, timestamps are natural numbers,
  coordinates are rational numbers (they are stored and compared, never computed with).
  Where two enums of the source use the same member name the constructors are written with
  their type, for example \<open>GearStatus.PENDING\<close>.
\<close>

section \<open>Enums\<close>

datatype UserRole = FREELANCE | RECRUITER | ADMIN

datatype GearStatus = PENDING | VALIDATED | REJECTED

datatype GearCategory = DRONE | CAMERA_360 | ROBOTICS | SENSOR | OTHER

datatype CertificationType = DGAC_DRONE | ELEC_HABILITATION | OTHER

datatype CertificationStatus = PENDING | VALIDATED | REJECTED

text \<open>The position of an enum member in its declaration: the order PostgreSQL gives the enum type.\<close>

fun role_ordinal :: "UserRole \<Rightarrow> nat" where
  "role_ordinal FREELANCE = 0"
| "role_ordinal RECRUITER = 1"
| "role_ordinal ADMIN = 2"

fun category_ordinal :: "GearCategory \<Rightarrow> nat" where
  "category_ordinal DRONE = 0"
| "category_ordinal CAMERA_360 = 1"
| "category_ordinal ROBOTICS = 2"
| "category_ordinal SENSOR = 3"
| "category_ordinal GearCategory.OTHER = 4"

lemma role_ordinal_inj: "role_ordinal a = role_ordinal b \<longleftrightarrow> a = b"
  by (cases a; cases b) auto

lemma category_ordinal_inj: "category_ordinal a = category_ordinal b \<longleftrightarrow> a = b"
  by (cases a; cases b) auto

instantiation UserRole :: linorder
begin

definition less_eq_UserRole :: "UserRole \<Rightarrow> UserRole \<Rightarrow> bool" where
  "less_eq_UserRole a b \<longleftrightarrow> role_ordinal a \<le> role_ordinal b"

definition less_UserRole :: "UserRole \<Rightarrow> UserRole \<Rightarrow> bool" where
  "less_UserRole a b \<longleftrightarrow> role_ordinal a < role_ordinal b"

instance
  by standard (auto simp: less_eq_UserRole_def less_UserRole_def role_ordinal_inj)

end

instantiation GearCategory :: linorder
begin

definition less_eq_GearCategory :: "GearCategory \<Rightarrow> GearCategory \<Rightarrow> bool" where
  "less_eq_GearCategory a b \<longleftrightarrow> category_ordinal a \<le> category_ordinal b"

definition less_GearCategory :: "GearCategory \<Rightarrow> GearCategory \<Rightarrow> bool" where
  "less_GearCategory a b \<longleftrightarrow> category_ordinal a < category_ordinal b"

instance
  by standard (auto simp: less_eq_GearCategory_def less_GearCategory_def category_ordinal_inj)

end

lemma UNIV_GearCategory: "(UNIV :: GearCategory set) = {DRONE, CAMERA_360, ROBOTICS, SENSOR, GearCategory.OTHER}"
proof -
  have "x \<in> {DRONE, CAMERA_360, ROBOTICS, SENSOR, GearCategory.OTHER}" for x
    by (cases x) auto
  then show ?thesis by auto
qed

lemma card_GearCategory: "card (UNIV :: GearCategory set) = 5"
  by (simp add: UNIV_GearCategory)

lemma finite_GearCategory [simp]: "finite (S :: GearCategory set)"
  by (rule finite_subset [OF subset_UNIV]) (simp add: UNIV_GearCategory)

lemma card_GearCategory_le: "card (S :: GearCategory set) \<le> 5"
  by (metis card_GearCategory card_mono finite_GearCategory subset_UNIV)

section \<open>Entities\<close>

text \<open>A GeoJSON \<open>Point\<close>: its coordinates are \<open>[longitude, latitude]\<close>, in this order.\<close>

record point =
  coordinates :: "rat list"

record user =
  u_id :: string
  u_email :: string
  u_username :: string
  u_passwordHash :: string
  u_role :: UserRole
  u_location :: "point option"
  u_twoFactorEnabled :: bool
  u_twoFactorSecretEncrypted :: "string option"
  u_twoFactorBackupCodesHashed :: "string list option"
  u_createdAt :: nat

record gear =
  g_id :: string
  g_brand :: string
  g_model :: string
  g_serialNumber :: string
  g_category :: GearCategory
  g_status :: GearStatus
  g_isInLoadout :: bool
  g_createdAt :: nat
  g_freelanceId :: string

record certification =
  c_id :: string
  c_type :: CertificationType
  c_number :: string
  c_validUntil :: string
  c_status :: CertificationStatus
  c_s3Key :: "string option"
  c_mimeType :: string
  c_uploadedAt :: nat
  c_reviewedAt :: "nat option"
  c_purgedAt :: "nat option"
  c_freelanceId :: string

record chat_message =
  m_id :: string
  m_conversationId :: string
  m_senderId :: string
  m_body :: string
  m_createdAt :: nat

definition MESSAGE_MAX_LENGTH :: nat where
  "MESSAGE_MAX_LENGTH = 2000"

end
