(* ===== verification/Bytes.thy ===== *)
theory Bytes
  imports Prelude "HOL-Library.Word"
begin

text \<open>
  The part of Node's \<open>Buffer\<close> that the authentication code uses: byte strings, base64 and
  UTF-8 on the characters of the development. Decoding is as lenient as Node's: characters
  outside the alphabet are skipped, the URL-safe digits are accepted, input ends at the first
  \<open>=\<close>, a lone last digit is dropped.
\<close>

type_synonym bytes = "8 word list"

section \<open>Base64\<close>

definition b64_alphabet :: string where
  "b64_alphabet = ''ABCDEFGHIJKLMNOPQRSTUVWXYZabcdefghijklmnopqrstuvwxyz0123456789+/''"

definition b64_digit :: "nat \<Rightarrow> char" where
  "b64_digit n = b64_alphabet ! n"

definition b64_value :: "char \<Rightarrow> nat option" where
  "b64_value c = (if c = CHR ''-'' then Some 62 else if c = CHR ''_'' then Some 63
     else map_of (zip b64_alphabet [0..<64]) c)"

fun b64_encode :: "bytes \<Rightarrow> string" where
  "b64_encode [] = []"
| "b64_encode [a] = [b64_digit (unat a div 4), b64_digit (unat a mod 4 * 16), CHR ''='', CHR ''='']"
| "b64_encode [a, b] = [b64_digit (unat a div 4),
     b64_digit (unat a mod 4 * 16 + unat b div 16), b64_digit (unat b mod 16 * 4), CHR ''='']"
| "b64_encode (a # b # c # bs) =
     b64_digit (unat a div 4) # b64_digit (unat a mod 4 * 16 + unat b div 16) #
     b64_digit (unat b mod 16 * 4 + unat c div 64) # b64_digit (unat c mod 64) # b64_encode bs"

fun b64_groups :: "nat list \<Rightarrow> bytes" where
  "b64_groups (p # q # r # s # vs) =
     word_of_nat (p * 4 + q div 16) # word_of_nat (q mod 16 * 16 + r div 4) #
     word_of_nat (r mod 4 * 64 + s) # b64_groups vs"
| "b64_groups [p, q, r] = [word_of_nat (p * 4 + q div 16), word_of_nat (q mod 16 * 16 + r div 4)]"
| "b64_groups [p, q] = [word_of_nat (p * 4 + q div 16)]"
| "b64_groups _ = []"

definition b64_decode :: "string \<Rightarrow> bytes" where
  "b64_decode s = b64_groups (List.map_filter b64_value (takeWhile (\<lambda>c. c \<noteq> CHR ''='') s))"

lemma length_alphabet: "length b64_alphabet = 64"
  by (simp add: b64_alphabet_def)

lemma distinct_alphabet: "distinct b64_alphabet"
  by (simp add: b64_alphabet_def)

lemma alphabet_plain: "set b64_alphabet \<inter> {CHR ''='', CHR ''-'', CHR ''_'', CHR ''.''} = {}"
  by (simp add: b64_alphabet_def)

lemma b64_digit_in: "n < 64 \<Longrightarrow> b64_digit n \<in> set b64_alphabet"
  by (simp add: b64_digit_def length_alphabet)

lemma b64_digit_plain [simp]:
  "n < 64 \<Longrightarrow> b64_digit n \<noteq> CHR ''=''" "n < 64 \<Longrightarrow> b64_digit n \<noteq> CHR ''.''"
  using b64_digit_in [of n] alphabet_plain by auto

lemma b64_value_digit [simp]: "n < 64 \<Longrightarrow> b64_value (b64_digit n) = Some n"
proof -
  assume n: "n < 64"
  have "map_of (zip b64_alphabet [0..<64]) (b64_alphabet ! n) = Some ([0..<64] ! n)"
    by (rule map_of_zip_nth) (simp_all add: length_alphabet distinct_alphabet n del: upt.simps)
  moreover have "b64_digit n \<noteq> CHR ''-''" "b64_digit n \<noteq> CHR ''_''"
    using b64_digit_in [OF n] alphabet_plain by auto
  ultimately show ?thesis using n by (simp add: b64_value_def b64_digit_def del: upt.simps)
qed

lemma unat8 [simp]: "unat (a :: 8 word) < 256"
  using unsigned_less [of a] by (simp add: unsigned_less)

lemma byte_div [simp]: "unat (a :: 8 word) div 4 < 64" "unat a div 16 < 16" "unat a div 64 < 4"
  using unat8 [of a] by (simp_all add: less_mult_imp_div_less)

lemma digit_bounds [simp]:
  "x mod 4 * 16 < (64 :: nat)" "x mod 16 * 4 < (64 :: nat)"
  "y < 16 \<Longrightarrow> x mod 4 * 16 + y < (64 :: nat)" "y < 4 \<Longrightarrow> x mod 16 * 4 + y < (64 :: nat)"
proof -
  have "x mod 4 < 4" "x mod 16 < 16" by simp_all
  then show "x mod 4 * 16 < (64 :: nat)" "x mod 16 * 4 < (64 :: nat)"
    "y < 16 \<Longrightarrow> x mod 4 * 16 + y < (64 :: nat)" "y < 4 \<Longrightarrow> x mod 16 * 4 + y < (64 :: nat)"
    by linarith+
qed

lemma b64_join [simp]:
  "y < 16 \<Longrightarrow> (x mod 4 * 16 + y) div 16 = x mod (4 :: nat)"
  "y < 16 \<Longrightarrow> (x mod 4 * 16 + y) mod 16 = y"
  "z < 4 \<Longrightarrow> (x mod 16 * 4 + z) div 4 = x mod (16 :: nat)"
  "z < 4 \<Longrightarrow> (x mod 16 * 4 + z) mod 4 = z"
  by simp_all

lemma word_of_nat_split [simp]:
  "word_of_nat (unat a div 4 * 4 + unat a mod 4) = (a :: 8 word)"
  "word_of_nat (unat a div 16 * 16 + unat a mod 16) = (a :: 8 word)"
  "word_of_nat (unat a div 64 * 64 + unat a mod 64) = (a :: 8 word)"
  unfolding div_mult_mod_eq by simp_all

lemma b64_roundtrip_aux:
  "b64_groups (List.map_filter b64_value (takeWhile (\<lambda>c. c \<noteq> CHR ''='') (b64_encode bs))) = bs"
  by (induction bs rule: b64_encode.induct) (simp_all add: List.map_filter_simps del: of_nat_add of_nat_mult)

lemma b64_decode_encode [simp]: "b64_decode (b64_encode bs) = bs"
  unfolding b64_decode_def by (rule b64_roundtrip_aux)

lemma b64_encode_no_dot: "CHR ''.'' \<notin> set (b64_encode bs)"
  by (induction bs rule: b64_encode.induct) (simp_all add: b64_digit_plain(2) [symmetric])

section \<open>UTF-8\<close>

text \<open>
  Characters are code units below 256, so one or two bytes. Sequences that encode none of them
  are outside of the character model and read as a question mark.
\<close>

definition utf8_char :: "char \<Rightarrow> bytes" where
  "utf8_char c = (let n = of_char c :: nat in
     if n < 128 then [word_of_nat n] else [word_of_nat (192 + n div 64), word_of_nat (128 + n mod 64)])"

definition utf8_encode :: "string \<Rightarrow> bytes" where
  "utf8_encode s = concat (map utf8_char s)"

fun utf8_decode :: "bytes \<Rightarrow> string" where
  "utf8_decode [] = []"
| "utf8_decode (a # bs) =
     (if unat a < 128 then char_of (unat a) # utf8_decode bs
      else case bs of
        b # cs \<Rightarrow>
          if unat a \<in> {194, 195} \<and> unat b div 64 = 2
          then char_of ((unat a - 192) * 64 + (unat b - 128)) # utf8_decode cs
          else CHR ''?'' # utf8_decode bs
      | [] \<Rightarrow> [CHR ''?''])"

lemma utf8_decode_char: "utf8_decode (utf8_char c @ bs) = c # utf8_decode bs"
proof -
  let ?n = "of_char c :: nat"
  have n: "?n < 256" by simp
  show ?thesis
  proof (cases "?n < 128")
    case True
    then show ?thesis by (simp add: utf8_char_def unat_of_nat Let_def)
  next
    case False
    then have d: "?n div 64 = 2 \<or> ?n div 64 = 3" using n by linarith
    have m: "?n mod 64 < 64" by simp
    have u: "unat (word_of_nat (192 + ?n div 64) :: 8 word) = 192 + ?n div 64"
      "unat (word_of_nat (128 + ?n mod 64) :: 8 word) = 128 + ?n mod 64"
      using d m by (auto simp: unat_of_nat simp del: of_nat_add)
    have e: "(128 + ?n mod 64) div 64 = 2" using m by linarith
    have "(?n div 64) * 64 + ?n mod 64 = ?n" by simp
    then show ?thesis using False d e
      by (auto simp: utf8_char_def Let_def u simp del: of_nat_add)
  qed
qed

lemma utf8_roundtrip [simp]: "utf8_decode (utf8_encode s) = s"
  by (induction s) (simp_all add: utf8_encode_def utf8_decode_char)

end
