(* ===== verification/Guards.thy ===== *)
theory Guards
  imports Domain Bytes
begin

text \<open>
  \<open>auth/guards/jwt-auth.guard.ts\<close> and \<open>auth/keys.ts\<close>: the JWT service the application
  configures, the two guards that stand before every protected route, and the loading of the
  RSA keys.

  Signing and verifying are the library's (\<open>@nestjs/jwt\<close>): a record of two functions, with
  what its documentation promises in the locale \<open>jwt_service\<close>. Seconds are passed explicitly.
\<close>

section \<open>Tokens\<close>

text \<open>
  The claims the application puts in a token and reads back; absent ones are \<open>None\<close>. Every
  token the application signs has a \<open>userId\<close>.
\<close>

record claims =
  cl_userId :: string
  cl_email :: "string option"
  cl_role :: "UserRole option"
  cl_type :: "string option"
  cl_jti :: "string option"

record jwt =
  jwt_sign :: "nat \<Rightarrow> claims \<Rightarrow> nat \<Rightarrow> string"
  jwt_verify :: "nat \<Rightarrow> string \<Rightarrow> exn + claims"

text \<open>\<open>jwt_sign now c ttl\<close> is \<open>sign\<close> with \<open>expiresIn\<close> (and \<open>jwtid\<close>, a claim).\<close>

locale jwt_service =
  fixes J :: jwt
  assumes verify_live: "now < t + ttl \<Longrightarrow> jwt_verify J now (jwt_sign J t c ttl) = Inr c"
    and verify_expired: "t + ttl \<le> now \<Longrightarrow> \<exists>e. jwt_verify J now (jwt_sign J t c ttl) = Inl e"
    and token_chars: "CHR '' '' \<notin> set (jwt_sign J t c ttl)"

section \<open>JwtAuthGuard\<close>

text \<open>\<open>request.user\<close> as the guard sets it.\<close>

record JwtPayload =
  p_userId :: string
  p_email :: "string option"
  p_role :: "UserRole option"

definition JwtAuthGuard_canActivate :: "jwt \<Rightarrow> nat \<Rightarrow> string option \<Rightarrow> exn + JwtPayload" where
  "JwtAuthGuard_canActivate J now authHeader = (case authHeader of
     None \<Rightarrow> Inl (Unauthorized BearerMissing)
   | Some h \<Rightarrow>
       if h = [] \<or> \<not> js_startsWith h ''Bearer '' then Inl (Unauthorized BearerMissing)
       else (case jwt_verify J now (js_split (CHR '' '') h ! 1) of
           Inl (Unauthorized m) \<Rightarrow> Inl (Unauthorized m)
         | Inl _ \<Rightarrow> Inl (Unauthorized TokenInvalid)
         | Inr payload \<Rightarrow>
             if cl_type payload \<noteq> Some ''access'' then Inl (Unauthorized WrongTokenType)
             else Inr \<lparr>p_userId = cl_userId payload, p_email = cl_email payload,
                       p_role = cl_role payload\<rparr>))"

section \<open>RolesGuard\<close>

text \<open>\<open>getAllAndOverride\<close>: the metadata of the handler, otherwise that of the controller.\<close>

definition roles_metadata :: "UserRole list option \<Rightarrow> UserRole list option \<Rightarrow> UserRole list option" where
  "roles_metadata handler controller = (case handler of Some rs \<Rightarrow> Some rs | None \<Rightarrow> controller)"

definition RolesGuard_canActivate :: "UserRole list option \<Rightarrow> JwtPayload option \<Rightarrow> exn + unit" where
  "RolesGuard_canActivate requiredRoles user = (case requiredRoles of
     None \<Rightarrow> Inr ()
   | Some [] \<Rightarrow> Inr ()
   | Some roles \<Rightarrow> (case user of
         None \<Rightarrow> Inl (Forbidden RoleNotAllowed)
       | Some u \<Rightarrow> (case p_role u of
             Some r \<Rightarrow> if r \<in> set roles then Inr () else Inl (Forbidden RoleNotAllowed)
           | None \<Rightarrow> Inl (Forbidden RoleNotAllowed))))"

text \<open>
  \<open>@UseGuards(JwtAuthGuard)\<close>, and \<open>@UseGuards(JwtAuthGuard, RolesGuard)\<close> with
  \<open>@Roles(...)\<close> on the handler: the guards run in this order, before the validation of the
  body and the handler.
\<close>

definition jwt_guarded :: "jwt \<Rightarrow> nat \<Rightarrow> string option \<Rightarrow> (JwtPayload \<Rightarrow> ('s, 'a) proc) \<Rightarrow> ('s, 'a) proc" where
  "jwt_guarded J now auth handler = bindP (liftE (JwtAuthGuard_canActivate J now auth)) handler"

definition roles_guarded ::
    "jwt \<Rightarrow> UserRole list \<Rightarrow> nat \<Rightarrow> string option \<Rightarrow> (JwtPayload \<Rightarrow> ('s, 'a) proc) \<Rightarrow> ('s, 'a) proc" where
  "roles_guarded J roles now auth handler =
     bindP (liftE (JwtAuthGuard_canActivate J now auth)) (\<lambda>user.
     bindP (liftE (RolesGuard_canActivate (roles_metadata (Some roles) None) (Some user))) (\<lambda>_.
     handler user))"

lemma js_split_bearer: "CHR '' '' \<notin> set tok \<Longrightarrow> js_split (CHR '' '') (''Bearer '' @ tok) ! 1 = tok"
  by (simp add: js_split_no_sep)

lemma JwtAuthGuard_Inr_iff:
  "JwtAuthGuard_canActivate J now auth = Inr u \<longleftrightarrow>
     (\<exists>h c. auth = Some h \<and> js_startsWith h ''Bearer '' \<and>
        jwt_verify J now (js_split (CHR '' '') h ! 1) = Inr c \<and> cl_type c = Some ''access'' \<and>
        u = \<lparr>p_userId = cl_userId c, p_email = cl_email c, p_role = cl_role c\<rparr>)"
  by (auto simp: JwtAuthGuard_canActivate_def js_startsWith_def
           split: option.splits sum.splits exn.splits)

lemma JwtAuthGuard_Inl_401: "JwtAuthGuard_canActivate J now auth = Inl e \<Longrightarrow> http_status e = 401"
  by (auto simp: JwtAuthGuard_canActivate_def split: option.splits sum.splits exn.splits if_splits)

lemma RolesGuard_Inr_iff:
  "RolesGuard_canActivate (Some roles) (Some u) = Inr x \<longleftrightarrow>
     roles = [] \<or> (\<exists>r \<in> set roles. p_role u = Some r)"
  by (cases roles) (auto simp: RolesGuard_canActivate_def split: option.splits)

lemma RolesGuard_Inl:
  "RolesGuard_canActivate roles u = Inl e \<Longrightarrow> e = Forbidden RoleNotAllowed"
  by (auto simp: RolesGuard_canActivate_def split: option.splits list.splits if_splits)

text \<open>A guarded handler that returns ran for an access token of one of the roles.\<close>

lemma roles_guarded_Inr:
  assumes "roles_guarded J roles now auth handler s = (Inr x, s')" "roles \<noteq> []"
  obtains u r where "JwtAuthGuard_canActivate J now auth = Inr u" "p_role u = Some r" "r \<in> set roles"
    "handler u s = (Inr x, s')"
proof -
  obtain u where u: "JwtAuthGuard_canActivate J now auth = Inr u"
    and r: "RolesGuard_canActivate (Some roles) (Some u) = Inr ()" and h: "handler u s = (Inr x, s')"
    using assms(1) by (auto simp: roles_guarded_def roles_metadata_def proc_iff) (metis (full_types))
  from r assms(2) obtain q where "q \<in> set roles" "p_role u = Some q"
    unfolding RolesGuard_Inr_iff by blast
  with u h show thesis by (blast intro: that)
qed

lemma roles_guarded_cases:
  assumes "roles_guarded J roles now auth handler s = (r, s')" "roles \<noteq> []"
  obtains e where "r = Inl e" "s' = s" "http_status e = 401 \<or> e = Forbidden RoleNotAllowed"
  | u q where "JwtAuthGuard_canActivate J now auth = Inr u" "p_role u = Some q" "q \<in> set roles"
    "handler u s = (r, s')"
proof (cases "JwtAuthGuard_canActivate J now auth")
  case (Inl e)
  with assms(1) JwtAuthGuard_Inl_401 [OF Inl] show thesis
    by (intro that(1) [of e]) (simp_all add: roles_guarded_def throwP_def)
next
  case (Inr u)
  show thesis
  proof (cases "RolesGuard_canActivate (Some roles) (Some u)")
    case (Inl e)
    with Inr assms(1) RolesGuard_Inl [OF Inl] show thesis
      by (intro that(1) [of e]) (simp_all add: roles_guarded_def roles_metadata_def throwP_def)
  next
    case ok: (Inr x)
    with assms(2) obtain q where "q \<in> set roles" "p_role u = Some q" by (auto simp: RolesGuard_Inr_iff)
    with Inr ok assms(1) show thesis
      by (intro that(2) [of u q]) (simp_all add: roles_guarded_def roles_metadata_def)
  qed
qed

lemma roles_guarded_refuses:
  assumes "JwtAuthGuard_canActivate J now auth = Inr u"
    "\<And>r. p_role u = Some r \<Longrightarrow> r \<notin> set roles" "roles \<noteq> []"
  shows "roles_guarded J roles now auth handler s = (Inl (Forbidden RoleNotAllowed), s)"
proof -
  have "RolesGuard_canActivate (Some roles) (Some u) = Inl (Forbidden RoleNotAllowed)"
    using assms(2,3) by (cases roles) (auto simp: RolesGuard_canActivate_def split: option.splits)
  then show ?thesis using assms(1) by (simp add: roles_guarded_def roles_metadata_def throwP_def)
qed

lemma roles_guarded_unauthenticated:
  "JwtAuthGuard_canActivate J now auth = Inl e \<Longrightarrow> roles_guarded J roles now auth handler s = (Inl e, s)"
  by (simp add: roles_guarded_def throwP_def)

lemma jwt_guarded_unauthenticated:
  "JwtAuthGuard_canActivate J now auth = Inl e \<Longrightarrow> jwt_guarded J now auth handler s = (Inl e, s)"
  by (simp add: jwt_guarded_def throwP_def)

lemma roles_guarded_passes:
  assumes "JwtAuthGuard_canActivate J now auth = Inr u" "p_role u = Some r" "r \<in> set roles"
  shows "roles_guarded J roles now auth handler = handler u"
proof -
  have "RolesGuard_canActivate (Some roles) (Some u) = Inr ()"
    using assms(2,3) by (cases roles) (auto simp: RolesGuard_canActivate_def)
  then show ?thesis using assms(1) by (simp add: roles_guarded_def roles_metadata_def)
qed

lemma jwt_guarded_passes:
  "JwtAuthGuard_canActivate J now auth = Inr u \<Longrightarrow> jwt_guarded J now auth handler = handler u"
  by (simp add: jwt_guarded_def)

context jwt_service
begin

text \<open>What the guard makes of a token this application signed.\<close>

lemma guard_signed:
  assumes "now < t + ttl"
  shows "JwtAuthGuard_canActivate J now (Some (''Bearer '' @ jwt_sign J t c ttl)) =
    (if cl_type c = Some ''access''
     then Inr \<lparr>p_userId = cl_userId c, p_email = cl_email c, p_role = cl_role c\<rparr>
     else Inl (Unauthorized WrongTokenType))"
  unfolding JwtAuthGuard_canActivate_def
  by (simp add: js_split_no_sep token_chars verify_live assms js_startsWith_def)

lemma guard_expired:
  assumes "t + ttl \<le> now"
  shows "\<exists>m. JwtAuthGuard_canActivate J now (Some (''Bearer '' @ jwt_sign J t c ttl)) = Inl (Unauthorized m)"
proof -
  obtain e where "jwt_verify J now (jwt_sign J t c ttl) = Inl e" using verify_expired [OF assms] ..
  then show ?thesis
    unfolding JwtAuthGuard_canActivate_def
    by (cases e) (simp_all add: js_split_no_sep token_chars js_startsWith_def)
qed

end

section \<open>A token format for runs\<close>

text \<open>
  A provider of the interface whose tokens can be evaluated: the claims and the expiry date as a
  list of numbers, each written in unary. It stands for the library in the concrete runs only.
\<close>

definition nats_encode :: "nat list \<Rightarrow> string" where
  "nats_encode ns = js_join ''0'' (map (\<lambda>n. replicate n CHR ''1'') ns)"

definition nats_decode :: "string \<Rightarrow> nat list" where
  "nats_decode s = map length (js_split CHR ''0'' s)"

lemma nats_roundtrip: "ns \<noteq> [] \<Longrightarrow> nats_decode (nats_encode ns) = ns"
proof -
  assume "ns \<noteq> []"
  then have "js_split CHR ''0'' (js_join ''0'' (map (\<lambda>n. replicate n CHR ''1'') ns)) =
      map (\<lambda>n. replicate n CHR ''1'') ns"
    by (intro js_split_join) auto
  then show ?thesis by (simp add: nats_encode_def nats_decode_def comp_def)
qed

fun str_nats :: "string option \<Rightarrow> nat list" where
  "str_nats None = [0]"
| "str_nats (Some s) = Suc (length s) # map of_char s"

fun nats_str :: "nat list \<Rightarrow> string option \<times> nat list" where
  "nats_str [] = (None, [])"
| "nats_str (0 # ns) = (None, ns)"
| "nats_str (Suc n # ns) = (Some (map char_of (take n ns)), drop n ns)"

lemma nats_str_str_nats [simp]: "nats_str (str_nats x @ ns) = (x, ns)"
  by (cases x) (simp_all add: comp_def)

fun nat_role :: "nat \<Rightarrow> UserRole option" where
  "nat_role n = (if n = 1 then Some FREELANCE else if n = 2 then Some RECRUITER
     else if n = 3 then Some ADMIN else None)"

fun role_nat :: "UserRole option \<Rightarrow> nat" where
  "role_nat None = 0"
| "role_nat (Some r) = Suc (role_ordinal r)"

lemma nat_role_nat [simp]: "nat_role (role_nat r) = r"
proof (cases r)
  case (Some x) then show ?thesis by (cases x) auto
qed simp

declare nat_role.simps [simp del]

definition mem_jwt :: jwt where
  "mem_jwt = \<lparr>
     jwt_sign = (\<lambda>now c ttl. nats_encode ((now + ttl) # role_nat (cl_role c) #
        str_nats (Some (cl_userId c)) @ str_nats (cl_email c) @ str_nats (cl_type c) @
        str_nats (cl_jti c))),
     jwt_verify = (\<lambda>now s. case nats_decode s of
        d # r # ns \<Rightarrow>
          let (uid, ns1) = nats_str ns; (email, ns2) = nats_str ns1; (ty, ns3) = nats_str ns2;
              (jti, ns4) = nats_str ns3
          in if now < d then Inr \<lparr>cl_userId = the uid, cl_email = email, cl_role = nat_role r,
                                  cl_type = ty, cl_jti = jti\<rparr>
             else Inl LibraryError
      | _ \<Rightarrow> Inl LibraryError) \<rparr>"

lemma nats_str_last [simp]: "nats_str (str_nats x) = (x, [])"
  using nats_str_str_nats [of x "[]"] by simp

lemma set_js_join: "set (js_join sep ss) \<subseteq> set sep \<union> \<Union> (set ` set ss)"
  by (induction sep ss rule: js_join.induct) auto

interpretation mem_jwt: jwt_service mem_jwt
proof (unfold_locales, goal_cases)
  case (1 now t ttl c)
  then show ?case by (simp add: mem_jwt_def nats_roundtrip Let_def split_def)
next
  case (2 t ttl now c)
  then show ?case by (simp add: mem_jwt_def nats_roundtrip Let_def split_def)
next
  case (3 t c ttl)
  have "set (nats_encode ns) \<subseteq> {CHR ''0'', CHR ''1''}" for ns
    using set_js_join [of "''0''" "map (\<lambda>n. replicate n CHR ''1'') ns"]
    by (auto simp: nats_encode_def set_replicate_conv_if split: if_splits)
  then show ?case by (auto simp: mem_jwt_def)
qed

section \<open>Keys\<close>

fun unescape_newlines :: "string \<Rightarrow> string" where
  "unescape_newlines (c # d # s) =
     (if c = CHR 0x5C \<and> d = CHR ''n'' then CHR 0x0A # unescape_newlines s
      else c # unescape_newlines (d # s))"
| "unescape_newlines s = s"

definition decodeKey :: "string \<Rightarrow> string" where
  "decodeKey raw = (let val = js_trim raw in
     if js_includes val ''BEGIN'' then unescape_newlines val
     else utf8_decode (b64_decode val))"

record JwtKeys =
  privateKey :: string
  publicKey :: string
  ephemeral :: bool

text \<open>The environment variables, and the pair \<open>generateKeyPairSync\<close> would generate.\<close>

definition loadJwtKeys :: "string option \<Rightarrow> string option \<Rightarrow> string \<times> string \<Rightarrow> JwtKeys" where
  "loadJwtKeys priv pub generated = (case (priv, pub) of
     (Some p, Some q) \<Rightarrow>
       if p \<noteq> [] \<and> q \<noteq> [] then \<lparr>privateKey = decodeKey p, publicKey = decodeKey q, ephemeral = False\<rparr>
       else \<lparr>privateKey = fst generated, publicKey = snd generated, ephemeral = True\<rparr>
   | _ \<Rightarrow> \<lparr>privateKey = fst generated, publicKey = snd generated, ephemeral = True\<rparr>)"

lemma b64_encode_chars: "set (b64_encode bs) \<subseteq> insert CHR ''='' (set b64_alphabet)"
  by (induction bs rule: b64_encode.induct) (auto simp: b64_digit_in)

lemma b64_encode_no_space: "c \<in> set (b64_encode bs) \<Longrightarrow> \<not> is_js_space c"
proof -
  assume "c \<in> set (b64_encode bs)"
  then have "c \<in> insert CHR ''='' (set b64_alphabet)" using b64_encode_chars by blast
  then show ?thesis by (auto simp: b64_alphabet_def is_js_space_def)
qed

text \<open>The two encodings of a key give the same key.\<close>

lemma decodeKey_base64:
  assumes "\<not> js_includes (b64_encode (utf8_encode pem)) ''BEGIN''"
  shows "decodeKey (b64_encode (utf8_encode pem)) = pem"
  using assms b64_encode_no_space by (simp add: decodeKey_def js_trim_plain Let_def)

fun escape_newlines :: "string \<Rightarrow> string" where
  "escape_newlines [] = []"
| "escape_newlines (c # s) =
     (if c = CHR 0x0A then CHR 0x5C # CHR ''n'' # escape_newlines s else c # escape_newlines s)"

lemma unescape_plain: "c \<noteq> CHR 0x5C \<Longrightarrow> unescape_newlines (c # s) = c # unescape_newlines s"
  by (cases s) auto

lemma unescape_escape: "CHR 0x5C \<notin> set s \<Longrightarrow> unescape_newlines (escape_newlines s) = s"
  by (induction s) (auto simp: unescape_plain)

end
