(* ===== verification/Stores.thy ===== *)
theory Stores
  imports Domain
begin

text \<open>
  The interfaces to the stores the code calls but does not contain: a TypeORM repository over a
  PostgreSQL table, and the Redis server behind the ioredis client. Each is a record of
  procedures, which the services take as an argument, and a locale that states what the
  documentation of the store promises about them. The state type is left open. Nothing is
  promised about when a call fails, only about what a failed call leaves behind, and that a
  rejection of TypeORM is an error of its own, never an HTTP exception of Nest.
\<close>

section \<open>TypeORM repositories\<close>

text \<open>
  A \<open>where\<close> clause is the predicate it denotes on rows; \<open>order\<close> is the list of the
  \<open>ORDER BY\<close> columns of a row, all descending. \<open>repo_insert\<close> is \<open>save\<close> of a fresh
  entity: the entity is a function of the id and the creation time that the database generates
  (an entity that brings its own id ignores the first).
\<close>

record ('s, 'r) repo =
  repo_findOne :: "('r \<Rightarrow> bool) \<Rightarrow> ('s, 'r option) proc"
  repo_find :: "('r \<Rightarrow> bool) \<Rightarrow> ('s, 'r list) proc"
  repo_count :: "('r \<Rightarrow> bool) \<Rightarrow> ('s, nat) proc"
  repo_findAndCount :: "('r \<Rightarrow> bool) \<Rightarrow> ('r \<Rightarrow> int list) \<Rightarrow> nat \<Rightarrow> nat \<Rightarrow> ('s, 'r list \<times> nat) proc"
  repo_insert :: "(string \<Rightarrow> nat \<Rightarrow> 'r) \<Rightarrow> ('s, 'r) proc"
  repo_save :: "'r \<Rightarrow> ('s, 'r) proc"

text \<open>
  What a repository promises, in terms of the rows a state holds (\<open>tbl\<close>, by primary key).
\<close>

locale repository =
  fixes R :: "('s, 'r) repo"
    and tbl :: "'s \<Rightarrow> string \<rightharpoonup> 'r"
    and key :: "'r \<Rightarrow> string"
  assumes tbl_finite: "finite (dom (tbl s))"
    and tbl_key: "tbl s i = Some r \<Longrightarrow> key r = i"
    and findOne_Some: "repo_findOne R P s = (Inr (Some r), s') \<Longrightarrow> tbl s (key r) = Some r \<and> P r"
    and findOne_None: "repo_findOne R P s = (Inr None, s') \<Longrightarrow> tbl s i = Some r \<Longrightarrow> \<not> P r"
    and findOne_frame: "repo_findOne R P s = (x, s') \<Longrightarrow> tbl s' = tbl s"
    and findOne_error: "repo_findOne R P s = (Inl e, s') \<Longrightarrow> e = LibraryError"
    and find_rows: "repo_find R P s = (Inr rs, s') \<Longrightarrow>
          distinct (map key rs) \<and> set rs = {r. tbl s (key r) = Some r \<and> P r}"
    and find_frame: "repo_find R P s = (y, s') \<Longrightarrow> tbl s' = tbl s"
    and find_error: "repo_find R P s = (Inl e, s') \<Longrightarrow> e = LibraryError"
    and count_rows: "repo_count R P s = (Inr n, s') \<Longrightarrow> n = card (matching (tbl s) P)"
    and count_frame: "repo_count R P s = (z, s') \<Longrightarrow> tbl s' = tbl s"
    and count_error: "repo_count R P s = (Inl e, s') \<Longrightarrow> e = LibraryError"
    and page_rows: "repo_findAndCount R P ord sk tk s = (Inr (rs, n), s') \<Longrightarrow>
          \<exists>all. distinct (map key all) \<and> set all = {r. tbl s (key r) = Some r \<and> P r} \<and>
                sorted (map ord (rev all)) \<and> rs = take tk (drop sk all) \<and> n = length all"
    and page_frame: "repo_findAndCount R P ord sk tk s = (p, s') \<Longrightarrow> tbl s' = tbl s"
    and page_error: "repo_findAndCount R P ord sk tk s = (Inl e, s') \<Longrightarrow> e = LibraryError"
    and insert_row: "repo_insert R d s = (Inr r, s') \<Longrightarrow>
          \<exists>i t. r = d i t \<and> tbl s' = (tbl s)(key r \<mapsto> r) \<and> (key r = i \<longrightarrow> tbl s i = None)"
    and insert_frame: "repo_insert R d s = (Inl e, s') \<Longrightarrow> tbl s' = tbl s"
    and insert_error: "repo_insert R d s = (Inl e, s') \<Longrightarrow> e = LibraryError"
    and save_row: "repo_save R r s = (Inr r', s') \<Longrightarrow> r' = r \<and> tbl s' = (tbl s)(key r \<mapsto> r)"
    and save_frame: "repo_save R r s = (Inl e, s') \<Longrightarrow> tbl s' = tbl s"
    and save_error: "repo_save R r s = (Inl e, s') \<Longrightarrow> e = LibraryError"
begin

lemma findOne_by_key:
  assumes run: "repo_findOne R (\<lambda>r. key r = i) s = (Inr x, s')"
  shows "x = tbl s i"
proof (cases x)
  case (Some r)
  then show ?thesis using findOne_Some [of "\<lambda>r. key r = i" s r s'] run by auto
next
  case None
  show ?thesis
  proof (cases "tbl s i")
    case None
    with \<open>x = None\<close> show ?thesis by simp
  next
    case (Some r)
    then show ?thesis
      using findOne_None [of "\<lambda>r. key r = i" s s' i r] run \<open>x = None\<close> tbl_key by auto
  qed
qed

lemma save_tbl: "repo_save R r s = (x, s') \<Longrightarrow> tbl s' = tbl s \<or> tbl s' = (tbl s)(key r \<mapsto> r)"
  by (cases x) (auto dest: save_row save_frame)

lemma key_image: "key ` {r. tbl s (key r) = Some r \<and> P r} = matching (tbl s) P"
proof (intro set_eqI iffI)
  fix i assume "i \<in> matching (tbl s) P"
  then obtain r where r: "tbl s i = Some r" "P r" unfolding matching_def by blast
  then show "i \<in> key ` {r. tbl s (key r) = Some r \<and> P r}"
    using tbl_key [OF r(1)] by (intro image_eqI [of _ _ r]) simp_all
qed (auto simp: matching_def)

lemma length_rows:
  assumes "distinct (map key rs)" "set rs = {r. tbl s (key r) = Some r \<and> P r}"
  shows "length rs = card (matching (tbl s) P)"
proof -
  have "card (set (map key rs)) = length (map key rs)" using assms(1) by (rule distinct_card)
  moreover have "set (map key rs) = matching (tbl s) P" by (simp only: set_map assms(2) key_image)
  ultimately show ?thesis by simp
qed

lemma find_length: "repo_find R P s = (Inr rs, s') \<Longrightarrow> length rs = card (matching (tbl s) P)"
  by (blast intro: length_rows dest: find_rows)

lemma page_items:
  assumes "repo_findAndCount R P ord sk tk s = (Inr (rs, n), s')"
  shows "r \<in> set rs \<Longrightarrow> tbl s (key r) = Some r \<and> P r"
    and "length rs = min tk (n - sk)" and "n = card (matching (tbl s) P)"
proof -
  obtain al where d: "distinct (map key al)" and al: "set al = {r. tbl s (key r) = Some r \<and> P r}"
    and rs: "rs = take tk (drop sk al)" and n: "n = length al"
    using page_rows [OF assms] by blast
  show "tbl s (key r) = Some r \<and> P r" if "r \<in> set rs"
  proof -
    from that have "r \<in> set al" unfolding rs by (blast dest: in_set_takeD in_set_dropD)
    with al show ?thesis by simp
  qed
  show "length rs = min tk (n - sk)" by (simp add: rs n)
  show "n = card (matching (tbl s) P)" unfolding n using d al by (rule length_rows)
qed

lemmas errors = findOne_error find_error count_error page_error insert_error save_error

lemmas frames = findOne_frame find_frame count_frame page_frame insert_frame save_frame

end

section \<open>Redis\<close>

text \<open>
  Values under a key, with the second at which the key expires (\<open>None\<close>: never). Counters
  written by INCR are kept as numbers, which is what \<open>Number(\<dots>)\<close> reads from them.
\<close>

datatype redis_value =
    RStr string
  | RInt nat
  | RSet "string list"
  | RStream "string list list"

type_synonym redis_view = "string \<rightharpoonup> redis_value \<times> nat option"

definition live :: "nat \<Rightarrow> redis_view \<Rightarrow> string \<Rightarrow> redis_value option" where
  "live now v k = (case v k of None \<Rightarrow> None
     | Some (x, None) \<Rightarrow> Some x
     | Some (x, Some d) \<Rightarrow> if now < d then Some x else None)"

definition ttl_of :: "nat \<Rightarrow> redis_view \<Rightarrow> string \<Rightarrow> nat option" where
  "ttl_of now v k = (if live now v k = None then None else Option.bind (v k) snd)"

datatype redis_command =
    SET_EX string string nat
  | SADD string string
  | EXPIRE string nat
  | DEL "string list"
  | INCR string
  | XADD string "string list"

fun apply_command :: "nat \<Rightarrow> redis_command \<Rightarrow> redis_view \<Rightarrow> redis_view" where
  "apply_command now (SET_EX k x ttl) v = v(k \<mapsto> (RStr x, Some (now + ttl)))"
| "apply_command now (SADD k m) v =
     (case live now v k of
        None \<Rightarrow> v(k \<mapsto> (RSet [m], None))
      | Some (RSet ms) \<Rightarrow> v(k \<mapsto> (RSet (List.insert m ms), ttl_of now v k))
      | Some _ \<Rightarrow> v)"
| "apply_command now (EXPIRE k ttl) v =
     (case live now v k of None \<Rightarrow> v | Some x \<Rightarrow> v(k \<mapsto> (x, Some (now + ttl))))"
| "apply_command now (DEL ks) v = (\<lambda>k. if k \<in> set ks then None else v k)"
| "apply_command now (INCR k) v =
     (case live now v k of
        None \<Rightarrow> v(k \<mapsto> (RInt 1, None))
      | Some (RInt n) \<Rightarrow> v(k \<mapsto> (RInt (Suc n), ttl_of now v k))
      | Some _ \<Rightarrow> v)"
| "apply_command now (XADD k fs) v =
     (case live now v k of
        None \<Rightarrow> v(k \<mapsto> (RStream [fs], None))
      | Some (RStream es) \<Rightarrow> v(k \<mapsto> (RStream (es @ [fs]), ttl_of now v k))
      | Some _ \<Rightarrow> v)"

text \<open>
  The client: every call is made at a second \<open>now\<close>. \<open>r_exec\<close> is
  \<open>multi().\<dots>.exec()\<close>: \<open>None\<close> is the \<open>null\<close> of a dropped connection, otherwise the
  error of each command (\<open>None\<close> for none).
\<close>

record 'k redis =
  r_get :: "nat \<Rightarrow> string \<Rightarrow> ('k, redis_value option) proc"
  r_smembers :: "nat \<Rightarrow> string \<Rightarrow> ('k, string list) proc"
  r_incr :: "nat \<Rightarrow> string \<Rightarrow> ('k, nat) proc"
  r_expire :: "nat \<Rightarrow> string \<Rightarrow> nat \<Rightarrow> ('k, bool) proc"
  r_del :: "nat \<Rightarrow> string list \<Rightarrow> ('k, nat) proc"
  r_xadd :: "nat \<Rightarrow> string \<Rightarrow> string list \<Rightarrow> ('k, string) proc"
  r_exec :: "nat \<Rightarrow> redis_command list \<Rightarrow> ('k, exn option list option) proc"

definition may_apply :: "nat \<Rightarrow> redis_command \<Rightarrow> redis_view \<Rightarrow> redis_view \<Rightarrow> bool" where
  "may_apply now c v v' \<longleftrightarrow> v' = v \<or> v' = apply_command now c v"

text \<open>The keys of a command.\<close>

fun command_keys :: "redis_command \<Rightarrow> string set" where
  "command_keys (SET_EX k x ttl) = {k}"
| "command_keys (SADD k m) = {k}"
| "command_keys (EXPIRE k ttl) = {k}"
| "command_keys (DEL ks) = set ks"
| "command_keys (INCR k) = {k}"
| "command_keys (XADD k fs) = {k}"

locale redis_server =
  fixes RD :: "'k redis"
    and view :: "'k \<Rightarrow> redis_view"
  assumes get_ok: "r_get RD now k s = (Inr x, s') \<Longrightarrow> x = live now (view s) k"
    and get_frame: "r_get RD now k s = (x', s') \<Longrightarrow> view s' = view s"
    and smembers_ok: "r_smembers RD now k s = (Inr ms, s') \<Longrightarrow>
          set ms = (case live now (view s) k of Some (RSet xs) \<Rightarrow> set xs | _ \<Rightarrow> {})"
    and smembers_frame: "r_smembers RD now k s = (y, s') \<Longrightarrow> view s' = view s"
    and incr_ok: "r_incr RD now k s = (Inr n, s') \<Longrightarrow>
          view s' = apply_command now (INCR k) (view s) \<and> live now (view s') k = Some (RInt n)"
    and incr_fail: "r_incr RD now k s = (Inl e, s') \<Longrightarrow> may_apply now (INCR k) (view s) (view s')"
    and expire_ok: "r_expire RD now k ttl s = (Inr b, s') \<Longrightarrow>
          view s' = apply_command now (EXPIRE k ttl) (view s)"
    and expire_fail: "r_expire RD now k ttl s = (Inl e, s') \<Longrightarrow>
          may_apply now (EXPIRE k ttl) (view s) (view s')"
    and del_ok: "r_del RD now ks s = (Inr c, s') \<Longrightarrow> view s' = apply_command now (DEL ks) (view s)"
    and del_fail: "r_del RD now ks s = (Inl e, s') \<Longrightarrow> may_apply now (DEL ks) (view s) (view s')"
    and xadd_ok: "r_xadd RD now k fs s = (Inr i, s') \<Longrightarrow>
          view s' = apply_command now (XADD k fs) (view s)"
    and xadd_fail: "r_xadd RD now k fs s = (Inl e, s') \<Longrightarrow>
          may_apply now (XADD k fs) (view s) (view s')"
    and exec_ok: "r_exec RD now cs s = (Inr (Some errs), s') \<Longrightarrow> (\<forall>e \<in> set errs. e = None) \<Longrightarrow>
          view s' = fold (apply_command now) cs (view s)"
    and exec_other: "r_exec RD now cs s = (w, s') \<Longrightarrow> \<forall>c \<in> set cs. k \<notin> command_keys c \<Longrightarrow> view s' k = view s k"

text \<open>A server on which counting does not fail: the key holds a counter or nothing.\<close>

locale counting_redis = redis_server +
  assumes incr_counts: "live now (view s) k = None \<or> (\<exists>n. live now (view s) k = Some (RInt n)) \<Longrightarrow>
        \<exists>n s'. r_incr RD now k s = (Inr n, s')"
    and expire_counts: "\<exists>b s'. r_expire RD now k ttl s = (Inr b, s')"

lemma live_upd: "live now (v(k \<mapsto> (x, d))) j =
    (if j = k then (case d of None \<Rightarrow> Some x | Some t \<Rightarrow> if now < t then Some x else None)
     else live now v j)"
  by (auto simp: live_def split: option.splits)

lemma live_cong: "v k = v' k \<Longrightarrow> live now v k = live now v' k"
  by (simp add: live_def)

lemma ttl_of_le: "ttl_of now v k = Some d \<Longrightarrow> now < d"
  by (auto simp: ttl_of_def live_def split: option.splits if_splits)

lemma live_del [simp]: "live now (apply_command now' (DEL ks) v) k = (if k \<in> set ks then None else live now v k)"
  by (simp add: live_def)

text \<open>Only the keys of a command change.\<close>

lemma apply_command_other: "k \<notin> command_keys c \<Longrightarrow> apply_command now c v k = v k"
  by (cases c) (auto split: option.splits redis_value.splits)

lemma fold_apply_other: "\<forall>c \<in> set cs. k \<notin> command_keys c \<Longrightarrow> fold (apply_command now) cs v k = v k"
  by (induction cs arbitrary: v) (simp_all add: apply_command_other)

lemma may_apply_other: "may_apply now c v v' \<Longrightarrow> k \<notin> command_keys c \<Longrightarrow> v' k = v k"
  by (auto simp: may_apply_def apply_command_other)

section \<open>Redis in memory\<close>

text \<open>
  The documented behaviour of the client, taken literally: the state is the view and no call
  fails. It is the reference provider of the locale.
\<close>

definition mem_redis :: "redis_view redis" where
  "mem_redis = \<lparr>
     r_get = (\<lambda>now k v. (Inr (live now v k), v)),
     r_smembers = (\<lambda>now k v. (Inr (case live now v k of Some (RSet xs) \<Rightarrow> xs | _ \<Rightarrow> []), v)),
     r_incr = (\<lambda>now k v. case live now v k of
        Some (RInt n) \<Rightarrow> (Inr (Suc n), apply_command now (INCR k) v)
      | None \<Rightarrow> (Inr 1, apply_command now (INCR k) v)
      | Some _ \<Rightarrow> (Inl LibraryError, v)),
     r_expire = (\<lambda>now k ttl v. (Inr (live now v k \<noteq> None), apply_command now (EXPIRE k ttl) v)),
     r_del = (\<lambda>now ks v. (Inr (length (filter (\<lambda>k. live now v k \<noteq> None) (remdups ks))),
                          apply_command now (DEL ks) v)),
     r_xadd = (\<lambda>now k fs v. (Inr ''0-1'', apply_command now (XADD k fs) v)),
     r_exec = (\<lambda>now cs v. (Inr (Some (map (\<lambda>_. None) cs)), fold (apply_command now) cs v)) \<rparr>"

interpretation mem_rd: redis_server mem_redis "\<lambda>v. v"
proof (unfold_locales, goal_cases)
  case (2 now k s x' s') then show ?case by (auto simp: mem_redis_def)
next
  case (5 now k s n s')
  then show ?case
    by (auto simp: mem_redis_def live_upd ttl_of_def live_def
             split: option.splits redis_value.splits if_splits)
next
  case (6 now k s e s')
  then show ?case by (auto simp: mem_redis_def may_apply_def split: option.splits redis_value.splits)
next
  case (14 now cs s w s' k) then show ?case by (auto simp: mem_redis_def fold_apply_other)
qed (auto simp: mem_redis_def split: option.splits redis_value.splits)

interpretation mem_rd: counting_redis mem_redis "\<lambda>v. v"
  by unfold_locales (auto simp: mem_redis_def)

text \<open>How its calls evaluate.\<close>

lemma mem_redis_run:
  "r_get mem_redis now k v = (Inr (live now v k), v)"
  "r_smembers mem_redis now k v = (Inr (case live now v k of Some (RSet xs) \<Rightarrow> xs | _ \<Rightarrow> []), v)"
  "r_expire mem_redis now k ttl v = (Inr (live now v k \<noteq> None), apply_command now (EXPIRE k ttl) v)"
  "r_del mem_redis now ks v = (Inr (length (filter (\<lambda>k. live now v k \<noteq> None) (remdups ks))),
     apply_command now (DEL ks) v)"
  "r_xadd mem_redis now k fs v = (Inr ''0-1'', apply_command now (XADD k fs) v)"
  "r_exec mem_redis now cs v = (Inr (Some (map (\<lambda>_. None) cs)), fold (apply_command now) cs v)"
  by (simp_all add: mem_redis_def)

end
