(* ===== verification/Schema.thy ===== *)
theory Schema
  imports Stores "HOL-Library.AList"
begin

text \<open>
  The PostgreSQL schema of \<open>database/migrations\<close>: three tables with their primary keys, the
  unique e-mail address, the check that a FREELANCE has a location, and the foreign keys to
  \<open>users\<close>. The tables are kept in memory; the repositories over them are the reference
  providers of the \<open>repository\<close> interface, so that a run of a service can be evaluated.
\<close>

section \<open>A table with constraints\<close>

text \<open>
  A table is the list of its rows; the row constraint sees the row that is written and the other
  rows. A generated id is longer than every id in the table, a creation time is a counter.
\<close>

definition mem_tbl :: "('r \<Rightarrow> string) \<Rightarrow> 'r list \<Rightarrow> string \<rightharpoonup> 'r" where
  "mem_tbl key rs = map_of (map (\<lambda>r. (key r, r)) rs)"

definition mem_rows :: "('r \<Rightarrow> string) \<Rightarrow> 'r list \<Rightarrow> 'r list" where
  "mem_rows key rs = map snd (AList.clearjunk (map (\<lambda>r. (key r, r)) rs))"

definition fresh_key :: "string list \<Rightarrow> string" where
  "fresh_key ks = replicate (Suc (foldr max (map length ks) 0)) CHR ''0''"

definition mem_put :: "('r \<Rightarrow> string) \<Rightarrow> 'r \<Rightarrow> 'r list \<Rightarrow> 'r list" where
  "mem_put key r rs = (if key r \<in> key ` set rs
     then map (\<lambda>x. if key x = key r then r else x) rs else rs @ [r])"

definition mem_write :: "('r \<Rightarrow> string) \<Rightarrow> ('r \<Rightarrow> 'r list \<Rightarrow> bool) \<Rightarrow> 'r \<Rightarrow> ('r list, 'r) proc" where
  "mem_write key ok r = (\<lambda>rs. if ok r (filter (\<lambda>x. key x \<noteq> key r) (mem_rows key rs))
     then (Inr r, mem_put key r rs) else (Inl LibraryError, rs))"

definition mem_repo :: "('r \<Rightarrow> string) \<Rightarrow> ('r \<Rightarrow> 'r list \<Rightarrow> bool) \<Rightarrow> ('r list, 'r) repo" where
  "mem_repo key ok = \<lparr>
     repo_findOne = (\<lambda>P rs. (Inr (find P (mem_rows key rs)), rs)),
     repo_find = (\<lambda>P rs. (Inr (filter P (mem_rows key rs)), rs)),
     repo_count = (\<lambda>P rs. (Inr (length (filter P (mem_rows key rs))), rs)),
     repo_findAndCount = (\<lambda>P ord sk tk rs.
        let al = rev (sort_key ord (filter P (mem_rows key rs)))
        in (Inr (take tk (drop sk al), length al), rs)),
     repo_insert = (\<lambda>d rs. let r = d (fresh_key (map key rs)) (length rs)
        in if key r \<in> key ` set rs then (Inl LibraryError, rs) else mem_write key ok r rs),
     repo_save = mem_write key ok \<rparr>"

lemma fresh_key_fresh: "fresh_key ks \<notin> set ks"
proof
  assume "fresh_key ks \<in> set ks"
  moreover have "k \<in> set ks \<Longrightarrow> length k \<le> foldr max (map length ks) 0" for k
    by (induction ks) (auto simp: max_def)
  ultimately have "length (fresh_key ks) \<le> foldr max (map length ks) 0" by blast
  then show False by (simp add: fresh_key_def)
qed

lemma dom_mem_tbl: "dom (mem_tbl key rs) = key ` set rs"
  by (force simp: mem_tbl_def dom_map_of_conv_image_fst)

lemma mem_tbl_key: "mem_tbl key rs i = Some r \<Longrightarrow> key r = i"
  by (auto simp: mem_tbl_def dest!: map_of_SomeD)

lemma clearjunk_mem:
  "(k, r) \<in> set (AList.clearjunk (map (\<lambda>r. (key r, r)) rs)) \<longleftrightarrow> mem_tbl key rs k = Some r"
  by (metis distinct_clearjunk map_of_clearjunk map_of_eq_Some_iff mem_tbl_def)

lemma snd_image_iff: "r \<in> snd ` S \<longleftrightarrow> (\<exists>k. (k, r) \<in> S)"
  by force

lemma distinct_mem_rows: "distinct (map key (mem_rows key rs))"
proof -
  let ?kv = "AList.clearjunk (map (\<lambda>r. (key r, r)) rs)"
  have "key (snd p) = fst p" if "p \<in> set ?kv" for p
    using that clearjunk_mem [of "fst p" "snd p" key rs] mem_tbl_key [of key rs "fst p" "snd p"] by auto
  then have "map key (mem_rows key rs) = map fst ?kv"
    by (simp add: mem_rows_def)
  then show ?thesis by (simp add: distinct_clearjunk)
qed

lemma mem_rows_iff: "r \<in> set (mem_rows key rs) \<longleftrightarrow> mem_tbl key rs (key r) = Some r"
proof -
  have "r \<in> set (mem_rows key rs) \<longleftrightarrow> (\<exists>k. mem_tbl key rs k = Some r)"
    unfolding mem_rows_def set_map snd_image_iff clearjunk_mem ..
  also have "\<dots> \<longleftrightarrow> mem_tbl key rs (key r) = Some r"
  proof
    assume "\<exists>k. mem_tbl key rs k = Some r"
    then obtain k where k: "mem_tbl key rs k = Some r" ..
    with mem_tbl_key [OF k] show "mem_tbl key rs (key r) = Some r" by simp
  qed (rule exI)
  finally show ?thesis .
qed

lemma set_mem_rows: "set (mem_rows key rs) = {r. mem_tbl key rs (key r) = Some r}"
  by (auto simp: mem_rows_iff)

lemma map_of_replace:
  "map_of (map (\<lambda>x. (key x, x)) (map (\<lambda>x. if key x = key r then r else x) rs)) k =
   (if k = key r \<and> k \<in> key ` set rs then Some r else map_of (map (\<lambda>x. (key x, x)) rs) k)"
  by (induction rs) auto

lemma mem_tbl_put: "mem_tbl key (mem_put key r rs) = (mem_tbl key rs)(key r \<mapsto> r)"
proof
  fix k
  have none: "key r \<notin> key ` set rs \<Longrightarrow> map_of (map (\<lambda>x. (key x, x)) rs) (key r) = None"
    by (auto simp: map_of_eq_None_iff)
  show "mem_tbl key (mem_put key r rs) k = ((mem_tbl key rs)(key r \<mapsto> r)) k"
    using map_of_replace [of key r rs k] none
    by (auto simp: mem_tbl_def mem_put_def map_add_def split: option.splits)
qed

lemma mem_write_Inr: "mem_write key ok r rs = (Inr r', rs') \<Longrightarrow> r' = r \<and> rs' = mem_put key r rs \<and>
    ok r (filter (\<lambda>x. key x \<noteq> key r) (mem_rows key rs))"
  by (auto simp: mem_write_def split: if_splits)

lemma mem_write_Inl: "mem_write key ok r rs = (Inl e, rs') \<Longrightarrow> rs' = rs \<and> e = LibraryError"
  by (auto simp: mem_write_def split: if_splits)

text \<open>Whatever the constraint, such a table is a lawful repository.\<close>

lemma mem_repository: "repository (mem_repo key ok) (mem_tbl key) key"
proof (unfold_locales, goal_cases)
  case (1 s) show ?case by (simp add: dom_mem_tbl)
next
  case (2 s i r) then show ?case by (rule mem_tbl_key)
next
  case (3 P s r s')
  then have "find P (mem_rows key s) = Some r" by (auto simp: mem_repo_def)
  then show ?case using find_SomeD mem_rows_iff by metis
next
  case (4 P s s' i r)
  then have "find P (mem_rows key s) = None" by (auto simp: mem_repo_def)
  moreover have "r \<in> set (mem_rows key s)" using 4(2) mem_tbl_key mem_rows_iff by metis
  ultimately show ?case by (rule find_NoneD)
next
  case (7 P s rs s')
  then show ?case by (auto simp: mem_repo_def distinct_mem_rows distinct_map_filter set_mem_rows)
next
  case (10 P s n s')
  have "key ` set (filter P (mem_rows key s)) = matching (mem_tbl key s) P"
    using mem_tbl_key by (force simp: set_mem_rows matching_def)
  moreover have "distinct (map key (filter P (mem_rows key s)))"
    by (simp add: distinct_mem_rows distinct_map_filter)
  ultimately have "length (filter P (mem_rows key s)) = card (matching (mem_tbl key s) P)"
    by (metis distinct_card length_map set_map)
  then show ?case using 10 by (auto simp: mem_repo_def)
next
  case (13 P ord sk tk s rs n s')
  let ?al = "rev (sort_key ord (filter P (mem_rows key s)))"
  have "inj_on key (set (filter P (mem_rows key s)))" "distinct (filter P (mem_rows key s))"
    using distinct_mem_rows [of key s] by (auto simp: distinct_map intro: inj_on_subset)
  then have "distinct (map key ?al)" by (simp add: distinct_map)
  moreover have "set ?al = {r. mem_tbl key s (key r) = Some r \<and> P r}" by (auto simp: set_mem_rows)
  moreover have "sorted (map ord (rev ?al))" by simp
  ultimately show ?case using 13 by (auto simp: mem_repo_def Let_def)
next
  case (16 d s r s')
  let ?d = "d (fresh_key (map key s)) (length s)"
  have "mem_write key ok ?d s = (Inr r, s')" and n: "key ?d \<notin> key ` set s"
    using 16 by (auto simp: mem_repo_def Let_def split: if_splits)
  then have "r = ?d" "s' = mem_put key r s" by (auto dest: mem_write_Inr)
  moreover have "mem_tbl key s (fresh_key (map key s)) = None"
    using fresh_key_fresh [of "map key s"] by (metis domIff dom_mem_tbl set_map)
  ultimately show ?case by (auto simp: mem_tbl_put)
next
  case (19 r s r' s') then show ?case by (auto simp: mem_repo_def mem_tbl_put dest: mem_write_Inr)
next
  case (20 r s e s') then show ?case by (auto simp: mem_repo_def dest: mem_write_Inl)
qed (auto simp: mem_repo_def Let_def dest: mem_write_Inl split: if_splits)

section \<open>The three tables\<close>

text \<open>\<open>UQ_users_email\<close> and \<open>CHK_users_freelance_location\<close>.\<close>

definition UQ_users_email :: "user \<Rightarrow> user list \<Rightarrow> bool" where
  "UQ_users_email r others \<longleftrightarrow> (\<forall>x \<in> set others. u_email x \<noteq> u_email r)"

definition CHK_users_freelance_location :: "user \<Rightarrow> bool" where
  "CHK_users_freelance_location r \<longleftrightarrow> u_role r \<noteq> FREELANCE \<or> u_location r \<noteq> None"

definition users_table :: "(user list, user) repo" where
  "users_table = mem_repo u_id (\<lambda>r others. UQ_users_email r others \<and> CHK_users_freelance_location r)"

text \<open>\<open>FK_gear_freelance\<close> and \<open>FK_certifications_freelance\<close>; the ids in \<open>users\<close> are given.\<close>

definition FK_gear_freelance :: "string set \<Rightarrow> gear \<Rightarrow> bool" where
  "FK_gear_freelance ids r \<longleftrightarrow> g_freelanceId r \<in> ids"

definition gear_table :: "string set \<Rightarrow> (gear list, gear) repo" where
  "gear_table ids = mem_repo g_id (\<lambda>r others. FK_gear_freelance ids r)"

definition FK_certifications_freelance :: "string set \<Rightarrow> certification \<Rightarrow> bool" where
  "FK_certifications_freelance ids r \<longleftrightarrow> c_freelanceId r \<in> ids"

definition certifications_table :: "string set \<Rightarrow> (certification list, certification) repo" where
  "certifications_table ids = mem_repo c_id (\<lambda>r others. FK_certifications_freelance ids r)"

interpretation users_tbl: repository users_table "mem_tbl u_id" u_id
  unfolding users_table_def by (rule mem_repository)

interpretation gear_tbl: repository "gear_table ids" "mem_tbl g_id" g_id for ids
  unfolding gear_table_def by (rule mem_repository)

interpretation certifications_tbl: repository "certifications_table ids" "mem_tbl c_id" c_id for ids
  unfolding certifications_table_def by (rule mem_repository)

text \<open>How the calls of these repositories evaluate.\<close>

lemma mem_repo_run:
  "repo_findOne (mem_repo key ok) P rs = (Inr (find P (mem_rows key rs)), rs)"
  "repo_find (mem_repo key ok) P rs = (Inr (filter P (mem_rows key rs)), rs)"
  "repo_count (mem_repo key ok) P rs = (Inr (length (filter P (mem_rows key rs))), rs)"
  "repo_findAndCount (mem_repo key ok) P ord sk tk rs =
     (let al = rev (sort_key ord (filter P (mem_rows key rs))) in (Inr (take tk (drop sk al), length al), rs))"
  "repo_insert (mem_repo key ok) d rs = (let r = d (fresh_key (map key rs)) (length rs)
     in if key r \<in> key ` set rs then (Inl LibraryError, rs) else mem_write key ok r rs)"
  "repo_save (mem_repo key ok) r rs = mem_write key ok r rs"
  by (simp_all add: mem_repo_def)

lemmas table_run =
  mem_repo_run [of u_id "\<lambda>r others. UQ_users_email r others \<and> CHK_users_freelance_location r", folded users_table_def]
  mem_repo_run [of g_id "\<lambda>r others. FK_gear_freelance ids r" for ids, folded gear_table_def]
  mem_repo_run [of c_id "\<lambda>r others. FK_certifications_freelance ids r" for ids, folded certifications_table_def]
lemmas table_rows = mem_rows_def mem_write_def mem_put_def fresh_key_def UQ_users_email_def
  CHK_users_freelance_location_def FK_gear_freelance_def FK_certifications_freelance_def

lemmas mem_eval = mem_repo_def mem_rows_def mem_tbl_def mem_write_def mem_put_def fresh_key_def

end
