(* ===== verification/AppWorld.thy ===== *)
theory AppWorld
  imports Guards Schema
begin

text \<open>
  The state behind the resource services (gear, certifications, gamification): the three
  PostgreSQL tables, Redis and the object storage, each of a type that is left open; and
  \<open>common/events/event-publisher.service.ts\<close>, the publisher of domain events on a Redis stream.
\<close>

section \<open>State\<close>

record ('u, 'g, 'c, 'k, 'o) app_world =
  aw_users :: 'u
  aw_gear :: 'g
  aw_certs :: 'c
  aw_redis :: 'k
  aw_objects :: 'o

type_synonym ('u, 'g, 'c, 'k, 'o, 'a) app = "(('u, 'g, 'c, 'k, 'o) app_world, 'a) proc"

definition atUsers :: "('u, 'a) proc \<Rightarrow> ('u, 'g, 'c, 'k, 'o, 'a) app" where
  "atUsers = liftP aw_users (\<lambda>x w. w\<lparr>aw_users := x\<rparr>)"

definition atGear :: "('g, 'a) proc \<Rightarrow> ('u, 'g, 'c, 'k, 'o, 'a) app" where
  "atGear = liftP aw_gear (\<lambda>x w. w\<lparr>aw_gear := x\<rparr>)"

definition atCerts :: "('c, 'a) proc \<Rightarrow> ('u, 'g, 'c, 'k, 'o, 'a) app" where
  "atCerts = liftP aw_certs (\<lambda>x w. w\<lparr>aw_certs := x\<rparr>)"

definition atRedis :: "('k, 'a) proc \<Rightarrow> ('u, 'g, 'c, 'k, 'o, 'a) app" where
  "atRedis = liftP aw_redis (\<lambda>x w. w\<lparr>aw_redis := x\<rparr>)"

definition atObjects :: "('o, 'a) proc \<Rightarrow> ('u, 'g, 'c, 'k, 'o, 'a) app" where
  "atObjects = liftP aw_objects (\<lambda>x w. w\<lparr>aw_objects := x\<rparr>)"

lemmas app_eval = atUsers_def atGear_def atCerts_def atRedis_def atObjects_def

lemma at_iff [proc_iff]:
  "atUsers mu w = (ru, w') \<longleftrightarrow> (\<exists>x. mu (aw_users w) = (ru, x) \<and> w' = w\<lparr>aw_users := x\<rparr>)"
  "atGear mg w = (rg, w') \<longleftrightarrow> (\<exists>x. mg (aw_gear w) = (rg, x) \<and> w' = w\<lparr>aw_gear := x\<rparr>)"
  "atCerts mc w = (rc, w') \<longleftrightarrow> (\<exists>x. mc (aw_certs w) = (rc, x) \<and> w' = w\<lparr>aw_certs := x\<rparr>)"
  "atRedis mk w = (rk, w') \<longleftrightarrow> (\<exists>x. mk (aw_redis w) = (rk, x) \<and> w' = w\<lparr>aw_redis := x\<rparr>)"
  "atObjects mo w = (ro, w') \<longleftrightarrow> (\<exists>x. mo (aw_objects w) = (ro, x) \<and> w' = w\<lparr>aw_objects := x\<rparr>)"
  by (simp_all add: app_eval liftP_iff)

lemma keeps_at:
  "(\<And>w x. I w \<Longrightarrow> I (w\<lparr>aw_users := x\<rparr>)) \<Longrightarrow> keeps I (atUsers mu)"
  "(\<And>w x. I w \<Longrightarrow> I (w\<lparr>aw_gear := x\<rparr>)) \<Longrightarrow> keeps I (atGear mg)"
  "(\<And>w x. I w \<Longrightarrow> I (w\<lparr>aw_certs := x\<rparr>)) \<Longrightarrow> keeps I (atCerts mc)"
  "(\<And>w x. I w \<Longrightarrow> I (w\<lparr>aw_redis := x\<rparr>)) \<Longrightarrow> keeps I (atRedis mk)"
  "(\<And>w x. I w \<Longrightarrow> I (w\<lparr>aw_objects := x\<rparr>)) \<Longrightarrow> keeps I (atObjects mo)"
  by (auto simp: keeps_def at_iff)

section \<open>Domain events\<close>

datatype DomainEventType = GEAR_VALIDATED | GEAR_REJECTED | FREELANCE_UPDATED

fun event_name :: "DomainEventType \<Rightarrow> string" where
  "event_name GEAR_VALIDATED = ''gear.validated''"
| "event_name GEAR_REJECTED = ''gear.rejected''"
| "event_name FREELANCE_UPDATED = ''freelance.updated''"

definition STREAM_KEY :: string where
  "STREAM_KEY = ''skillhunt:events''"

definition event_fields :: "DomainEventType \<Rightarrow> (string \<times> string) list \<Rightarrow> string list" where
  "event_fields type payload = ''type'' # event_name type # concat (map (\<lambda>(key, val). [key, val]) payload)"

definition publish :: "'k redis \<Rightarrow> nat \<Rightarrow> DomainEventType \<Rightarrow> (string \<times> string) list \<Rightarrow> ('k, unit) proc" where
  "publish RD now type payload =
     catchP (bindP (r_xadd RD now STREAM_KEY (event_fields type payload)) (\<lambda>_. returnP ()))
            (\<lambda>_. returnP ())"

lemma publish_returns: "publish RD now type payload s = (r, s') \<Longrightarrow> r = Inr ()"
  by (cases r) (simp_all add: publish_def catchP_Inl_iff)

lemma publish_view:
  assumes "redis_server RD view" "publish RD now type payload s = (r, s')"
  shows "may_apply now (XADD STREAM_KEY (event_fields type payload)) (view s) (view s')"
proof -
  obtain q t where q: "r_xadd RD now STREAM_KEY (event_fields type payload) s = (q, t)" by fastforce
  then have "s' = t" using assms(2) by (cases q) (auto simp: publish_def catchP_def bindP_def returnP_def)
  then show ?thesis
    using q redis_server.xadd_ok [OF assms(1)] redis_server.xadd_fail [OF assms(1)]
    by (cases q) (auto simp: may_apply_def simp del: apply_command.simps)
qed

end
