(* ===== verification/Gear.thy ===== *)
theory Gear
  imports AppWorld
begin

text \<open>
  \<open>gear/gear.service.ts\<close>, its DTOs and \<open>gear/gear.controller.ts\<close>: the gear locker of the
  freelances, the admin review, the public view for recruiters and the loadout, a showcase of at
  most four validated items.
\<close>

section \<open>DTOs\<close>

record AddGearDto =
  ag_category :: GearCategory
  ag_brand :: string
  ag_model :: string
  ag_serialNumber :: string

text \<open>\<open>None\<close>: absent, or not a member of the enum or a string.\<close>

definition validate_AddGearDto ::
    "GearCategory option \<Rightarrow> string option \<Rightarrow> string option \<Rightarrow> string option \<Rightarrow> exn + AddGearDto" where
  "validate_AddGearDto category brand model serial = (case (category, brand, model, serial) of
     (Some c, Some b, Some m, Some s) \<Rightarrow>
       if b \<noteq> [] \<and> m \<noteq> [] \<and> 5 \<le> length s
       then Inr \<lparr>ag_category = c, ag_brand = b, ag_model = m, ag_serialNumber = s\<rparr>
       else Inl (BadRequest ValidationFailed)
   | _ \<Rightarrow> Inl (BadRequest ValidationFailed))"

text \<open>
  A query parameter: absent, one that does not convert (another enum value, \<open>NaN\<close>, a fraction),
  or a value.
\<close>

datatype 'a param = Absent | Malformed | Given 'a

record QueryGearDto =
  q_category :: "GearCategory option"
  q_status :: "GearStatus option"
  q_page :: nat
  q_limit :: nat

definition validate_page :: "int param \<Rightarrow> exn + nat" where
  "validate_page p = (case p of Absent \<Rightarrow> Inr 1 | Malformed \<Rightarrow> Inl (BadRequest ValidationFailed)
     | Given n \<Rightarrow> if 1 \<le> n then Inr (nat n) else Inl (BadRequest ValidationFailed))"

definition validate_limit :: "int param \<Rightarrow> exn + nat" where
  "validate_limit p = (case p of Absent \<Rightarrow> Inr 20 | Malformed \<Rightarrow> Inl (BadRequest ValidationFailed)
     | Given n \<Rightarrow> if 1 \<le> n \<and> n \<le> 100 then Inr (nat n) else Inl (BadRequest ValidationFailed))"

fun optional_param :: "'a param \<Rightarrow> exn + 'a option" where
  "optional_param Absent = Inr None"
| "optional_param Malformed = Inl (BadRequest ValidationFailed)"
| "optional_param (Given x) = Inr (Some x)"

definition validate_QueryGearDto ::
    "GearCategory param \<Rightarrow> GearStatus param \<Rightarrow> int param \<Rightarrow> int param \<Rightarrow> exn + QueryGearDto" where
  "validate_QueryGearDto category status page limit =
     (case (optional_param category, optional_param status, validate_page page, validate_limit limit) of
        (Inr c, Inr s, Inr p, Inr l) \<Rightarrow> Inr \<lparr>q_category = c, q_status = s, q_page = p, q_limit = l\<rparr>
      | _ \<Rightarrow> Inl (BadRequest ValidationFailed))"

text \<open>
  \<open>PublicQueryGearDto\<close> picks category, page and limit; with \<open>forbidNonWhitelisted\<close> a request
  that brings a status is refused.
\<close>

definition validate_PublicQueryGearDto ::
    "GearCategory param \<Rightarrow> GearStatus param \<Rightarrow> int param \<Rightarrow> int param \<Rightarrow> exn + QueryGearDto" where
  "validate_PublicQueryGearDto category status page limit =
     (if status \<noteq> Absent then Inl (BadRequest ValidationFailed)
      else validate_QueryGearDto category Absent page limit)"

definition REVIEW_DECISIONS :: "GearStatus list" where
  "REVIEW_DECISIONS = [GearStatus.VALIDATED, GearStatus.REJECTED]"

definition validate_ReviewGearDto :: "GearStatus option \<Rightarrow> exn + GearStatus" where
  "validate_ReviewGearDto decision = (case decision of
     Some d \<Rightarrow> if d \<in> set REVIEW_DECISIONS then Inr d else Inl (BadRequest ValidationFailed)
   | None \<Rightarrow> Inl (BadRequest ValidationFailed))"

definition validate_SetLoadoutDto :: "bool option \<Rightarrow> exn + bool" where
  "validate_SetLoadoutDto inLoadout = (case inLoadout of
     Some b \<Rightarrow> Inr b | None \<Rightarrow> Inl (BadRequest ValidationFailed))"

text \<open>\<open>ParseUUIDPipe\<close>, on the library's test for UUIDs.\<close>

definition parse_uuid :: "(string \<Rightarrow> bool) \<Rightarrow> string \<Rightarrow> exn + string" where
  "parse_uuid is_uuid s = (if is_uuid s then Inr s else Inl (BadRequest ValidationFailed))"

section \<open>The service\<close>

definition LOADOUT_MAX_SLOTS :: nat where "LOADOUT_MAX_SLOTS = 4"

record 'i paginated =
  items :: "'i list"
  total :: nat
  page :: nat
  limit :: nat

record PublicGearView =
  pg_id :: string
  pg_brand :: string
  pg_model :: string
  pg_category :: GearCategory
  pg_status :: GearStatus
  pg_createdAt :: nat
  pg_isInLoadout :: bool

definition toPublicGearView :: "gear \<Rightarrow> PublicGearView" where
  "toPublicGearView g = \<lparr>pg_id = g_id g, pg_brand = g_brand g, pg_model = g_model g,
     pg_category = g_category g, pg_status = g_status g, pg_createdAt = g_createdAt g,
     pg_isInLoadout = g_isInLoadout g\<rparr>"

definition new_gear :: "string \<Rightarrow> AddGearDto \<Rightarrow> string \<Rightarrow> nat \<Rightarrow> gear" where
  "new_gear freelanceId dto i createdAt = \<lparr>g_id = i, g_brand = ag_brand dto, g_model = ag_model dto,
     g_serialNumber = ag_serialNumber dto, g_category = ag_category dto, g_status = GearStatus.PENDING,
     g_isInLoadout = False, g_createdAt = createdAt, g_freelanceId = freelanceId\<rparr>"

definition addGearToLocker :: "('u, user) repo \<Rightarrow> ('g, gear) repo \<Rightarrow> string \<Rightarrow> AddGearDto \<Rightarrow>
    ('u, 'g, 'c, 'k, 'o, gear) app" where
  "addGearToLocker U G freelanceId dto =
     bindP (atUsers (repo_findOne U (\<lambda>u. u_id u = freelanceId))) (\<lambda>found. case found of
       None \<Rightarrow> throwP (NotFound FreelanceProfileNotFoundOrNotAllowed)
     | Some u \<Rightarrow> if u_role u \<noteq> FREELANCE then throwP (NotFound FreelanceProfileNotFoundOrNotAllowed)
         else atGear (repo_insert G (new_gear (u_id u) dto)))"

text \<open>\<open>ORDER BY isInLoadout DESC, createdAt DESC\<close>.\<close>

definition gear_order :: "gear \<Rightarrow> int list" where
  "gear_order g = [if g_isInLoadout g then 1 else 0, int (g_createdAt g)]"

definition paginate :: "('g, gear) repo \<Rightarrow> (gear \<Rightarrow> bool) \<Rightarrow> QueryGearDto \<Rightarrow>
    ('u, 'g, 'c, 'k, 'o, gear paginated) app" where
  "paginate G where_clause query =
     bindP (atGear (repo_findAndCount G where_clause gear_order ((q_page query - 1) * q_limit query) (q_limit query)))
     (\<lambda>(rows, n). returnP \<lparr>items = rows, total = n, page = q_page query, limit = q_limit query\<rparr>)"

definition getFreelanceGear :: "('g, gear) repo \<Rightarrow> string \<Rightarrow> QueryGearDto \<Rightarrow>
    ('u, 'g, 'c, 'k, 'o, gear paginated) app" where
  "getFreelanceGear G freelanceId query = paginate G (\<lambda>g. g_freelanceId g = freelanceId \<and>
     (\<forall>c. q_category query = Some c \<longrightarrow> g_category g = c) \<and>
     (\<forall>s. q_status query = Some s \<longrightarrow> g_status g = s)) query"

definition getPublicFreelanceGear :: "('u, user) repo \<Rightarrow> ('g, gear) repo \<Rightarrow> string \<Rightarrow> QueryGearDto \<Rightarrow>
    ('u, 'g, 'c, 'k, 'o, PublicGearView paginated) app" where
  "getPublicFreelanceGear U G freelanceId query =
     bindP (atUsers (repo_findOne U (\<lambda>u. u_id u = freelanceId))) (\<lambda>target. case target of
       None \<Rightarrow> throwP (NotFound FreelanceProfileNotFound)
     | Some u \<Rightarrow> if u_role u \<noteq> FREELANCE then throwP (NotFound FreelanceProfileNotFound)
         else bindP (paginate G (\<lambda>g. g_freelanceId g = freelanceId \<and> g_status g = GearStatus.VALIDATED \<and>
                (\<forall>c. q_category query = Some c \<longrightarrow> g_category g = c)) query) (\<lambda>p.
              returnP \<lparr>items = map toPublicGearView (items p), total = total p, page = page p, limit = limit p\<rparr>))"

definition listPendingForValidation :: "('g, gear) repo \<Rightarrow> QueryGearDto \<Rightarrow>
    ('u, 'g, 'c, 'k, 'o, gear paginated) app" where
  "listPendingForValidation G query = paginate G (\<lambda>g. g_status g = GearStatus.PENDING \<and>
     (\<forall>c. q_category query = Some c \<longrightarrow> g_category g = c)) query"

text \<open>The checks before an item is pinned; unpinning needs none.\<close>

definition check_pin :: "('g, gear) repo \<Rightarrow> string \<Rightarrow> gear \<Rightarrow> bool \<Rightarrow> ('u, 'g, 'c, 'k, 'o, unit) app" where
  "check_pin G freelanceId g inLoadout =
     (if inLoadout
      then if g_status g \<noteq> GearStatus.VALIDATED then throwP (BadRequest OnlyValidatedGear)
        else if \<not> g_isInLoadout g
        then bindP (atGear (repo_count G (\<lambda>x. g_freelanceId x = freelanceId \<and> g_isInLoadout x))) (\<lambda>pinned.
             if pinned \<ge> LOADOUT_MAX_SLOTS then throwP (BadRequest LoadoutFull) else returnP ())
        else returnP ()
      else returnP ())"

definition setLoadout :: "('g, gear) repo \<Rightarrow> string \<Rightarrow> string \<Rightarrow> bool \<Rightarrow> ('u, 'g, 'c, 'k, 'o, gear) app" where
  "setLoadout G freelanceId gearId inLoadout =
     bindP (atGear (repo_findOne G (\<lambda>g. g_id g = gearId \<and> g_freelanceId g = freelanceId))) (\<lambda>found. case found of
       None \<Rightarrow> throwP (NotFound GearNotFound)
     | Some g \<Rightarrow>
         bindP (check_pin G freelanceId g inLoadout) (\<lambda>_.
         atGear (repo_save G (g\<lparr>g_isInLoadout := inLoadout\<rparr>))))"

definition review_event :: "GearStatus \<Rightarrow> DomainEventType" where
  "review_event decision = (if decision = GearStatus.VALIDATED then GEAR_VALIDATED else GEAR_REJECTED)"

definition reviewGear :: "('g, gear) repo \<Rightarrow> 'k redis \<Rightarrow> nat \<Rightarrow> string \<Rightarrow> GearStatus \<Rightarrow>
    ('u, 'g, 'c, 'k, 'o, gear) app" where
  "reviewGear G RD now gearId decision =
     bindP (atGear (repo_findOne G (\<lambda>g. g_id g = gearId))) (\<lambda>found. case found of
       None \<Rightarrow> throwP (NotFound GearNotFound)
     | Some g \<Rightarrow>
         if g_status g \<noteq> GearStatus.PENDING then throwP (Conflict GearAlreadyReviewed) else
         bindP (atGear (repo_save G (g\<lparr>g_status := decision,
            g_isInLoadout := (if decision = GearStatus.REJECTED then False else g_isInLoadout g)\<rparr>))) (\<lambda>saved.
         bindP (atRedis (publish RD now (review_event decision)
            [(''gearId'', g_id saved), (''freelanceId'', g_freelanceId saved)])) (\<lambda>_.
         returnP saved)))"

section \<open>The controller\<close>

definition post_gear :: "jwt \<Rightarrow> ('u, user) repo \<Rightarrow> ('g, gear) repo \<Rightarrow> nat \<Rightarrow> string option \<Rightarrow>
    GearCategory option \<Rightarrow> string option \<Rightarrow> string option \<Rightarrow> string option \<Rightarrow> ('u, 'g, 'c, 'k, 'o, gear) app" where
  "post_gear J U G now auth category brand model serial =
     roles_guarded J [FREELANCE] now auth (\<lambda>user.
     bindP (liftE (validate_AddGearDto category brand model serial)) (\<lambda>dto.
     addGearToLocker U G (p_userId user) dto))"

definition get_gear_me :: "jwt \<Rightarrow> ('g, gear) repo \<Rightarrow> nat \<Rightarrow> string option \<Rightarrow>
    GearCategory param \<Rightarrow> GearStatus param \<Rightarrow> int param \<Rightarrow> int param \<Rightarrow> ('u, 'g, 'c, 'k, 'o, gear paginated) app" where
  "get_gear_me J G now auth category status pg sz =
     roles_guarded J [FREELANCE] now auth (\<lambda>user.
     bindP (liftE (validate_QueryGearDto category status pg sz)) (\<lambda>query.
     getFreelanceGear G (p_userId user) query))"

definition get_gear_freelance :: "jwt \<Rightarrow> (string \<Rightarrow> bool) \<Rightarrow> ('u, user) repo \<Rightarrow> ('g, gear) repo \<Rightarrow> nat \<Rightarrow> string option \<Rightarrow>
    string \<Rightarrow> GearCategory param \<Rightarrow> GearStatus param \<Rightarrow> int param \<Rightarrow> int param \<Rightarrow>
    ('u, 'g, 'c, 'k, 'o, PublicGearView paginated) app" where
  "get_gear_freelance J is_uuid U G now auth freelanceId category status pg sz =
     roles_guarded J [RECRUITER] now auth (\<lambda>user.
     bindP (liftE (parse_uuid is_uuid freelanceId)) (\<lambda>fid.
     bindP (liftE (validate_PublicQueryGearDto category status pg sz)) (\<lambda>query.
     getPublicFreelanceGear U G fid query)))"

definition get_gear_pending :: "jwt \<Rightarrow> ('g, gear) repo \<Rightarrow> nat \<Rightarrow> string option \<Rightarrow>
    GearCategory param \<Rightarrow> GearStatus param \<Rightarrow> int param \<Rightarrow> int param \<Rightarrow> ('u, 'g, 'c, 'k, 'o, gear paginated) app" where
  "get_gear_pending J G now auth category status pg sz =
     roles_guarded J [ADMIN] now auth (\<lambda>user.
     bindP (liftE (validate_QueryGearDto category status pg sz)) (\<lambda>query.
     listPendingForValidation G query))"

definition patch_gear_review :: "jwt \<Rightarrow> (string \<Rightarrow> bool) \<Rightarrow> ('g, gear) repo \<Rightarrow> 'k redis \<Rightarrow> nat \<Rightarrow> string option \<Rightarrow>
    string \<Rightarrow> GearStatus option \<Rightarrow> ('u, 'g, 'c, 'k, 'o, gear) app" where
  "patch_gear_review J is_uuid G RD now auth i decision =
     roles_guarded J [ADMIN] now auth (\<lambda>user.
     bindP (liftE (parse_uuid is_uuid i)) (\<lambda>gid.
     bindP (liftE (validate_ReviewGearDto decision)) (\<lambda>d.
     reviewGear G RD now gid d)))"

definition patch_gear_loadout :: "jwt \<Rightarrow> (string \<Rightarrow> bool) \<Rightarrow> ('g, gear) repo \<Rightarrow> nat \<Rightarrow> string option \<Rightarrow>
    string \<Rightarrow> bool option \<Rightarrow> ('u, 'g, 'c, 'k, 'o, gear) app" where
  "patch_gear_loadout J is_uuid G now auth i inLoadout =
     roles_guarded J [FREELANCE] now auth (\<lambda>user.
     bindP (liftE (parse_uuid is_uuid i)) (\<lambda>gid.
     bindP (liftE (validate_SetLoadoutDto inLoadout)) (\<lambda>b.
     setLoadout G (p_userId user) gid b)))"

section \<open>The service on lawful stores\<close>

text \<open>The rows pinned by a freelance, and the invariant of the showcase.\<close>

definition pinned :: "(string \<rightharpoonup> gear) \<Rightarrow> string \<Rightarrow> string set" where
  "pinned t f = matching t (\<lambda>g. g_freelanceId g = f \<and> g_isInLoadout g)"

definition loadout_ok :: "(string \<rightharpoonup> gear) \<Rightarrow> bool" where
  "loadout_ok t \<longleftrightarrow> (\<forall>f. card (pinned t f) \<le> LOADOUT_MAX_SLOTS) \<and>
     (\<forall>g \<in> ran t. g_isInLoadout g \<longrightarrow> g_status g = GearStatus.VALIDATED)"

lemma pinned_upd_unpinned: "\<not> g_isInLoadout g \<Longrightarrow> pinned (t(i \<mapsto> g)) f \<subseteq> pinned t f"
  by (auto simp: pinned_def matching_upd)

lemma pinned_upd_other: "g_freelanceId g \<noteq> f \<Longrightarrow> pinned (t(i \<mapsto> g)) f \<subseteq> pinned t f"
  by (auto simp: pinned_def matching_upd)

lemma loadout_ok_upd:
  assumes ok: "loadout_ok t" and fin: "finite (dom t)"
    and g: "g_isInLoadout g \<Longrightarrow> g_status g = GearStatus.VALIDATED \<and>
      (i \<in> pinned t (g_freelanceId g) \<or> card (pinned t (g_freelanceId g)) < LOADOUT_MAX_SLOTS)"
  shows "loadout_ok (t(i \<mapsto> g))"
  unfolding loadout_ok_def
proof (intro conjI allI ballI impI)
  fix f
  have fp: "finite (pinned t f)" using fin by (simp add: pinned_def)
  have le: "card (pinned t f) \<le> LOADOUT_MAX_SLOTS" using ok by (simp add: loadout_ok_def)
  show "card (pinned (t(i \<mapsto> g)) f) \<le> LOADOUT_MAX_SLOTS"
  proof (cases "g_isInLoadout g \<and> g_freelanceId g = f")
    case False
    then have "pinned (t(i \<mapsto> g)) f \<subseteq> pinned t f" using pinned_upd_unpinned pinned_upd_other by blast
    then have "card (pinned (t(i \<mapsto> g)) f) \<le> card (pinned t f)" using fp by (rule card_mono [rotated])
    with le show ?thesis by linarith
  next
    case True
    then have "pinned (t(i \<mapsto> g)) f = insert i (pinned t f)" by (auto simp: pinned_def matching_upd)
    then show ?thesis using g True le fp by (auto simp: card_insert_if)
  qed
next
  fix x assume "x \<in> ran (t(i \<mapsto> g))" "g_isInLoadout x"
  then show "g_status x = GearStatus.VALIDATED"
    using ok g by (auto simp: loadout_ok_def ran_def split: if_splits)
qed

locale gear_rows = G: repository G tblg g_id
  for G :: "('g, gear) repo" and tblg :: "'g \<Rightarrow> string \<rightharpoonup> gear"
begin

lemma find_own:
  assumes "repo_findOne G (\<lambda>g. g_id g = i \<and> g_freelanceId g = f) s = (q, s')"
  shows "q = Inl LibraryError \<or>
    q = Inr (case tblg s i of None \<Rightarrow> None | Some g \<Rightarrow> if g_freelanceId g = f then Some g else None)"
proof (cases q)
  case (Inl e)
  then show ?thesis using G.findOne_error assms by blast
next
  case (Inr x)
  show ?thesis
  proof (cases x)
    case (Some g)
    then show ?thesis
      using Inr G.findOne_Some [of "\<lambda>g. g_id g = i \<and> g_freelanceId g = f" s g s'] assms by auto
  next
    case None
    then have "tblg s i = Some g \<Longrightarrow> g_freelanceId g \<noteq> f" for g
      using G.findOne_None [of _ s s' i g] assms Inr G.tbl_key [of s i g] by auto
    with None Inr show ?thesis by (auto split: option.splits)
  qed
qed

lemma check_pin_result:
  assumes run: "check_pin G f g b w = (r, w')"
  shows "tblg (aw_gear w') = tblg (aw_gear w)"
    and "r = Inl LibraryError \<or>
      r = Inl (BadRequest OnlyValidatedGear) \<and> b \<and> g_status g \<noteq> GearStatus.VALIDATED \<or>
      r = Inl (BadRequest LoadoutFull) \<and> b \<and> \<not> g_isInLoadout g \<and> LOADOUT_MAX_SLOTS \<le> card (pinned (tblg (aw_gear w)) f) \<or>
      r = Inr () \<and> (b \<longrightarrow> g_status g = GearStatus.VALIDATED \<and>
         (g_isInLoadout g \<or> card (pinned (tblg (aw_gear w)) f) < LOADOUT_MAX_SLOTS))" (is ?result)
proof -
  obtain n y where n: "repo_count G (\<lambda>x. g_freelanceId x = f \<and> g_isInLoadout x) (aw_gear w) = (n, y)" by fastforce
  have ty: "tblg y = tblg (aw_gear w)" by (rule G.count_frame [OF n])
  have nn: "n = Inl LibraryError \<or> n = Inr (card (pinned (tblg (aw_gear w)) f))"
    using n G.count_error G.count_rows by (cases n) (auto simp: pinned_def)
  show "tblg (aw_gear w') = tblg (aw_gear w)"
    using run n ty nn by (auto simp: check_pin_def bindP_def atGear_def liftP_def throwP_def returnP_def split: if_splits)
  show ?result
    using run n nn by (auto simp: check_pin_def bindP_def atGear_def liftP_def throwP_def returnP_def split: if_splits)
qed

text \<open>\<open>setLoadout\<close> on every branch.\<close>

lemma set_result:
  assumes run: "setLoadout G f i b w = (r, w')"
  obtains (error) e where "r = Inl e" "tblg (aw_gear w') = tblg (aw_gear w)"
      "e = LibraryError \<or>
       e = NotFound GearNotFound \<and> \<not> (\<exists>g. tblg (aw_gear w) i = Some g \<and> g_freelanceId g = f) \<or>
       (\<exists>g. tblg (aw_gear w) i = Some g \<and> b \<and>
         (e = BadRequest OnlyValidatedGear \<and> g_status g \<noteq> GearStatus.VALIDATED \<or>
          e = BadRequest LoadoutFull \<and> \<not> g_isInLoadout g \<and> LOADOUT_MAX_SLOTS \<le> card (pinned (tblg (aw_gear w)) f)))"
  | (set) g where "r = Inr (g\<lparr>g_isInLoadout := b\<rparr>)" "tblg (aw_gear w) i = Some g" "g_freelanceId g = f"
      "tblg (aw_gear w') = (tblg (aw_gear w))(i \<mapsto> g\<lparr>g_isInLoadout := b\<rparr>)"
      "b \<longrightarrow> g_status g = GearStatus.VALIDATED \<and>
         (g_isInLoadout g \<or> card (pinned (tblg (aw_gear w)) f) < LOADOUT_MAX_SLOTS)"
proof -
  obtain q x where q: "repo_findOne G (\<lambda>g. g_id g = i \<and> g_freelanceId g = f) (aw_gear w) = (q, x)" by fastforce
  have tx: "tblg x = tblg (aw_gear w)" by (rule G.findOne_frame [OF q])
  consider "q = Inl LibraryError" | "q = Inr None" "\<not> (\<exists>g. tblg (aw_gear w) i = Some g \<and> g_freelanceId g = f)"
    | g where "q = Inr (Some g)" "tblg (aw_gear w) i = Some g" "g_freelanceId g = f"
    using find_own [OF q] by (auto split: option.splits if_splits)
  then show thesis
  proof cases
    case 1
    with run q tx show thesis by (intro error [of LibraryError]) (auto simp: setLoadout_def bindP_def atGear_def liftP_def)
  next
    case 2
    with run q tx show thesis
      by (intro error [of "NotFound GearNotFound"]) (auto simp: setLoadout_def bindP_def atGear_def liftP_def throwP_def)
  next
    case (3 g)
    obtain p w1 where p: "check_pin G f g b (w\<lparr>aw_gear := x\<rparr>) = (p, w1)" by fastforce
    note pr = check_pin_result [OF p]
    show thesis
    proof (cases p)
      case (Inl e)
      with run q 3 p pr tx show thesis
        by (intro error [of e]) (auto simp: setLoadout_def bindP_def at_iff atGear_def liftP_def)
    next
      case (Inr u)
      obtain z where z: "repo_save G (g\<lparr>g_isInLoadout := b\<rparr>) (aw_gear w1) = (r, z)" "aw_gear w' = z"
        using run q 3 p Inr by (auto simp: setLoadout_def bindP_def atGear_def liftP_def split: prod.splits)
      show thesis
      proof (cases r)
        case (Inl e)
        with z pr tx G.save_frame [OF z(1) [unfolded Inl]] G.save_error [OF z(1) [unfolded Inl]] show thesis
          by (intro error [of e]) simp_all
      next
        case case2: (Inr h)
        with z pr tx G.save_row [OF z(1) [unfolded case2]] 3 G.tbl_key [OF 3(2)] Inr show thesis
          by (intro set [of g]) simp_all
      qed
    qed
  qed
qed

end

locale gear_review = gear_rows G tblg + RD: redis_server RD view
  for G :: "('g, gear) repo" and tblg :: "'g \<Rightarrow> string \<rightharpoonup> gear"
    and RD :: "'k redis" and view :: "'k \<Rightarrow> redis_view"
begin

text \<open>\<open>reviewGear\<close> on every branch.\<close>

lemma review_result:
  assumes run: "reviewGear G RD now i d w = (r, w')"
  obtains (error) e where "r = Inl e" "tblg (aw_gear w') = tblg (aw_gear w)" "aw_redis w' = aw_redis w"
      "e = LibraryError \<or> e = NotFound GearNotFound \<and> tblg (aw_gear w) i = None \<or>
       (\<exists>g. tblg (aw_gear w) i = Some g \<and> e = Conflict GearAlreadyReviewed \<and> g_status g \<noteq> GearStatus.PENDING)"
  | (reviewed) g h where "tblg (aw_gear w) i = Some g" "g_status g = GearStatus.PENDING" "r = Inr h"
      "h = g\<lparr>g_status := d, g_isInLoadout := (if d = GearStatus.REJECTED then False else g_isInLoadout g)\<rparr>"
      "tblg (aw_gear w') = (tblg (aw_gear w))(i \<mapsto> h)"
      "may_apply now (XADD STREAM_KEY (event_fields (review_event d) [(''gearId'', i), (''freelanceId'', g_freelanceId g)]))
         (view (aw_redis w)) (view (aw_redis w'))"
proof -
  obtain q x where q: "repo_findOne G (\<lambda>g. g_id g = i) (aw_gear w) = (q, x)" by fastforce
  have tx: "tblg x = tblg (aw_gear w)" by (rule G.findOne_frame [OF q])
  consider "q = Inl LibraryError" | "q = Inr None" "tblg (aw_gear w) i = None"
    | g where "q = Inr (Some g)" "tblg (aw_gear w) i = Some g"
    using q G.findOne_error G.findOne_by_key by (cases q; cases "tblg (aw_gear w) i") fastforce+
  then show thesis
  proof cases
    case 1
    with run q tx show thesis by (intro error [of LibraryError]) (auto simp: reviewGear_def bindP_def atGear_def liftP_def)
  next
    case 2
    with run q tx show thesis
      by (intro error [of "NotFound GearNotFound"]) (auto simp: reviewGear_def bindP_def atGear_def liftP_def throwP_def)
  next
    case (3 g)
    let ?h = "g\<lparr>g_status := d, g_isInLoadout := (if d = GearStatus.REJECTED then False else g_isInLoadout g)\<rparr>"
    show thesis
    proof (cases "g_status g = GearStatus.PENDING")
      case False
      with run q tx 3 show thesis
        by (intro error [of "Conflict GearAlreadyReviewed"]) (auto simp: reviewGear_def bindP_def atGear_def liftP_def throwP_def)
    next
      case True
      obtain s y where s: "repo_save G ?h x = (s, y)" by fastforce
      show thesis
      proof (cases s)
        case (Inl e)
        with run q 3 True s tx G.save_frame [OF s [unfolded Inl]] G.save_error [OF s [unfolded Inl]] show thesis
          by (intro error [of e]) (auto simp: reviewGear_def bindP_def atGear_def liftP_def)
      next
        case (Inr h)
        have h: "h = ?h" "tblg y = (tblg (aw_gear w))(i \<mapsto> ?h)" "g_id g = i"
          using G.save_row [OF s [unfolded Inr]] tx G.tbl_key [OF 3(2)] by simp_all
        obtain p k where p: "publish RD now (review_event d) [(''gearId'', i), (''freelanceId'', g_freelanceId g)]
            (aw_redis w) = (p, k)" by fastforce
        have "r = Inr ?h" "aw_gear w' = y" "aw_redis w' = k"
          using run q 3 True s Inr h p publish_returns [OF p]
          by (auto simp: reviewGear_def bindP_def atGear_def atRedis_def liftP_def returnP_def)
        with h 3 True publish_view [OF RD.redis_server_axioms p] show thesis
          by (intro reviewed [of g ?h]) simp_all
      qed
    qed
  qed
qed

end

locale gear_store = gear_review G tblg RD view + U: repository U tblu u_id
  for U :: "('u, user) repo" and tblu :: "'u \<Rightarrow> string \<rightharpoonup> user"
    and G :: "('g, gear) repo" and tblg :: "'g \<Rightarrow> string \<rightharpoonup> gear"
    and RD :: "'k redis" and view :: "'k \<Rightarrow> redis_view"
begin

lemma add_result:
  assumes run: "addGearToLocker U G f dto w = (r, w')"
  obtains (error) e where "r = Inl e" "tblg (aw_gear w') = tblg (aw_gear w)"
      "e = LibraryError \<or> e = NotFound FreelanceProfileNotFoundOrNotAllowed"
  | (added) i t u where "r = Inr (new_gear f dto i t)" "tblu (aw_users w) f = Some u" "u_role u = FREELANCE"
      "tblg (aw_gear w) i = None" "tblg (aw_gear w') = (tblg (aw_gear w))(i \<mapsto> new_gear f dto i t)"
proof -
  obtain q x where q: "repo_findOne U (\<lambda>u. u_id u = f) (aw_users w) = (q, x)" by fastforce
  show thesis
  proof (cases "\<exists>u. q = Inr (Some u) \<and> u_role u = FREELANCE")
    case False
    with run q U.findOne_error show thesis
      by (cases q) (auto intro!: error simp: addGearToLocker_def bindP_def atUsers_def liftP_def throwP_def
          split: option.splits)
  next
    case True
    then obtain u where u: "q = Inr (Some u)" "u_role u = FREELANCE" by blast
    have row: "tblu (aw_users w) f = Some u" "u_id u = f"
      using U.findOne_by_key [OF q [unfolded u(1)]] U.findOne_Some [OF q [unfolded u(1)]] by simp_all
    obtain d y where d: "repo_insert G (new_gear f dto) (aw_gear w) = (d, y)" by fastforce
    have w': "r = d" "tblg (aw_gear w') = tblg y"
      using run q u row d by (auto simp: addGearToLocker_def bindP_def atUsers_def atGear_def liftP_def)
    show thesis
    proof (cases d)
      case (Inl e)
      with w' G.insert_frame [OF d [unfolded Inl]] G.insert_error [OF d [unfolded Inl]] show thesis
        by (intro error [of e]) simp_all
    next
      case (Inr g)
      obtain i t where g: "g = new_gear f dto i t" "tblg y = (tblg (aw_gear w))(g_id g \<mapsto> g)"
        "g_id g = i \<longrightarrow> tblg (aw_gear w) i = None"
        using G.insert_row [OF d [unfolded Inr]] by blast
      then have "g_id g = i" by (simp add: new_gear_def)
      with g Inr w' row u show thesis by (intro added [of i t u]) simp_all
    qed
  qed
qed

end

section \<open>The showcase over time\<close>

text \<open>
  A step of the system as far as the gear table is concerned: a request to one of the three
  routes that write it, with any token and any body, or anything that leaves the table alone.
\<close>

inductive gear_step :: "jwt \<Rightarrow> (string \<Rightarrow> bool) \<Rightarrow> ('u, user) repo \<Rightarrow> ('g, gear) repo \<Rightarrow> 'k redis \<Rightarrow>
    ('u, 'g, 'c, 'k, 'o) app_world \<Rightarrow> ('u, 'g, 'c, 'k, 'o) app_world \<Rightarrow> bool"
  for J is_uuid U G RD where
  add: "post_gear J U G now auth c b m s w = (r, w') \<Longrightarrow> gear_step J is_uuid U G RD w w'"
| review: "patch_gear_review J is_uuid G RD now auth i d w = (r, w') \<Longrightarrow> gear_step J is_uuid U G RD w w'"
| loadout: "patch_gear_loadout J is_uuid G now auth i b w = (r, w') \<Longrightarrow> gear_step J is_uuid U G RD w w'"
| other: "aw_gear w' = aw_gear w \<Longrightarrow> gear_step J is_uuid U G RD w w'"

context gear_store
begin

lemma add_keeps: "loadout_ok (tblg (aw_gear w)) \<Longrightarrow> addGearToLocker U G f dto w = (r, w') \<Longrightarrow>
    loadout_ok (tblg (aw_gear w'))"
  by (erule add_result) (auto intro!: loadout_ok_upd G.tbl_finite simp: new_gear_def)

lemma set_keeps:
  assumes ok: "loadout_ok (tblg (aw_gear w))" and run: "setLoadout G f i b w = (r, w')"
  shows "loadout_ok (tblg (aw_gear w'))"
  using run
proof (cases rule: set_result)
  case (set g)
  have "g_isInLoadout g \<Longrightarrow> i \<in> pinned (tblg (aw_gear w)) f"
    using set(2,3) by (auto simp: pinned_def matching_def)
  then show ?thesis
    using set by (auto intro!: loadout_ok_upd [OF ok] G.tbl_finite)
qed (simp add: ok)

lemma review_keeps:
  assumes ok: "loadout_ok (tblg (aw_gear w))" and run: "reviewGear G RD now i d w = (r, w')"
  shows "loadout_ok (tblg (aw_gear w'))"
  using run
proof (cases rule: review_result)
  case (reviewed g h)
  then have "\<not> g_isInLoadout g" using ok by (auto simp: loadout_ok_def ran_def)
  then show ?thesis using reviewed by (auto intro!: loadout_ok_upd [OF ok] G.tbl_finite)
qed (simp add: ok)

lemma gear_step_keeps:
  assumes "loadout_ok (tblg (aw_gear w))" "gear_step J is_uuid U G RD w w'"
  shows "loadout_ok (tblg (aw_gear w'))"
  using assms(2)
proof (cases rule: gear_step.cases)
  case (add now auth c b m s r)
  from add assms(1) show ?thesis
    unfolding post_gear_def by (auto elim!: roles_guarded_cases bindP_liftE_cases intro: add_keeps)
next
  case (review now auth i d r)
  from review assms(1) show ?thesis
    unfolding patch_gear_review_def by (auto elim!: roles_guarded_cases bindP_liftE_cases intro: review_keeps)
next
  case (loadout now auth i b r)
  from loadout assms(1) show ?thesis
    unfolding patch_gear_loadout_def by (auto elim!: roles_guarded_cases bindP_liftE_cases intro: set_keeps)
qed (simp add: assms(1))

lemma gear_steps_keep:
  "(gear_step J is_uuid U G RD)\<^sup>*\<^sup>* w w' \<Longrightarrow> loadout_ok (tblg (aw_gear w)) \<Longrightarrow> loadout_ok (tblg (aw_gear w'))"
  by (induction rule: rtranclp_induct) (auto intro: gear_step_keeps)

end

lemma gear_storeI:
  "repository U tblu u_id \<Longrightarrow> repository G tblg g_id \<Longrightarrow> redis_server RD view \<Longrightarrow> gear_store U tblu G tblg RD view"
  by (intro gear_store.intro gear_review.intro gear_rows.intro)

lemma loadout_ok_empty: "loadout_ok Map.empty"
  by (simp add: loadout_ok_def pinned_def matching_def)

interpretation mem_gear: gear_store users_table "mem_tbl u_id" "gear_table ids" "mem_tbl g_id" mem_redis "\<lambda>v. v" for ids
  ..

section \<open>Properties\<close>

text \<open>Values for the witnesses: the freelance \<open>f1\<close>, the admin \<open>a1\<close> and a world with gear rows.\<close>

definition mk_user :: "string \<Rightarrow> UserRole \<Rightarrow> user" where
  "mk_user i role = \<lparr>u_id = i, u_email = i @ ''@x.fr'', u_username = i, u_passwordHash = ''h'', u_role = role,
     u_location = Some \<lparr>coordinates = [1, 2]\<rparr>, u_twoFactorEnabled = False, u_twoFactorSecretEncrypted = None,
     u_twoFactorBackupCodesHashed = None, u_createdAt = 0\<rparr>"

definition mk_gear :: "string \<Rightarrow> GearStatus \<Rightarrow> bool \<Rightarrow> gear" where
  "mk_gear i st pin = \<lparr>g_id = i, g_brand = ''DJI'', g_model = ''M3'', g_serialNumber = ''SN-12345'', g_category = DRONE,
     g_status = st, g_isInLoadout = pin, g_createdAt = 1, g_freelanceId = ''f1''\<rparr>"

definition gear_world :: "gear list \<Rightarrow> (user list, gear list, unit, redis_view, unit) app_world" where
  "gear_world gs = \<lparr>aw_users = [mk_user ''f1'' FREELANCE, mk_user ''a1'' ADMIN, mk_user ''r1'' RECRUITER], aw_gear = gs,
     aw_certs = (), aw_redis = Map.empty, aw_objects = ()\<rparr>"

definition bearer :: "string \<Rightarrow> UserRole \<Rightarrow> string option" where
  "bearer i role = Some (''Bearer '' @ jwt_sign mem_jwt 0
     \<lparr>cl_userId = i, cl_email = None, cl_role = Some role, cl_type = Some ''access'', cl_jti = None\<rparr> 900)"

lemma bearer_ok: "now < 900 \<Longrightarrow> JwtAuthGuard_canActivate mem_jwt now (bearer i role) =
    Inr \<lparr>p_userId = i, p_email = None, p_role = Some role\<rparr>"
  unfolding bearer_def by (simp add: mem_jwt.guard_signed del: append.simps)

lemma gear_world_fields [simp]:
  "aw_gear (gear_world gs) = gs" "aw_redis (gear_world gs) = Map.empty"
  "aw_users (gear_world gs) = [mk_user ''f1'' FREELANCE, mk_user ''a1'' ADMIN, mk_user ''r1'' RECRUITER]"
  by (simp_all add: gear_world_def)

lemma mk_gear_fields [simp]:
  "g_id (mk_gear i st pin) = i" "g_status (mk_gear i st pin) = st" "g_isInLoadout (mk_gear i st pin) = pin"
  "g_freelanceId (mk_gear i st pin) = ''f1''" "g_category (mk_gear i st pin) = DRONE" "g_createdAt (mk_gear i st pin) = 1"
  by (simp_all add: mk_gear_def)

lemma mk_user_fields [simp]: "u_id (mk_user i role) = i" "u_role (mk_user i role) = role"
  "u_location (mk_user i role) = Some \<lparr>coordinates = [1, 2]\<rparr>" "u_username (mk_user i role) = i"
  by (simp_all add: mk_user_def)



text \<open>
  Pinning. A request to the loadout route that returns was made by a freelance on an item of
  their own locker; only the flag of this item changed; if it was pinned by the request it is
  validated and fewer than four items were pinned before. A request on somebody else's item, or
  on an unknown one, changes nothing.
\<close>

theorem loadout_route_correct:
  assumes "repository G tblg g_id"
    and run: "patch_gear_loadout J is_uuid G now auth i b w = (r, w')"
  shows "case r of Inl e \<Rightarrow> tblg (aw_gear w') = tblg (aw_gear w)
    | Inr h \<Rightarrow> \<exists>user g pin. JwtAuthGuard_canActivate J now auth = Inr user \<and> p_role user = Some FREELANCE \<and>
        b = Some pin \<and> tblg (aw_gear w) i = Some g \<and> g_freelanceId g = p_userId user \<and> h = g\<lparr>g_isInLoadout := pin\<rparr> \<and>
        tblg (aw_gear w') = (tblg (aw_gear w))(i \<mapsto> h) \<and>
        (pin \<and> \<not> g_isInLoadout g \<longrightarrow> g_status g = GearStatus.VALIDATED \<and> card (pinned (tblg (aw_gear w)) (g_freelanceId g)) < 4)"
proof -
  have gs: "gear_rows G tblg" using assms(1) by (rule gear_rows.intro)
  have ne: "[FREELANCE] \<noteq> []" by simp
  from run [unfolded patch_gear_loadout_def] ne show ?thesis
  proof (cases rule: roles_guarded_cases)
    case (2 user q)
    from 2(4) show ?thesis
    proof (cases rule: bindP_liftE_cases)
      case (2 gid)
      note gid = this
      from gid(2) show ?thesis
      proof (cases rule: bindP_liftE_cases)
        case (2 pin)
        have "gid = i" "b = Some pin"
          using gid(1) 2(1) by (auto simp: parse_uuid_def validate_SetLoadoutDto_def split: if_splits option.splits)
        with 2(2) \<open>JwtAuthGuard_canActivate J now auth = Inr user\<close>
          \<open>p_role user = Some q\<close> \<open>q \<in> set [FREELANCE]\<close>
        show ?thesis by (auto simp: LOADOUT_MAX_SLOTS_def elim!: gear_rows.set_result [OF gs])
      qed simp
    qed simp
  qed simp_all
qed

lemma gear_table_find_own:
  "repo_findOne (gear_table ids) (\<lambda>g. g_id g = ''g1'' \<and> g_freelanceId g = ''f1'') [mk_gear ''g1'' st pin] =
     (Inr (Some (mk_gear ''g1'' st pin)), [mk_gear ''g1'' st pin])"
  "repo_findOne (gear_table ids) (\<lambda>g. g_id g = ''g1'') [mk_gear ''g1'' st pin] =
     (Inr (Some (mk_gear ''g1'' st pin)), [mk_gear ''g1'' st pin])"
  by (simp_all add: table_run table_rows)

theorem loadout_route_correct_witness:
  "let run = patch_gear_loadout mem_jwt (\<lambda>s. True) (gear_table {''f1''}) 10 (bearer ''f1'' FREELANCE) ''g1'' (Some True)
       (gear_world [mk_gear ''g1'' GearStatus.VALIDATED False])
   in fst run = Inr (mk_gear ''g1'' GearStatus.VALIDATED True) \<and>
      mem_tbl g_id (aw_gear (snd run)) = (mem_tbl g_id [mk_gear ''g1'' GearStatus.VALIDATED False])
        (''g1'' \<mapsto> mk_gear ''g1'' GearStatus.VALIDATED True)"
proof -
  let ?run = "patch_gear_loadout mem_jwt (\<lambda>s. True) (gear_table {''f1''}) 10 (bearer ''f1'' FREELANCE) ''g1'' (Some True)
       (gear_world [mk_gear ''g1'' GearStatus.VALIDATED False])"
  have pin: "mk_gear ''g1'' GearStatus.VALIDATED False\<lparr>g_isInLoadout := True\<rparr> = mk_gear ''g1'' GearStatus.VALIDATED True"
    by (simp add: mk_gear_def)
  have f: "fst ?run = Inr (mk_gear ''g1'' GearStatus.VALIDATED True)"
    by (simp add: patch_gear_loadout_def roles_guarded_passes [OF bearer_ok] parse_uuid_def validate_SetLoadoutDto_def
        setLoadout_def check_pin_def bindP_def atGear_def liftP_def liftE_def gear_table_find_own returnP_def LOADOUT_MAX_SLOTS_def)
      (simp add: table_run table_rows pin returnP_def)
  then have run: "?run = (Inr (mk_gear ''g1'' GearStatus.VALIDATED True), snd ?run)" by (simp add: prod_eq_iff)
  show ?thesis
    unfolding Let_def using loadout_route_correct [OF gear_tbl.repository_axioms run] f by auto
qed



text \<open>
  C14. The recruiter's view. The public route answers only a recruiter, only for the profile of a
  freelance and only without a status parameter; it lists at most 100 views, each of a validated
  item of this freelance and of the asked category, and the total counts exactly these items.
  (A view has no serial number and no owner.) Nothing is changed.
\<close>

theorem public_gear_only_validated:
  assumes "repository U tblu u_id" "repository G tblg g_id"
    and run: "get_gear_freelance J is_uuid U G now auth f category status pg sz w = (Inr p, w')"
  shows "\<exists>user u query. JwtAuthGuard_canActivate J now auth = Inr user \<and> p_role user = Some RECRUITER \<and> status = Absent \<and>
      tblu (aw_users w) f = Some u \<and> u_role u = FREELANCE \<and>
      validate_PublicQueryGearDto category status pg sz = Inr query \<and>
      (\<forall>v \<in> set (items p). \<exists>g. tblg (aw_gear w) (pg_id v) = Some g \<and> v = toPublicGearView g \<and>
         g_freelanceId g = f \<and> g_status g = GearStatus.VALIDATED \<and> (\<forall>c. category = Given c \<longrightarrow> g_category g = c)) \<and>
      length (items p) \<le> 100 \<and>
      total p = card (matching (tblg (aw_gear w)) (\<lambda>g. g_freelanceId g = f \<and> g_status g = GearStatus.VALIDATED \<and>
         (\<forall>c. q_category query = Some c \<longrightarrow> g_category g = c))) \<and>
      tblg (aw_gear w') = tblg (aw_gear w) \<and> tblu (aw_users w') = tblu (aw_users w)"
proof -
  have ne: "[RECRUITER] \<noteq> []" by simp
  obtain user where user: "JwtAuthGuard_canActivate J now auth = Inr user" "p_role user = Some RECRUITER"
    and rest: "bindP (liftE (parse_uuid is_uuid f)) (\<lambda>fid. bindP (liftE (validate_PublicQueryGearDto category status pg sz))
       (\<lambda>query. getPublicFreelanceGear U G fid query)) w = (Inr p, w')"
    by (rule roles_guarded_Inr [OF run [unfolded get_gear_freelance_def] ne]) auto
  then obtain query where v: "validate_PublicQueryGearDto category status pg sz = Inr query"
    and g: "getPublicFreelanceGear U G f query w = (Inr p, w')"
    by (cases "validate_PublicQueryGearDto category status pg sz") (auto simp: bindP_Inr_iff parse_uuid_def split: if_splits)
  have q: "status = Absent" "q_limit query \<le> 100" "\<And>c. category = Given c \<Longrightarrow> q_category query = Some c"
    using v by (auto simp: validate_PublicQueryGearDto_def validate_QueryGearDto_def validate_limit_def
        split: if_splits sum.splits param.splits)
  let ?P = "\<lambda>g. g_freelanceId g = f \<and> g_status g = GearStatus.VALIDATED \<and>
      (\<forall>c. q_category query = Some c \<longrightarrow> g_category g = c)"
  obtain u x rows n y where f1: "repo_findOne U (\<lambda>u. u_id u = f) (aw_users w) = (Inr (Some u), x)" "u_role u = FREELANCE"
    and pg: "repo_findAndCount G ?P gear_order ((q_page query - 1) * q_limit query) (q_limit query) (aw_gear w) = (Inr (rows, n), y)"
    and p: "p = \<lparr>items = map toPublicGearView rows, total = n, page = q_page query, limit = q_limit query\<rparr>"
    and w': "w' = w\<lparr>aw_users := x, aw_gear := y\<rparr>"
    using g by (auto simp: getPublicFreelanceGear_def paginate_def bindP_Inr_iff at_iff split: option.splits if_splits)
  note rows = repository.page_items [OF assms(2) pg]
  have "\<exists>g. tblg (aw_gear w) (pg_id v) = Some g \<and> v = toPublicGearView g \<and> g_freelanceId g = f \<and>
      g_status g = GearStatus.VALIDATED \<and> (\<forall>c. category = Given c \<longrightarrow> g_category g = c)" if v: "v \<in> set (items p)" for v
  proof -
    obtain g where "g \<in> set rows" "v = toPublicGearView g" using v by (auto simp: p)
    then show ?thesis using rows(1) [of g] q(3) by (intro exI [of _ g]) (simp add: toPublicGearView_def)
  qed
  moreover have "length (items p) \<le> 100" using rows(2) q(2) by (simp add: p)
  moreover have "tblu (aw_users w) f = Some u" using repository.findOne_by_key [OF assms(1) f1(1)] by simp
  moreover have "tblg (aw_gear w') = tblg (aw_gear w)" "tblu (aw_users w') = tblu (aw_users w)"
    using repository.page_frame [OF assms(2) pg] repository.findOne_frame [OF assms(1) f1(1)] by (simp_all add: w')
  moreover have "total p = card (matching (tblg (aw_gear w)) ?P)" using rows(3) by (simp add: p)
  ultimately show ?thesis
    using user f1(2) q(1) v by (intro exI [of _ user] exI [of _ u] exI [of _ query]) simp
qed

theorem public_gear_only_validated_witness:
  "let run = get_gear_freelance mem_jwt (\<lambda>s. True) users_table (gear_table {''f1''}) 10 (bearer ''r1'' RECRUITER) ''f1''
       Absent Absent Absent Absent (gear_world [mk_gear ''g1'' GearStatus.VALIDATED False, mk_gear ''g2'' GearStatus.PENDING False])
   in \<exists>p. fst run = Inr p \<and> items p = [toPublicGearView (mk_gear ''g1'' GearStatus.VALIDATED False)] \<and> length (items p) \<le> 100"
proof -
  let ?run = "get_gear_freelance mem_jwt (\<lambda>s. True) users_table (gear_table {''f1''}) 10 (bearer ''r1'' RECRUITER) ''f1''
       Absent Absent Absent Absent (gear_world [mk_gear ''g1'' GearStatus.VALIDATED False, mk_gear ''g2'' GearStatus.PENDING False])"
  have ok: "\<exists>p. fst ?run = Inr p \<and> items p = [toPublicGearView (mk_gear ''g1'' GearStatus.VALIDATED False)]"
    by (simp add: get_gear_freelance_def roles_guarded_passes [OF bearer_ok] parse_uuid_def validate_PublicQueryGearDto_def
        validate_QueryGearDto_def validate_limit_def validate_page_def getPublicFreelanceGear_def paginate_def bindP_def
        atUsers_def atGear_def liftP_def liftE_def returnP_def table_run table_rows)
  then obtain p where p: "?run = (Inr p, snd ?run)" "items p = [toPublicGearView (mk_gear ''g1'' GearStatus.VALIDATED False)]"
    by (metis prod.collapse)
  have "length (items p) \<le> 100"
    using public_gear_only_validated [OF users_tbl.repository_axioms gear_tbl.repository_axioms p(1)] by blast
  with p ok show ?thesis unfolding Let_def by auto
qed

end
