(* ===== verification/Storage.thy ===== *)
theory Storage
  imports Prelude Bytes
begin

text \<open>
  \<open>storage/storage.service.ts\<close>, the port for private files, and its two adapters:
  \<open>storage/fake-storage.service.ts\<close> in memory and \<open>storage/s3-storage.service.ts\<close> over the S3
  client of the AWS SDK, with the construction in \<open>storage/storage.module.ts\<close>. The port is the
  locale \<open>storage_port\<close>; both adapters are proved to provide it, the second one on any S3
  client that behaves as documented.
\<close>

section \<open>The port\<close>

text \<open>The time to live is a number of JavaScript: \<open>None\<close> is \<open>NaN\<close>.\<close>

record 'o storage_service =
  st_put :: "string \<Rightarrow> bytes \<Rightarrow> string \<Rightarrow> ('o, unit) proc"
  st_getSignedUrl :: "string \<Rightarrow> int option \<Rightarrow> ('o, string) proc"
  st_delete :: "string \<Rightarrow> ('o, unit) proc"

text \<open>\<open>objects s\<close> are the stored files: contents and MIME type by key.\<close>

locale storage_port =
  fixes S :: "'o storage_service"
    and objects :: "'o \<Rightarrow> string \<rightharpoonup> bytes \<times> string"
  assumes put_ok: "st_put S k body ct s = (Inr x, s') \<Longrightarrow> objects s' = (objects s)(k \<mapsto> (body, ct))"
    and put_fail: "st_put S k body ct s = (Inl e, s') \<Longrightarrow>
          e = LibraryError \<and> (objects s' = objects s \<or> objects s' = (objects s)(k \<mapsto> (body, ct)))"
    and url_frame: "st_getSignedUrl S k ttl s = (y, s') \<Longrightarrow> objects s' = objects s"
    and delete_ok: "st_delete S k s = (Inr z, s') \<Longrightarrow> objects s' = (objects s)(k := None)"
    and delete_fail: "st_delete S k s = (Inl d, s') \<Longrightarrow>
          d = LibraryError \<and> (objects s' = objects s \<or> objects s' = (objects s)(k := None))"

section \<open>FakeStorageService\<close>

definition is_unreserved :: "char \<Rightarrow> bool" where
  "is_unreserved c \<longleftrightarrow> (CHR ''A'' \<le> c \<and> c \<le> CHR ''Z'') \<or> (CHR ''a'' \<le> c \<and> c \<le> CHR ''z'') \<or>
     is_decimal c \<or> c \<in> set ''-_.!~*()'' \<or> c = CHR 0x27"

definition hex_digit :: "nat \<Rightarrow> char" where
  "hex_digit n = ''0123456789ABCDEF'' ! n"

definition encodeURIComponent :: "string \<Rightarrow> string" where
  "encodeURIComponent s = concat (map (\<lambda>c. if is_unreserved c then [c]
     else concat (map (\<lambda>b. [CHR ''%'', hex_digit (unat b div 16), hex_digit (unat b mod 16)]) (utf8_char c))) s)"

definition show_number :: "int option \<Rightarrow> string" where
  "show_number x = (case x of None \<Rightarrow> ''NaN'' | Some i \<Rightarrow> show_int i)"

type_synonym fake_store = "string \<rightharpoonup> bytes \<times> string"

definition Fake_put :: "string \<Rightarrow> bytes \<Rightarrow> string \<Rightarrow> (fake_store, unit) proc" where
  "Fake_put key body contentType = (\<lambda>store. (Inr (), store(key \<mapsto> (body, contentType))))"

definition Fake_getSignedUrl :: "string \<Rightarrow> int option \<Rightarrow> (fake_store, string) proc" where
  "Fake_getSignedUrl key ttlSeconds = (\<lambda>store.
     if key \<notin> dom store then (Inl (NotFound StorageObjectNotFound), store)
     else (Inr (''https://fake-storage.local/'' @ encodeURIComponent key @ ''?ttl='' @ show_number ttlSeconds), store))"

definition Fake_delete :: "string \<Rightarrow> (fake_store, unit) proc" where
  "Fake_delete key = (\<lambda>store. (Inr (), store(key := None)))"

definition Fake_get :: "fake_store \<Rightarrow> string \<Rightarrow> bytes option" where
  "Fake_get store key = map_option fst (store key)"

definition Fake_getContentType :: "fake_store \<Rightarrow> string \<Rightarrow> string option" where
  "Fake_getContentType store key = map_option snd (store key)"

definition Fake_size :: "fake_store \<Rightarrow> nat" where
  "Fake_size store = card (dom store)"

definition FakeStorageService :: "fake_store storage_service" where
  "FakeStorageService = \<lparr>st_put = Fake_put, st_getSignedUrl = Fake_getSignedUrl, st_delete = Fake_delete\<rparr>"

interpretation fake: storage_port FakeStorageService "\<lambda>s. s"
  by unfold_locales
    (auto simp: FakeStorageService_def Fake_put_def Fake_getSignedUrl_def Fake_delete_def split: if_splits)

section \<open>S3StorageService\<close>

datatype s3_command =
    PutObjectCommand string string bytes string "string option"
  | GetObjectCommand string string
  | DeleteObjectCommand string string

text \<open>
  \<open>s3_send\<close> is \<open>client.send\<close>; \<open>s3_presign\<close> the presigner. An object of a bucket has a body, a
  MIME type and the server-side encryption it was stored with.
\<close>

record 'o s3_client =
  s3_send :: "s3_command \<Rightarrow> ('o, unit) proc"
  s3_presign :: "s3_command \<Rightarrow> int option \<Rightarrow> ('o, string) proc"

type_synonym s3_view = "string \<times> string \<rightharpoonup> bytes \<times> string \<times> string option"

fun s3_apply :: "s3_command \<Rightarrow> s3_view \<Rightarrow> s3_view" where
  "s3_apply (PutObjectCommand b k body ct sse) v = v((b, k) \<mapsto> (body, ct, sse))"
| "s3_apply (GetObjectCommand b k) v = v"
| "s3_apply (DeleteObjectCommand b k) v = v((b, k) := None)"

locale s3 =
  fixes C :: "'o s3_client" and buckets :: "'o \<Rightarrow> s3_view"
  assumes send_ok: "s3_send C cmd s = (Inr x, s') \<Longrightarrow> buckets s' = s3_apply cmd (buckets s)"
    and send_fail: "s3_send C cmd s = (Inl e, s') \<Longrightarrow>
          e = LibraryError \<and> (buckets s' = buckets s \<or> buckets s' = s3_apply cmd (buckets s))"
    and presign_frame: "s3_presign C cmd ttl s = (y, s') \<Longrightarrow> buckets s' = buckets s"

definition S3_put :: "'o s3_client \<Rightarrow> string \<Rightarrow> string \<Rightarrow> bytes \<Rightarrow> string \<Rightarrow> ('o, unit) proc" where
  "S3_put C bucket key body contentType =
     bindP (s3_send C (PutObjectCommand bucket key body contentType (Some ''AES256''))) (\<lambda>_. returnP ())"

definition S3_getSignedUrl :: "'o s3_client \<Rightarrow> string \<Rightarrow> string \<Rightarrow> int option \<Rightarrow> ('o, string) proc" where
  "S3_getSignedUrl C bucket key ttlSeconds = s3_presign C (GetObjectCommand bucket key) ttlSeconds"

definition S3_delete :: "'o s3_client \<Rightarrow> string \<Rightarrow> string \<Rightarrow> ('o, unit) proc" where
  "S3_delete C bucket key = bindP (s3_send C (DeleteObjectCommand bucket key)) (\<lambda>_. returnP ())"

definition S3StorageService :: "'o s3_client \<Rightarrow> string \<Rightarrow> 'o storage_service" where
  "S3StorageService C bucket = \<lparr>st_put = S3_put C bucket, st_getSignedUrl = S3_getSignedUrl C bucket,
     st_delete = S3_delete C bucket\<rparr>"

definition bucket_objects :: "string \<Rightarrow> s3_view \<Rightarrow> string \<rightharpoonup> bytes \<times> string" where
  "bucket_objects bucket v = (\<lambda>k. map_option (\<lambda>(body, ct, sse). (body, ct)) (v (bucket, k)))"

text \<open>Everything in the bucket is encrypted at rest.\<close>

definition all_encrypted :: "string \<Rightarrow> s3_view \<Rightarrow> bool" where
  "all_encrypted bucket v \<longleftrightarrow> (\<forall>k body ct sse. v (bucket, k) = Some (body, ct, sse) \<longrightarrow> sse = Some ''AES256'')"

lemma bucket_objects_apply:
  "bucket_objects b (s3_apply (PutObjectCommand b k body ct sse) v) = (bucket_objects b v)(k \<mapsto> (body, ct))"
  "bucket_objects b (s3_apply (DeleteObjectCommand b k) v) = (bucket_objects b v)(k := None)"
  by (auto simp: bucket_objects_def fun_eq_iff)

lemma S3_run:
  "S3_put C b k body ct s = (r, s') \<Longrightarrow>
     \<exists>q. s3_send C (PutObjectCommand b k body ct (Some ''AES256'')) s = (q, s') \<and>
         (r = Inr () \<and> q = Inr () \<or> (\<exists>e. r = Inl e \<and> q = Inl e))"
  "S3_delete C b k s = (r, s') \<Longrightarrow>
     \<exists>q. s3_send C (DeleteObjectCommand b k) s = (q, s') \<and>
         (r = Inr () \<and> q = Inr () \<or> (\<exists>e. r = Inl e \<and> q = Inl e))"
  by (cases r; auto simp: S3_put_def S3_delete_def proc_iff)+

sublocale s3 \<subseteq> storage: storage_port "S3StorageService C bucket" "\<lambda>s. bucket_objects bucket (buckets s)" for bucket
proof (unfold_locales, goal_cases)
  case (1 k body ct s x s')
  then show ?case
    by (auto simp: S3StorageService_def bucket_objects_apply simp del: s3_apply.simps dest!: S3_run(1) send_ok)
next
  case (2 k body ct s e s')
  then show ?case
    by (auto simp: S3StorageService_def bucket_objects_apply simp del: s3_apply.simps dest!: S3_run(1) send_fail)
next
  case (3 k ttl s y s')
  then show ?case by (simp add: S3StorageService_def S3_getSignedUrl_def presign_frame)
next
  case (4 k s z s')
  then show ?case
    by (auto simp: S3StorageService_def bucket_objects_apply simp del: s3_apply.simps dest!: S3_run(2) send_ok)
next
  case (5 k s d s')
  then show ?case
    by (auto simp: S3StorageService_def bucket_objects_apply simp del: s3_apply.simps dest!: S3_run(2) send_fail)
qed

context s3
begin

text \<open>No call of the adapter leaves an object of the bucket unencrypted.\<close>

lemma put_encrypts: "keeps (\<lambda>s. all_encrypted b (buckets s)) (st_put (S3StorageService C b) k body ct)"
  by (auto simp: keeps_def S3StorageService_def all_encrypted_def dest!: S3_run(1) send_ok send_fail split: if_splits)

lemma url_encrypts: "keeps (\<lambda>s. all_encrypted b (buckets s)) (st_getSignedUrl (S3StorageService C b) k ttl)"
  by (auto simp: keeps_def S3StorageService_def S3_getSignedUrl_def presign_frame)

lemma delete_encrypts: "keeps (\<lambda>s. all_encrypted b (buckets s)) (st_delete (S3StorageService C b) k)"
  by (auto simp: keeps_def S3StorageService_def all_encrypted_def dest!: S3_run(2) send_ok send_fail split: if_splits)

end

text \<open>An S3 in memory.\<close>

definition mem_s3 :: "s3_view s3_client" where
  "mem_s3 = \<lparr>s3_send = (\<lambda>cmd v. (Inr (), s3_apply cmd v)), s3_presign = (\<lambda>cmd ttl v. (Inr ''https://s3'', v))\<rparr>"

interpretation mem_s3: s3 mem_s3 "\<lambda>v. v"
  by unfold_locales (auto simp: mem_s3_def)

section \<open>StorageModule\<close>

record s3_config =
  s3_region :: string
  s3_endpoint :: "string option"
  s3_forcePathStyle :: bool

definition buildS3Client :: "string option \<Rightarrow> string option \<Rightarrow> s3_config" where
  "buildS3Client AWS_S3_ENDPOINT AWS_REGION =
     \<lparr>s3_region = (case AWS_REGION of Some r \<Rightarrow> r | None \<Rightarrow> ''eu-west-3''),
      s3_endpoint = (if truthy_str AWS_S3_ENDPOINT then AWS_S3_ENDPOINT else None),
      s3_forcePathStyle = truthy_str AWS_S3_ENDPOINT\<rparr>"

definition storage_factory :: "(s3_config \<Rightarrow> 'o s3_client) \<Rightarrow> string option \<Rightarrow> string option \<Rightarrow> string option \<Rightarrow>
    exn + 'o storage_service" where
  "storage_factory newS3Client AWS_S3_BUCKET AWS_S3_ENDPOINT AWS_REGION =
     (if \<not> truthy_str AWS_S3_BUCKET then Inl LibraryError
      else Inr (S3StorageService (newS3Client (buildS3Client AWS_S3_ENDPOINT AWS_REGION)) (the AWS_S3_BUCKET)))"

end
