(* ===== verification/Certifications.thy ===== *)
theory Certifications
  imports Gear Storage
begin

text \<open>
  \<open>certifications/certification.service.ts\<close>, its DTOs and
  \<open>certifications/certification.controller.ts\<close>: the upload of a PDF certificate with its
  checks, the admin review with the purge of the document, the signed URLs.

  pdf-lib is a parameter; dates are milliseconds since the epoch, as in JavaScript.
\<close>

section \<open>Dates\<close>

text \<open>The civil date of a day number (days since 1970-01-01), in the proleptic Gregorian calendar.\<close>

definition civil_from_days :: "int \<Rightarrow> int \<times> int \<times> int" where
  "civil_from_days days = (let z = days + 719468; era = z div 146097; doe = z mod 146097;
      yoe = (doe - doe div 1460 + doe div 36524 - doe div 146096) div 365;
      doy = doe - (365 * yoe + yoe div 4 - yoe div 100); mp = (5 * doy + 2) div 153;
      d = doy - (153 * mp + 2) div 5 + 1; m = (if mp < 10 then mp + 3 else mp - 9)
    in (yoe + era * 400 + (if m \<le> 2 then 1 else 0), m, d))"

definition iso_year :: "int \<Rightarrow> string" where
  "iso_year y = (if 0 \<le> y \<and> y \<le> 9999 then pad_nat 4 (nat y)
     else (if y < 0 then ''-'' else ''+'') @ pad_nat 6 (nat (abs y)))"

text \<open>\<open>date.toISOString().slice(0, 10)\<close>; the part after the date begins with \<open>T\<close>.\<close>

definition toDateOnly :: "int \<Rightarrow> string" where
  "toDateOnly ms = (case civil_from_days (ms div 86400000) of (y, m, d) \<Rightarrow>
     take 10 (iso_year y @ ''-'' @ pad_nat 2 (nat m) @ ''-'' @ pad_nat 2 (nat d) @ ''T''))"

section \<open>DTOs\<close>

record UploadCertificationDto =
  uc_type :: CertificationType
  uc_number :: string
  uc_validUntil :: int

text \<open>\<open>now\<close> in milliseconds; an invalid date is \<open>None\<close>.\<close>

definition validate_UploadCertificationDto :: "int \<Rightarrow> CertificationType option \<Rightarrow> string option \<Rightarrow> int option \<Rightarrow>
    exn + UploadCertificationDto" where
  "validate_UploadCertificationDto now type number validUntil = (case (type, number, validUntil) of
     (Some t, Some n, Some v) \<Rightarrow>
       if n \<noteq> [] \<and> length n \<le> 100 \<and> now \<le> v
       then Inr \<lparr>uc_type = t, uc_number = n, uc_validUntil = v\<rparr>
       else Inl (BadRequest ValidationFailed)
   | _ \<Rightarrow> Inl (BadRequest ValidationFailed))"

definition CERT_REVIEW_DECISIONS :: "CertificationStatus list" where
  "CERT_REVIEW_DECISIONS = [CertificationStatus.VALIDATED, CertificationStatus.REJECTED]"

record ReviewCertificationDto =
  rc_decision :: CertificationStatus
  rc_validUntil :: "int option"

definition validate_ReviewCertificationDto :: "int \<Rightarrow> CertificationStatus option \<Rightarrow> int param \<Rightarrow>
    exn + ReviewCertificationDto" where
  "validate_ReviewCertificationDto now decision validUntil = (case decision of
     None \<Rightarrow> Inl (BadRequest ValidationFailed)
   | Some d \<Rightarrow> if d \<notin> set CERT_REVIEW_DECISIONS then Inl (BadRequest ValidationFailed)
       else (case validUntil of
           Absent \<Rightarrow> Inr \<lparr>rc_decision = d, rc_validUntil = None\<rparr>
         | Malformed \<Rightarrow> Inl (BadRequest ValidationFailed)
         | Given v \<Rightarrow> if now \<le> v then Inr \<lparr>rc_decision = d, rc_validUntil = Some v\<rparr>
             else Inl (BadRequest ValidationFailed)))"

record QueryCertificationDto =
  qc_status :: "CertificationStatus option"
  qc_page :: nat
  qc_limit :: nat

definition validate_QueryCertificationDto :: "CertificationStatus param \<Rightarrow> int param \<Rightarrow> int param \<Rightarrow>
    exn + QueryCertificationDto" where
  "validate_QueryCertificationDto status pg sz =
     (case (optional_param status, validate_page pg, validate_limit sz) of
        (Inr s, Inr p, Inr l) \<Rightarrow> Inr \<lparr>qc_status = s, qc_page = p, qc_limit = l\<rparr>
      | _ \<Rightarrow> Inl (BadRequest ValidationFailed))"

section \<open>The PDF library\<close>

datatype pdf_edit =
    SetTitle string | SetAuthor string | SetSubject string | SetKeywords "string list"
  | SetProducer string | SetCreator string | SetCreationDate int | SetModificationDate int
  | CatalogDelete string

text \<open>\<open>None\<close> is a call that throws.\<close>

record 'd pdf_lib =
  pdf_load :: "bytes \<Rightarrow> 'd option"
  pdf_edit :: "pdf_edit \<Rightarrow> 'd \<Rightarrow> 'd"
  pdf_save :: "'d \<Rightarrow> bytes option"

definition strip_edits :: "pdf_edit list" where
  "strip_edits = [SetTitle [], SetAuthor [], SetSubject [], SetKeywords [], SetProducer [], SetCreator [],
     SetCreationDate 0, SetModificationDate 0, CatalogDelete ''Metadata'']"

definition stripPdfMetadata :: "'d pdf_lib \<Rightarrow> bytes \<Rightarrow> exn + bytes" where
  "stripPdfMetadata P buffer = (case pdf_load P buffer of
     None \<Rightarrow> Inl (BadRequest UnreadablePdf)
   | Some doc \<Rightarrow> (case pdf_save P (fold (pdf_edit P) strip_edits doc) of
         None \<Rightarrow> Inl (BadRequest UnreadablePdf)
       | Some b \<Rightarrow> Inr b))"

section \<open>The service\<close>

record PublicCertification =
  pc_id :: string
  pc_freelanceId :: string
  pc_type :: CertificationType
  pc_number :: string
  pc_validUntil :: string
  pc_status :: CertificationStatus
  pc_mimeType :: string
  pc_uploadedAt :: nat
  pc_reviewedAt :: "nat option"
  pc_purgedAt :: "nat option"

definition toPublic :: "certification \<Rightarrow> PublicCertification" where
  "toPublic c = \<lparr>pc_id = c_id c, pc_freelanceId = c_freelanceId c, pc_type = c_type c, pc_number = c_number c,
     pc_validUntil = c_validUntil c, pc_status = c_status c, pc_mimeType = c_mimeType c,
     pc_uploadedAt = c_uploadedAt c, pc_reviewedAt = c_reviewedAt c, pc_purgedAt = c_purgedAt c\<rparr>"

definition PDF_MAGIC :: bytes where
  "PDF_MAGIC = [0x25, 0x50, 0x44, 0x46]"

definition isPdf :: "bytes \<Rightarrow> bool" where
  "isPdf buffer \<longleftrightarrow> 4 \<le> length buffer \<and> take 4 buffer = PDF_MAGIC"

text \<open>The environment of the service; \<open>maxFileMb\<close> and \<open>signedUrlTtl\<close> are read at each use.\<close>

definition maxFileMb :: "string option \<Rightarrow> int option" where
  "maxFileMb CERT_MAX_FILE_MB = js_parseInt (case CERT_MAX_FILE_MB of Some v \<Rightarrow> v | None \<Rightarrow> ''5'')"

definition signedUrlTtl :: "string option \<Rightarrow> int option" where
  "signedUrlTtl CERT_SIGNED_URL_TTL = js_parseInt (case CERT_SIGNED_URL_TTL of Some v \<Rightarrow> v | None \<Rightarrow> ''900'')"

text \<open>\<open>file.size > maxBytes\<close>, which is false when the limit is \<open>NaN\<close>.\<close>

definition too_large :: "string option \<Rightarrow> nat \<Rightarrow> bool" where
  "too_large env n = (case maxFileMb env of None \<Rightarrow> False | Some mb \<Rightarrow> int n > mb * 1024 * 1024)"

text \<open>The uploaded file: its bytes, absent when the part has no content, and its size.\<close>

record upload_file =
  f_buffer :: "bytes option"
  f_size :: nat

definition active_status :: "CertificationStatus \<Rightarrow> bool" where
  "active_status s \<longleftrightarrow> s \<in> {CertificationStatus.PENDING, CertificationStatus.VALIDATED}"

definition s3Key_of :: "string \<Rightarrow> string \<Rightarrow> string" where
  "s3Key_of freelanceId i = ''private/certifications/'' @ freelanceId @ ''/'' @ i @ ''.pdf''"

definition new_certification :: "string \<Rightarrow> string \<Rightarrow> UploadCertificationDto \<Rightarrow> nat \<Rightarrow> certification" where
  "new_certification freelanceId i dto uploadedAt = \<lparr>c_id = i, c_type = uc_type dto, c_number = uc_number dto,
     c_validUntil = toDateOnly (uc_validUntil dto), c_status = CertificationStatus.PENDING,
     c_s3Key = Some (s3Key_of freelanceId i), c_mimeType = ''application/pdf'', c_uploadedAt = uploadedAt,
     c_reviewedAt = None, c_purgedAt = None, c_freelanceId = freelanceId\<rparr>"

text \<open>The checks on the file, in the order of the code.\<close>

definition check_file :: "string option \<Rightarrow> upload_file option \<Rightarrow> exn + bytes" where
  "check_file env file = (case Option.bind file f_buffer of
     None \<Rightarrow> Inl (BadRequest FileMissing)
   | Some buffer \<Rightarrow>
       if too_large env (f_size (the file)) then Inl (BadRequest FileTooLarge)
       else if \<not> isPdf buffer then Inl (BadRequest NotAPdf) else Inr buffer)"

text \<open>\<open>i\<close> is the \<open>randomUUID()\<close> of the call.\<close>

definition uploadCertification :: "('c, certification) repo \<Rightarrow> 'o storage_service \<Rightarrow> 'd pdf_lib \<Rightarrow> string option \<Rightarrow> string \<Rightarrow>
    string \<Rightarrow> UploadCertificationDto \<Rightarrow> upload_file option \<Rightarrow> ('u, 'g, 'c, 'k, 'o, PublicCertification) app" where
  "uploadCertification C S P env i freelanceId dto file =
     bindP (liftE (check_file env file)) (\<lambda>buffer.
     bindP (atCerts (repo_findOne C (\<lambda>c. c_type c = uc_type dto \<and> c_number c = uc_number dto \<and>
        active_status (c_status c) \<and> c_freelanceId c \<noteq> freelanceId))) (\<lambda>duplicate.
     if duplicate \<noteq> None then throwP (Conflict DuplicateCertification) else
     bindP (liftE (stripPdfMetadata P buffer)) (\<lambda>cleaned.
     bindP (atObjects (st_put S (s3Key_of freelanceId i) cleaned ''application/pdf'')) (\<lambda>_.
     bindP (atCerts (repo_insert C (\<lambda>_ uploadedAt. new_certification freelanceId i dto uploadedAt))) (\<lambda>saved.
     returnP (toPublic saved))))))"

definition cert_order :: "certification \<Rightarrow> int list" where
  "cert_order c = [int (c_uploadedAt c)]"

definition paginate_certs :: "('c, certification) repo \<Rightarrow> (certification \<Rightarrow> bool) \<Rightarrow> QueryCertificationDto \<Rightarrow>
    ('u, 'g, 'c, 'k, 'o, PublicCertification paginated) app" where
  "paginate_certs C where_clause query =
     bindP (atCerts (repo_findAndCount C where_clause cert_order ((qc_page query - 1) * qc_limit query) (qc_limit query)))
     (\<lambda>(rows, n). returnP \<lparr>items = map toPublic rows, total = n, page = qc_page query, limit = qc_limit query\<rparr>)"

definition getMyCertifications :: "('c, certification) repo \<Rightarrow> string \<Rightarrow> QueryCertificationDto \<Rightarrow>
    ('u, 'g, 'c, 'k, 'o, PublicCertification paginated) app" where
  "getMyCertifications C freelanceId query = paginate_certs C (\<lambda>c. c_freelanceId c = freelanceId \<and>
     (\<forall>s. qc_status query = Some s \<longrightarrow> c_status c = s)) query"

definition listPendingCertifications :: "('c, certification) repo \<Rightarrow> QueryCertificationDto \<Rightarrow>
    ('u, 'g, 'c, 'k, 'o, PublicCertification paginated) app" where
  "listPendingCertifications C query = paginate_certs C (\<lambda>c. c_status c = CertificationStatus.PENDING) query"

definition getDocumentUrl :: "('c, certification) repo \<Rightarrow> 'o storage_service \<Rightarrow> string option \<Rightarrow> string \<Rightarrow> JwtPayload \<Rightarrow>
    ('u, 'g, 'c, 'k, 'o, string) app" where
  "getDocumentUrl C S env certId user =
     bindP (atCerts (repo_findOne C (\<lambda>c. c_id c = certId))) (\<lambda>found. case found of
       None \<Rightarrow> throwP (NotFound CertificationNotFound)
     | Some c \<Rightarrow>
         if p_role user = Some FREELANCE \<and> c_freelanceId c \<noteq> p_userId user then throwP (Forbidden DocumentForbidden)
         else if \<not> truthy_str (c_s3Key c) then throwP (NotFound DocumentPurged)
         else atObjects (st_getSignedUrl S (the (c_s3Key c)) (signedUrlTtl env)))"

text \<open>The decision on the entity; \<open>now\<close> is the second of both \<open>new Date()\<close> calls.\<close>

definition decide :: "nat \<Rightarrow> ReviewCertificationDto \<Rightarrow> certification \<Rightarrow> certification" where
  "decide now dto c = c\<lparr>c_status := rc_decision dto, c_reviewedAt := Some now,
     c_validUntil := (case rc_validUntil dto of Some v \<Rightarrow> toDateOnly v | None \<Rightarrow> c_validUntil c)\<rparr>"

text \<open>The purge of the document of an entity, if it has one.\<close>

definition purge :: "'o storage_service \<Rightarrow> nat \<Rightarrow> certification \<Rightarrow> ('u, 'g, 'c, 'k, 'o, certification) app" where
  "purge S now c =
     (if truthy_str (c_s3Key c)
      then bindP (atObjects (st_delete S (the (c_s3Key c)))) (\<lambda>_.
           returnP (c\<lparr>c_s3Key := None, c_purgedAt := Some now\<rparr>))
      else returnP c)"

definition reviewCertification :: "('c, certification) repo \<Rightarrow> 'o storage_service \<Rightarrow> nat \<Rightarrow> string \<Rightarrow> ReviewCertificationDto \<Rightarrow>
    ('u, 'g, 'c, 'k, 'o, PublicCertification) app" where
  "reviewCertification C S now certId dto =
     bindP (atCerts (repo_findOne C (\<lambda>c. c_id c = certId))) (\<lambda>found. case found of
       None \<Rightarrow> throwP (NotFound CertificationNotFound)
     | Some c \<Rightarrow>
         if c_status c \<noteq> CertificationStatus.PENDING then throwP (Conflict CertificationAlreadyReviewed) else
         bindP (purge S now (decide now dto c)) (\<lambda>purged.
         bindP (atCerts (repo_save C purged)) (\<lambda>saved. returnP (toPublic saved))))"

section \<open>The controller\<close>

definition UPLOAD_MEMORY_LIMIT_BYTES :: nat where
  "UPLOAD_MEMORY_LIMIT_BYTES = 10 * 1024 * 1024"

text \<open>\<open>FileInterceptor\<close>: multer cuts the stream above the limit, which Nest answers with 413.\<close>

definition file_interceptor :: "upload_file option \<Rightarrow> exn + upload_file option" where
  "file_interceptor file = (case file of
     None \<Rightarrow> Inr None
   | Some f \<Rightarrow> if f_size f > UPLOAD_MEMORY_LIMIT_BYTES then Inl (PayloadTooLarge FileTooLarge) else Inr (Some f))"

definition post_certification :: "jwt \<Rightarrow> ('c, certification) repo \<Rightarrow> 'o storage_service \<Rightarrow> 'd pdf_lib \<Rightarrow> string option \<Rightarrow>
    string \<Rightarrow> nat \<Rightarrow> int \<Rightarrow> string option \<Rightarrow> upload_file option \<Rightarrow> CertificationType option \<Rightarrow> string option \<Rightarrow> int option \<Rightarrow>
    ('u, 'g, 'c, 'k, 'o, PublicCertification) app" where
  "post_certification J C S P env i now ms auth file type number validUntil =
     roles_guarded J [FREELANCE] now auth (\<lambda>user.
     bindP (liftE (file_interceptor file)) (\<lambda>f.
     bindP (liftE (validate_UploadCertificationDto ms type number validUntil)) (\<lambda>dto.
     uploadCertification C S P env i (p_userId user) dto f)))"

definition get_certifications_me :: "jwt \<Rightarrow> ('c, certification) repo \<Rightarrow> nat \<Rightarrow> string option \<Rightarrow>
    CertificationStatus param \<Rightarrow> int param \<Rightarrow> int param \<Rightarrow> ('u, 'g, 'c, 'k, 'o, PublicCertification paginated) app" where
  "get_certifications_me J C now auth status pg sz =
     roles_guarded J [FREELANCE] now auth (\<lambda>user.
     bindP (liftE (validate_QueryCertificationDto status pg sz)) (\<lambda>query.
     getMyCertifications C (p_userId user) query))"

definition get_certifications_pending :: "jwt \<Rightarrow> ('c, certification) repo \<Rightarrow> nat \<Rightarrow> string option \<Rightarrow>
    CertificationStatus param \<Rightarrow> int param \<Rightarrow> int param \<Rightarrow> ('u, 'g, 'c, 'k, 'o, PublicCertification paginated) app" where
  "get_certifications_pending J C now auth status pg sz =
     roles_guarded J [ADMIN] now auth (\<lambda>user.
     bindP (liftE (validate_QueryCertificationDto status pg sz)) (\<lambda>query.
     listPendingCertifications C query))"

definition get_certification_document :: "jwt \<Rightarrow> (string \<Rightarrow> bool) \<Rightarrow> ('c, certification) repo \<Rightarrow> 'o storage_service \<Rightarrow>
    string option \<Rightarrow> nat \<Rightarrow> string option \<Rightarrow> string \<Rightarrow> ('u, 'g, 'c, 'k, 'o, string) app" where
  "get_certification_document J is_uuid C S env now auth i =
     roles_guarded J [FREELANCE, ADMIN] now auth (\<lambda>user.
     bindP (liftE (parse_uuid is_uuid i)) (\<lambda>cid.
     getDocumentUrl C S env cid user))"

definition patch_certification_review :: "jwt \<Rightarrow> (string \<Rightarrow> bool) \<Rightarrow> ('c, certification) repo \<Rightarrow> 'o storage_service \<Rightarrow>
    nat \<Rightarrow> int \<Rightarrow> string option \<Rightarrow> string \<Rightarrow> CertificationStatus option \<Rightarrow> int param \<Rightarrow>
    ('u, 'g, 'c, 'k, 'o, PublicCertification) app" where
  "patch_certification_review J is_uuid C S now ms auth i decision validUntil =
     roles_guarded J [ADMIN] now auth (\<lambda>user.
     bindP (liftE (parse_uuid is_uuid i)) (\<lambda>cid.
     bindP (liftE (validate_ReviewCertificationDto ms decision validUntil)) (\<lambda>dto.
     reviewCertification C S now cid dto)))"

section \<open>The service on lawful stores\<close>

text \<open>The rows that bar another account from declaring the same brevet.\<close>

definition declared_elsewhere :: "(string \<rightharpoonup> certification) \<Rightarrow> string \<Rightarrow> UploadCertificationDto \<Rightarrow> bool" where
  "declared_elsewhere t f dto \<longleftrightarrow> (\<exists>c \<in> ran t. c_type c = uc_type dto \<and> c_number c = uc_number dto \<and>
     active_status (c_status c) \<and> c_freelanceId c \<noteq> f)"

lemma check_file_Inr:
  "check_file env file = Inr buffer \<Longrightarrow> isPdf buffer \<and> (\<exists>f. file = Some f \<and> f_buffer f = Some buffer \<and> \<not> too_large env (f_size f))"
  by (cases "file") (auto simp: check_file_def split: option.splits if_splits)

lemma check_file_Inl:
  "check_file env file = Inl e \<Longrightarrow> e \<in> {BadRequest FileMissing, BadRequest FileTooLarge, BadRequest NotAPdf}"
  by (auto simp: check_file_def split: option.splits if_splits)

lemma stripPdfMetadata_Inl: "stripPdfMetadata P b = Inl e \<Longrightarrow> e = BadRequest UnreadablePdf"
  by (auto simp: stripPdfMetadata_def split: option.splits)

text \<open>A row after its review.\<close>

definition reviewed_row :: "nat \<Rightarrow> ReviewCertificationDto \<Rightarrow> certification \<Rightarrow> certification" where
  "reviewed_row now dto c = (if truthy_str (c_s3Key c)
     then (decide now dto c)\<lparr>c_s3Key := None, c_purgedAt := Some now\<rparr> else decide now dto c)"

lemma validate_review_Inr:
  "validate_ReviewCertificationDto ms d until = Inr dto \<Longrightarrow> rc_decision dto \<in> {CertificationStatus.VALIDATED, CertificationStatus.REJECTED} \<and>
     (\<forall>v. rc_validUntil dto = Some v \<longrightarrow> ms \<le> v)"
  by (auto simp: validate_ReviewCertificationDto_def CERT_REVIEW_DECISIONS_def split: option.splits param.splits if_splits)

locale cert_store = C: repository C tblc c_id + S: storage_port S objects
  for C :: "('c, certification) repo" and tblc :: "'c \<Rightarrow> string \<rightharpoonup> certification"
    and S :: "'o storage_service" and objects :: "'o \<Rightarrow> string \<rightharpoonup> bytes \<times> string"
begin

lemma find_cert:
  assumes "repo_findOne C (\<lambda>c. c_id c = i) s = (q, s')"
  shows "q = Inl LibraryError \<or> q = Inr (tblc s i)" and "tblc s' = tblc s"
  using assms C.findOne_error C.findOne_by_key C.findOne_frame by (cases q; fastforce)+

lemma find_duplicate:
  assumes "repo_findOne C (\<lambda>c. c_type c = uc_type dto \<and> c_number c = uc_number dto \<and>
      active_status (c_status c) \<and> c_freelanceId c \<noteq> f) s = (Inr d, s')"
  shows "d \<noteq> None \<longleftrightarrow> declared_elsewhere (tblc s) f dto"
proof (cases d)
  case None
  then show ?thesis
    using C.findOne_None [OF assms [unfolded None]] by (auto simp: declared_elsewhere_def ran_def)
next
  case (Some c)
  then show ?thesis
    using C.findOne_Some [OF assms [unfolded Some]] by (auto simp: declared_elsewhere_def ran_def)
qed

text \<open>The end of \<open>uploadCertification\<close>, once the body is clean.\<close>

lemma store_upload:
  assumes run: "bindP (atObjects (st_put S (s3Key_of f i) body ct)) (\<lambda>_.
      bindP (atCerts (repo_insert C (\<lambda>_ up. new_certification f i dto up))) (\<lambda>saved. returnP (toPublic saved))) w = (r, w')"
  obtains (failed) "r = Inl LibraryError" "tblc (aw_certs w') = tblc (aw_certs w)"
      "objects (aw_objects w') = objects (aw_objects w) \<or>
       objects (aw_objects w') = (objects (aw_objects w))(s3Key_of f i \<mapsto> (body, ct))"
  | (stored) up where "r = Inr (toPublic (new_certification f i dto up))"
      "tblc (aw_certs w') = (tblc (aw_certs w))(i \<mapsto> new_certification f i dto up)"
      "objects (aw_objects w') = (objects (aw_objects w))(s3Key_of f i \<mapsto> (body, ct))"
proof -
  obtain p o' where p: "st_put S (s3Key_of f i) body ct (aw_objects w) = (p, o')" by fastforce
  obtain z y where z: "repo_insert C (\<lambda>_ up. new_certification f i dto up) (aw_certs w) = (z, y)" by fastforce
  show thesis
  proof (cases p)
    case (Inl e)
    with run p S.put_fail [OF p [unfolded Inl]] show thesis
      by (intro failed) (auto simp: bindP_def atObjects_def liftP_def)
  next
    case put: (Inr u)
    note ok = S.put_ok [OF p [unfolded put]]
    show thesis
    proof (cases z)
      case (Inl e)
      with run p put ok z C.insert_error [OF z [unfolded Inl]] C.insert_frame [OF z [unfolded Inl]] show thesis
        by (intro failed) (auto simp: bindP_def atCerts_def atObjects_def liftP_def)
    next
      case (Inr c)
      obtain up where "c = new_certification f i dto up" "tblc y = (tblc (aw_certs w))(i \<mapsto> c)"
        using C.insert_row [OF z [unfolded Inr]] by (auto simp: new_certification_def)
      with run p put ok z Inr show thesis
        by (intro stored [of up]) (auto simp: bindP_def atCerts_def atObjects_def liftP_def returnP_def)
    qed
  qed
qed

text \<open>\<open>uploadCertification\<close> on every branch.\<close>

lemma upload_result:
  assumes run: "uploadCertification C S P env i f dto file w = (r, w')"
  obtains (refused) e where "r = Inl e" "tblc (aw_certs w') = tblc (aw_certs w)" "aw_objects w' = aw_objects w"
      "e = LibraryError \<or> check_file env file = Inl e \<or>
       (\<exists>buffer. check_file env file = Inr buffer \<and>
         (e = Conflict DuplicateCertification \<and> declared_elsewhere (tblc (aw_certs w)) f dto \<or>
          stripPdfMetadata P buffer = Inl e \<and> \<not> declared_elsewhere (tblc (aw_certs w)) f dto))"
  | (failed) buffer body where "r = Inl LibraryError" "tblc (aw_certs w') = tblc (aw_certs w)"
      "check_file env file = Inr buffer" "stripPdfMetadata P buffer = Inr body"
      "objects (aw_objects w') = objects (aw_objects w) \<or>
       objects (aw_objects w') = (objects (aw_objects w))(s3Key_of f i \<mapsto> (body, ''application/pdf''))"
  | (uploaded) buffer body up where "check_file env file = Inr buffer" "stripPdfMetadata P buffer = Inr body"
      "\<not> declared_elsewhere (tblc (aw_certs w)) f dto"
      "r = Inr (toPublic (new_certification f i dto up))"
      "tblc (aw_certs w') = (tblc (aw_certs w))(i \<mapsto> new_certification f i dto up)"
      "objects (aw_objects w') = (objects (aw_objects w))(s3Key_of f i \<mapsto> (body, ''application/pdf''))"
proof (cases "check_file env file")
  case (Inl e)
  with run show thesis by (intro refused [of e]) (simp_all add: uploadCertification_def)
next
  case buf: (Inr buffer)
  obtain q x where q: "repo_findOne C (\<lambda>c. c_type c = uc_type dto \<and> c_number c = uc_number dto \<and>
      active_status (c_status c) \<and> c_freelanceId c \<noteq> f) (aw_certs w) = (q, x)" by fastforce
  have tx: "tblc x = tblc (aw_certs w)" by (rule C.findOne_frame [OF q])
  consider e where "q = Inl e" | d where "q = Inr (Some d)" | e where "q = Inr None" "stripPdfMetadata P buffer = Inl e"
    | body where "q = Inr None" "stripPdfMetadata P buffer = Inr body"
    by (cases q; cases "stripPdfMetadata P buffer"; metis option.exhaust)
  then show thesis
  proof cases
    case (1 e)
    with run q tx buf C.findOne_error [OF q [unfolded 1]] show thesis
      by (intro refused [of LibraryError]) (auto simp: uploadCertification_def bindP_def atCerts_def liftP_def liftE_def)
  next
    case (2 d)
    with run q tx buf find_duplicate [OF q [unfolded 2]] show thesis
      by (intro refused [of "Conflict DuplicateCertification"])
        (auto simp: uploadCertification_def bindP_def atCerts_def liftP_def liftE_def throwP_def)
  next
    case (3 e)
    with run q tx buf find_duplicate [OF q [unfolded 3]] show thesis
      by (intro refused [of e]) (auto simp: uploadCertification_def bindP_def atCerts_def liftP_def liftE_def)
  next
    case (4 body)
    then have "bindP (atObjects (st_put S (s3Key_of f i) body ''application/pdf'')) (\<lambda>_.
      bindP (atCerts (repo_insert C (\<lambda>_ up. new_certification f i dto up))) (\<lambda>saved. returnP (toPublic saved)))
      (w\<lparr>aw_certs := x\<rparr>) = (r, w')"
      using run q buf by (simp add: uploadCertification_def bindP_def atCerts_def liftP_def liftE_def)
    then show thesis
      by (rule store_upload; use tx buf 4 find_duplicate [OF q [unfolded 4]] failed uploaded in simp)
  qed
qed

text \<open>The end of \<open>reviewCertification\<close>, for a pending row.\<close>

lemma purge_and_save:
  assumes run: "bindP (purge S now (decide now dto c)) (\<lambda>purged.
      bindP (atCerts (repo_save C purged)) (\<lambda>saved. returnP (toPublic saved))) w = (r, w')"
  obtains (failed) "r = Inl LibraryError" "tblc (aw_certs w') = tblc (aw_certs w)"
      "objects (aw_objects w') = objects (aw_objects w) \<or>
       truthy_str (c_s3Key c) \<and> objects (aw_objects w') = (objects (aw_objects w))(the (c_s3Key c) := None)"
  | (reviewed) "r = Inr (toPublic (reviewed_row now dto c))"
      "tblc (aw_certs w') = (tblc (aw_certs w))(c_id c \<mapsto> reviewed_row now dto c)"
      "objects (aw_objects w') = (if truthy_str (c_s3Key c)
         then (objects (aw_objects w))(the (c_s3Key c) := None) else objects (aw_objects w))"
proof -
  let ?row = "reviewed_row now dto c"
  obtain p o' where p: "st_delete S (the (c_s3Key c)) (aw_objects w) = (p, o')" by fastforce
  obtain z y where z: "repo_save C ?row (aw_certs w) = (z, y)" by fastforce
  have id: "c_id ?row = c_id c" by (simp add: reviewed_row_def decide_def)
  have objs: "p = Inr u \<Longrightarrow> objects o' = (objects (aw_objects w))(the (c_s3Key c) := None)" for u
    using S.delete_ok p by blast
  consider (del) e where "truthy_str (c_s3Key c)" "p = Inl e"
    | (save) e where "truthy_str (c_s3Key c) \<longrightarrow> (\<exists>u. p = Inr u)" "z = Inl e"
    | (ok) h where "truthy_str (c_s3Key c) \<longrightarrow> (\<exists>u. p = Inr u)" "z = Inr h"
    by (cases p; cases z; cases "truthy_str (c_s3Key c)") auto
  then show thesis
  proof cases
    case (del e)
    with run p S.delete_fail [OF p [unfolded del(2)]] show thesis
      by (intro failed) (auto simp: purge_def decide_def bindP_def atObjects_def liftP_def)
  next
    case (save e)
    with run p z objs C.save_error [OF z [unfolded save(2)]] C.save_frame [OF z [unfolded save(2)]] show thesis
      by (intro failed; cases "truthy_str (c_s3Key c)")
        (auto simp: purge_def decide_def reviewed_row_def bindP_def atObjects_def atCerts_def liftP_def returnP_def)
  next
    case (ok h)
    with run p z objs id C.save_row [OF z [unfolded ok(2)]] show thesis
      by (intro reviewed; cases "truthy_str (c_s3Key c)")
        (auto simp: purge_def decide_def reviewed_row_def bindP_def atObjects_def atCerts_def liftP_def returnP_def)
  qed
qed

text \<open>\<open>reviewCertification\<close> on every branch.\<close>

lemma review_result:
  assumes run: "reviewCertification C S now i dto w = (r, w')"
  obtains (refused) e where "r = Inl e" "tblc (aw_certs w') = tblc (aw_certs w)" "aw_objects w' = aw_objects w"
      "e = LibraryError \<or> e = NotFound CertificationNotFound \<and> tblc (aw_certs w) i = None \<or>
       (\<exists>c. tblc (aw_certs w) i = Some c \<and> e = Conflict CertificationAlreadyReviewed \<and>
          c_status c \<noteq> CertificationStatus.PENDING)"
  | (failed) c where "r = Inl LibraryError" "tblc (aw_certs w') = tblc (aw_certs w)"
      "tblc (aw_certs w) i = Some c" "c_status c = CertificationStatus.PENDING"
      "objects (aw_objects w') = objects (aw_objects w) \<or>
       truthy_str (c_s3Key c) \<and> objects (aw_objects w') = (objects (aw_objects w))(the (c_s3Key c) := None)"
  | (reviewed) c where "tblc (aw_certs w) i = Some c" "c_status c = CertificationStatus.PENDING"
      "r = Inr (toPublic (reviewed_row now dto c))"
      "tblc (aw_certs w') = (tblc (aw_certs w))(i \<mapsto> reviewed_row now dto c)"
      "objects (aw_objects w') = (if truthy_str (c_s3Key c)
         then (objects (aw_objects w))(the (c_s3Key c) := None) else objects (aw_objects w))"
proof -
  obtain q x where q: "repo_findOne C (\<lambda>c. c_id c = i) (aw_certs w) = (q, x)" by fastforce
  note fc = find_cert [OF q]
  consider "q = Inl LibraryError" | "q = Inr None" "tblc (aw_certs w) i = None"
    | c where "q = Inr (Some c)" "tblc (aw_certs w) i = Some c" "c_status c \<noteq> CertificationStatus.PENDING"
    | c where "q = Inr (Some c)" "tblc (aw_certs w) i = Some c" "c_status c = CertificationStatus.PENDING"
    using fc(1) by (cases "tblc (aw_certs w) i") auto
  then show thesis
  proof cases
    case 1
    with run q fc show thesis
      by (intro refused [of LibraryError]) (auto simp: reviewCertification_def bindP_def atCerts_def liftP_def)
  next
    case 2
    with run q fc show thesis
      by (intro refused [of "NotFound CertificationNotFound"])
        (auto simp: reviewCertification_def bindP_def atCerts_def liftP_def throwP_def)
  next
    case (3 c)
    with run q fc show thesis
      by (intro refused [of "Conflict CertificationAlreadyReviewed"])
        (auto simp: reviewCertification_def bindP_def atCerts_def liftP_def throwP_def)
  next
    case (4 c)
    then have "atCerts (repo_findOne C (\<lambda>c. c_id c = i)) w = (Inr (Some c), w\<lparr>aw_certs := x\<rparr>)"
      using q by (simp add: atCerts_def liftP_def)
    then have "bindP (purge S now (decide now dto c)) (\<lambda>purged.
        bindP (atCerts (repo_save C purged)) (\<lambda>saved. returnP (toPublic saved))) (w\<lparr>aw_certs := x\<rparr>) = (r, w')"
      using run 4 by (simp add: reviewCertification_def bindP_def [of "atCerts (repo_findOne C (\<lambda>c. c_id c = i))"])
    then show thesis
      by (rule purge_and_save; use fc 4 C.tbl_key [OF 4(2)] failed [of c] reviewed [of c] in simp)
  qed
qed

end

section \<open>Certificates over time\<close>

text \<open>
  Nobody shares a declared brevet with another account; only a pending row has a document, under
  the key of its owner and id; the document of a reviewed row is gone; whatever is stored went
  through the metadata strip.
\<close>

definition same_declarant :: "(string \<rightharpoonup> certification) \<Rightarrow> bool" where
  "same_declarant t \<longleftrightarrow> (\<forall>c \<in> ran t. \<forall>d \<in> ran t. c_type c = c_type d \<and> c_number c = c_number d \<and>
     active_status (c_status c) \<and> active_status (c_status d) \<longrightarrow> c_freelanceId c = c_freelanceId d)"

definition rows_ok :: "(string \<rightharpoonup> certification) \<Rightarrow> (string \<rightharpoonup> bytes \<times> string) \<Rightarrow> bool" where
  "rows_ok t objs \<longleftrightarrow> (\<forall>i c. t i = Some c \<longrightarrow> CHR 0x2F \<notin> set i \<and>
     c_s3Key c = (if c_status c = CertificationStatus.PENDING then Some (s3Key_of (c_freelanceId c) i) else None) \<and>
     (c_status c \<noteq> CertificationStatus.PENDING \<longrightarrow> objs (s3Key_of (c_freelanceId c) i) = None))"

definition stored_clean :: "'d pdf_lib \<Rightarrow> (string \<rightharpoonup> bytes \<times> string) \<Rightarrow> bool" where
  "stored_clean P objs \<longleftrightarrow> (\<forall>k body ct. objs k = Some (body, ct) \<longrightarrow>
     (\<exists>raw. isPdf raw \<and> stripPdfMetadata P raw = Inr body))"

definition certs_ok :: "'d pdf_lib \<Rightarrow> (string \<rightharpoonup> certification) \<Rightarrow> (string \<rightharpoonup> bytes \<times> string) \<Rightarrow> bool" where
  "certs_ok P t objs \<longleftrightarrow> same_declarant t \<and> rows_ok t objs \<and> stored_clean P objs"

lemma s3Key_of_inject:
  assumes "CHR 0x2F \<notin> set i" "CHR 0x2F \<notin> set j" "s3Key_of f i = s3Key_of g j"
  shows "f = g \<and> i = j"
proof -
  have "f @ CHR 0x2F # i = g @ CHR 0x2F # j" using assms(3) by (simp add: s3Key_of_def)
  then have "rev (f @ CHR 0x2F # i) = rev (g @ CHR 0x2F # j)" by (simp only:)
  then have eq: "rev i @ CHR 0x2F # rev f = rev j @ CHR 0x2F # rev g" by simp
  have tw: "takeWhile (\<lambda>c. c \<noteq> CHR 0x2F) (rev k @ CHR 0x2F # h) = rev k" if "CHR 0x2F \<notin> set k" for k h :: string
    using that by (subst takeWhile_append2) auto
  have "rev i = rev j" using tw [OF assms(1), of "rev f"] tw [OF assms(2), of "rev g"] eq by simp
  with eq show ?thesis by simp
qed

lemma s3Key_of_not_Nil [simp]: "s3Key_of f i \<noteq> []" "[] \<noteq> s3Key_of f i"
  by (simp_all add: s3Key_of_def)

lemma new_certification_fields [simp]:
  "c_id (new_certification f i dto up) = i" "c_freelanceId (new_certification f i dto up) = f"
  "c_status (new_certification f i dto up) = CertificationStatus.PENDING"
  "c_s3Key (new_certification f i dto up) = Some (s3Key_of f i)"
  "c_type (new_certification f i dto up) = uc_type dto" "c_number (new_certification f i dto up) = uc_number dto"
  by (simp_all add: new_certification_def)

lemma reviewed_row_fields [simp]:
  "c_id (reviewed_row now dto c) = c_id c" "c_freelanceId (reviewed_row now dto c) = c_freelanceId c"
  "c_status (reviewed_row now dto c) = rc_decision dto"
  "c_s3Key (reviewed_row now dto c) = (if truthy_str (c_s3Key c) then None else c_s3Key c)"
  "c_type (reviewed_row now dto c) = c_type c" "c_number (reviewed_row now dto c) = c_number c"
  by (simp_all add: reviewed_row_def decide_def)

lemma certs_ok_put:
  assumes "certs_ok P t objs" "isPdf buffer" "stripPdfMetadata P buffer = Inr body" "t i = None" "CHR 0x2F \<notin> set i"
  shows "certs_ok P t (objs(s3Key_of f i \<mapsto> (body, ct)))"
proof -
  have "s3Key_of f i \<noteq> s3Key_of (c_freelanceId c) j" if "t j = Some c" "CHR 0x2F \<notin> set j" for c j
    using that assms(4,5) s3Key_of_inject [of i j f "c_freelanceId c"] by auto
  then have "rows_ok t (objs(s3Key_of f i \<mapsto> (body, ct)))" using assms(1) by (fastforce simp: certs_ok_def rows_ok_def)
  moreover have "stored_clean P (objs(s3Key_of f i \<mapsto> (body, ct)))"
    using assms(1-3) by (auto simp: certs_ok_def stored_clean_def)
  ultimately show ?thesis using assms(1) by (simp add: certs_ok_def)
qed

lemma certs_ok_new:
  assumes "certs_ok P t objs" "t i = None" "CHR 0x2F \<notin> set i" "\<not> declared_elsewhere t f dto"
  shows "certs_ok P (t(i \<mapsto> new_certification f i dto up)) objs"
proof -
  have r: "ran (t(i \<mapsto> new_certification f i dto up)) = insert (new_certification f i dto up) (ran t)"
    using assms(2) by (rule ran_map_upd)
  have own: "c_freelanceId d = f" if "d \<in> ran t" "c_type d = uc_type dto" "c_number d = uc_number dto"
      "active_status (c_status d)" for d
    using that assms(4) by (auto simp: declared_elsewhere_def)
  have sd: "c_type x = c_type y \<Longrightarrow> c_number x = c_number y \<Longrightarrow> active_status (c_status x) \<Longrightarrow>
      active_status (c_status y) \<Longrightarrow> c_freelanceId x = c_freelanceId y" if "x \<in> ran t" "y \<in> ran t" for x y
    using assms(1) that unfolding certs_ok_def same_declarant_def by blast
  have "same_declarant (t(i \<mapsto> new_certification f i dto up))"
    unfolding same_declarant_def r
  proof (intro ballI impI, elim insertE)
    fix x y assume "x \<in> ran t" "y \<in> ran t" "c_type x = c_type y \<and> c_number x = c_number y \<and>
      active_status (c_status x) \<and> active_status (c_status y)"
    then show "c_freelanceId x = c_freelanceId y" by (blast intro: sd)
  qed (use own in simp_all)
  moreover have "rows_ok (t(i \<mapsto> new_certification f i dto up)) objs"
    using assms(1,3) by (auto simp: certs_ok_def rows_ok_def)
  ultimately show ?thesis using assms(1) by (simp add: certs_ok_def)
qed

lemma certs_ok_delete:
  assumes "certs_ok P t objs" shows "certs_ok P t (objs(k := None))"
  using assms by (fastforce simp: certs_ok_def rows_ok_def stored_clean_def)

lemma certs_ok_reviewed:
  assumes ok: "certs_ok P t objs" and c: "t i = Some c" "c_status c = CertificationStatus.PENDING"
    and gone: "objs (s3Key_of (c_freelanceId c) i) = None" and dec: "rc_decision dto \<noteq> CertificationStatus.PENDING"
  shows "certs_ok P (t(i \<mapsto> reviewed_row now dto c)) objs"
proof -
  have ran: "c \<in> ran t" using c(1) by (auto simp: ran_def)
  have key: "c_s3Key c = Some (s3Key_of (c_freelanceId c) i)" using ok c by (auto simp: certs_ok_def rows_ok_def)
  have "same_declarant (t(i \<mapsto> reviewed_row now dto c))"
    unfolding same_declarant_def
  proof (intro ballI impI)
    fix x y assume xy: "x \<in> ran (t(i \<mapsto> reviewed_row now dto c))" "y \<in> ran (t(i \<mapsto> reviewed_row now dto c))"
      and eq: "c_type x = c_type y \<and> c_number x = c_number y \<and> active_status (c_status x) \<and> active_status (c_status y)"
    have old: "\<exists>z \<in> ran t. c_type z = c_type x \<and> c_number z = c_number x \<and> c_freelanceId z = c_freelanceId x \<and>
        active_status (c_status z)" if "x \<in> ran (t(i \<mapsto> reviewed_row now dto c))" "active_status (c_status x)" for x
      using that c ran by (auto simp: ran_def active_status_def split: if_splits)
    from old [OF xy(1)] old [OF xy(2)] eq ok show "c_freelanceId x = c_freelanceId y"
      unfolding certs_ok_def same_declarant_def by metis
  qed
  moreover have "rows_ok (t(i \<mapsto> reviewed_row now dto c)) objs"
    using ok c gone dec key by (auto simp: certs_ok_def rows_ok_def truthy_str_def)
  ultimately show ?thesis using ok by (simp add: certs_ok_def)
qed

text \<open>
  A step of the system as far as the certificates are concerned: a request to a route that writes
  them (the generated UUID is new and has no slash), one that signs a URL, or anything that leaves
  the table and the storage alone.
\<close>

inductive cert_step :: "jwt \<Rightarrow> (string \<Rightarrow> bool) \<Rightarrow> ('c, certification) repo \<Rightarrow> ('c \<Rightarrow> string \<rightharpoonup> certification) \<Rightarrow>
    'o storage_service \<Rightarrow> 'd pdf_lib \<Rightarrow> ('u, 'g, 'c, 'k, 'o) app_world \<Rightarrow> ('u, 'g, 'c, 'k, 'o) app_world \<Rightarrow> bool"
  for J is_uuid C tblc S P where
  upload: "tblc (aw_certs w) i = None \<Longrightarrow> CHR 0x2F \<notin> set i \<Longrightarrow>
    post_certification J C S P env i now ms auth file ty num until w = (r, w') \<Longrightarrow> cert_step J is_uuid C tblc S P w w'"
| review: "patch_certification_review J is_uuid C S now ms auth j d until' w = (r, w') \<Longrightarrow> cert_step J is_uuid C tblc S P w w'"
| document: "get_certification_document J is_uuid C S env now auth j w = (ru, w') \<Longrightarrow> cert_step J is_uuid C tblc S P w w'"
| other: "tblc (aw_certs w') = tblc (aw_certs w) \<Longrightarrow> aw_objects w' = aw_objects w \<Longrightarrow> cert_step J is_uuid C tblc S P w w'"

context cert_store
begin

text \<open>\<open>getDocumentUrl\<close> on every branch.\<close>

lemma url_result:
  assumes run: "getDocumentUrl C S env i user w = (r, w')"
  obtains (refused) e where "r = Inl e" "tblc (aw_certs w') = tblc (aw_certs w)" "aw_objects w' = aw_objects w"
      "e = LibraryError \<or> e = NotFound CertificationNotFound \<and> tblc (aw_certs w) i = None \<or>
       (\<exists>c. tblc (aw_certs w) i = Some c \<and>
         (e = Forbidden DocumentForbidden \<and> p_role user = Some FREELANCE \<and> c_freelanceId c \<noteq> p_userId user \<or>
          e = NotFound DocumentPurged \<and> \<not> truthy_str (c_s3Key c)))"
  | (signed) c where "tblc (aw_certs w) i = Some c" "truthy_str (c_s3Key c)"
      "p_role user = Some FREELANCE \<longrightarrow> c_freelanceId c = p_userId user"
      "st_getSignedUrl S (the (c_s3Key c)) (signedUrlTtl env) (aw_objects w) = (r, aw_objects w')"
      "tblc (aw_certs w') = tblc (aw_certs w)" "objects (aw_objects w') = objects (aw_objects w)"
proof -
  obtain q x where q: "repo_findOne C (\<lambda>c. c_id c = i) (aw_certs w) = (q, x)" by fastforce
  note fc = find_cert [OF q]
  consider "q = Inl LibraryError" | "q = Inr None" "tblc (aw_certs w) i = None"
    | c where "q = Inr (Some c)" "tblc (aw_certs w) i = Some c" "p_role user = Some FREELANCE \<and> c_freelanceId c \<noteq> p_userId user"
    | c where "q = Inr (Some c)" "tblc (aw_certs w) i = Some c" "\<not> (p_role user = Some FREELANCE \<and> c_freelanceId c \<noteq> p_userId user)"
        "\<not> truthy_str (c_s3Key c)"
    | c where "q = Inr (Some c)" "tblc (aw_certs w) i = Some c" "\<not> (p_role user = Some FREELANCE \<and> c_freelanceId c \<noteq> p_userId user)"
        "truthy_str (c_s3Key c)"
    using fc(1) by (cases "tblc (aw_certs w) i") auto
  then show thesis
  proof cases
    case 1
    with run q fc show thesis
      by (intro refused [of LibraryError]) (auto simp: getDocumentUrl_def bindP_def atCerts_def liftP_def)
  next
    case 2
    with run q fc show thesis
      by (intro refused [of "NotFound CertificationNotFound"])
        (auto simp: getDocumentUrl_def bindP_def atCerts_def liftP_def throwP_def)
  next
    case (3 c)
    with run q fc show thesis
      by (intro refused [of "Forbidden DocumentForbidden"])
        (auto simp: getDocumentUrl_def bindP_def atCerts_def liftP_def throwP_def)
  next
    case (4 c)
    with run q fc show thesis
      by (intro refused [of "NotFound DocumentPurged"])
        (auto simp: getDocumentUrl_def bindP_def atCerts_def liftP_def throwP_def)
  next
    case (5 c)
    obtain p o' where p: "st_getSignedUrl S (the (c_s3Key c)) (signedUrlTtl env) (aw_objects w) = (p, o')" by fastforce
    with run q fc 5 S.url_frame [OF p] show thesis
      by (intro signed [of c]) (auto simp: getDocumentUrl_def bindP_def atCerts_def atObjects_def liftP_def)
  qed
qed

lemma upload_keeps:
  assumes ok: "certs_ok P (tblc (aw_certs w)) (objects (aw_objects w))"
    and i: "tblc (aw_certs w) i = None" "CHR 0x2F \<notin> set i"
    and run: "uploadCertification C S P env i f dto file w = (r, w')"
  shows "certs_ok P (tblc (aw_certs w')) (objects (aw_objects w'))"
  using run
proof (cases rule: upload_result)
  case (refused e)
  with ok show ?thesis by simp
next
  case (failed buffer body)
  note put = certs_ok_put [OF ok conjunct1 [OF check_file_Inr [OF failed(3)]] failed(4) i]
  from failed ok put show ?thesis by auto
next
  case (uploaded buffer body up)
  note put = certs_ok_put [OF ok conjunct1 [OF check_file_Inr [OF uploaded(1)]] uploaded(2) i]
  from uploaded certs_ok_new [OF put i uploaded(3)] show ?thesis by simp
qed

lemma review_keeps:
  assumes ok: "certs_ok P (tblc (aw_certs w)) (objects (aw_objects w))"
    and dec: "validate_ReviewCertificationDto ms d until = Inr dto"
    and run: "reviewCertification C S now i dto w = (r, w')"
  shows "certs_ok P (tblc (aw_certs w')) (objects (aw_objects w'))"
  using run
proof (cases rule: review_result)
  case (refused e)
  with ok show ?thesis by simp
next
  case (failed c)
  with ok certs_ok_delete [OF ok] show ?thesis by auto
next
  case (reviewed c)
  then have key: "c_s3Key c = Some (s3Key_of (c_freelanceId c) i)" using ok by (auto simp: certs_ok_def rows_ok_def)
  have "certs_ok P ((tblc (aw_certs w))(i \<mapsto> reviewed_row now dto c))
      ((objects (aw_objects w))(s3Key_of (c_freelanceId c) i := None))"
    using reviewed validate_review_Inr [OF dec] by (intro certs_ok_reviewed certs_ok_delete ok) auto
  with reviewed key show ?thesis by (simp add: truthy_str_def)
qed

lemma cert_step_keeps:
  assumes ok: "certs_ok P (tblc (aw_certs w)) (objects (aw_objects w))" and step: "cert_step J is_uuid C tblc S P w w'"
  shows "certs_ok P (tblc (aw_certs w')) (objects (aw_objects w'))"
  using step
proof (cases rule: cert_step.cases)
  case (upload i env now ms auth f ty num until r)
  from upload ok show ?thesis
    unfolding post_certification_def by (auto elim!: roles_guarded_cases bindP_liftE_cases intro: upload_keeps)
next
  case (review now ms auth j d until r)
  from review ok show ?thesis
    unfolding patch_certification_review_def
    by (auto elim!: roles_guarded_cases bindP_liftE_cases intro: review_keeps)
next
  case (document env now auth j r)
  from document ok show ?thesis
    unfolding get_certification_document_def by (auto elim!: roles_guarded_cases bindP_liftE_cases url_result)
next
  case other
  with ok show ?thesis by simp
qed

lemma cert_steps_keep:
  "(cert_step J is_uuid C tblc S P)\<^sup>*\<^sup>* w w' \<Longrightarrow> certs_ok P (tblc (aw_certs w)) (objects (aw_objects w)) \<Longrightarrow>
     certs_ok P (tblc (aw_certs w')) (objects (aw_objects w'))"
  by (induction rule: rtranclp_induct) (auto intro: cert_step_keeps)

end

lemma certs_ok_empty: "certs_ok P Map.empty Map.empty"
  by (simp add: certs_ok_def same_declarant_def rows_ok_def stored_clean_def)

interpretation mem_certs: cert_store "certifications_table ids" "mem_tbl c_id" FakeStorageService "\<lambda>s. s" for ids
  ..

interpretation s3_certs: cert_store "certifications_table ids" "mem_tbl c_id" "S3StorageService mem_s3 b" "bucket_objects b" for ids b
  ..

section \<open>Properties\<close>

text \<open>A PDF library for the witnesses: a document is its bytes, removing the catalogue entry truncates them.\<close>

definition mem_pdf :: "bytes pdf_lib" where
  "mem_pdf = \<lparr>pdf_load = (\<lambda>b. if b = [] then None else Some b),
     pdf_edit = (\<lambda>e d. case e of CatalogDelete _ \<Rightarrow> take 5 d | _ \<Rightarrow> d), pdf_save = Some\<rparr>"

definition pdf_bytes :: bytes where "pdf_bytes = [0x25, 0x50, 0x44, 0x46, 1, 2, 3]"

definition pdf_file :: "upload_file option" where
  "pdf_file = Some \<lparr>f_buffer = Some pdf_bytes, f_size = 7\<rparr>"

definition cert_world :: "certification list \<Rightarrow> 'o \<Rightarrow> (unit, unit, certification list, unit, 'o) app_world" where
  "cert_world cs objs = \<lparr>aw_users = (), aw_gear = (), aw_certs = cs, aw_redis = (), aw_objects = objs\<rparr>"

definition dto1 :: UploadCertificationDto where
  "dto1 = \<lparr>uc_type = DGAC_DRONE, uc_number = ''N1'', uc_validUntil = 50\<rparr>"

lemma cert_world_fields [simp]: "aw_certs (cert_world cs objs) = cs" "aw_objects (cert_world cs objs) = objs"
  by (simp_all add: cert_world_def)

lemma pdf_file_passes:
  "file_interceptor pdf_file = Inr pdf_file" "check_file None pdf_file = Inr pdf_bytes"
  "stripPdfMetadata mem_pdf pdf_bytes = Inr [0x25, 0x50, 0x44, 0x46, 1]"
proof -
  have "js_parseInt ''5'' = Some 5" by (simp add: js_parseInt_def is_js_space_def is_decimal_def decimal_value_def)
  then show "check_file None pdf_file = Inr pdf_bytes"
    by (simp add: check_file_def pdf_file_def too_large_def maxFileMb_def isPdf_def PDF_MAGIC_def pdf_bytes_def)
qed (simp_all add: file_interceptor_def pdf_file_def UPLOAD_MEMORY_LIMIT_BYTES_def stripPdfMetadata_def mem_pdf_def
    strip_edits_def pdf_bytes_def)

lemma upload_runs:
  "post_certification mem_jwt (certifications_table {''f1''}) FakeStorageService mem_pdf None ''c1'' 10 20
     (bearer ''f1'' FREELANCE) pdf_file (Some DGAC_DRONE) (Some ''N1'') (Some 50) (cert_world [] Map.empty) =
   (Inr (toPublic (new_certification ''f1'' ''c1'' dto1 0)),
    cert_world [new_certification ''f1'' ''c1'' dto1 0]
      [s3Key_of ''f1'' ''c1'' \<mapsto> ([0x25, 0x50, 0x44, 0x46, 1], ''application/pdf'')])"
  by (simp add: post_certification_def roles_guarded_passes [OF bearer_ok] pdf_file_passes validate_UploadCertificationDto_def
      dto1_def [symmetric] uploadCertification_def bindP_def liftE_def atCerts_def atObjects_def liftP_def returnP_def
      table_run table_rows FakeStorageService_def Fake_put_def cert_world_def)

text \<open>
  Certificates over time. Starting from an empty table and an empty storage, after any
  sequence of requests to the routes of the controller, one after the other (any tokens, bodies
  and files, failures of the database and of the storage included): no brevet is declared (pending
  or validated) on two accounts; a reviewed certificate has no storage key and its document is no
  longer stored; and everything that is stored came out of the metadata strip of a file that
  begins with the magic bytes of a PDF.
\<close>

theorem certificates_invariant:
  assumes "repository C tblc c_id" "storage_port S objects"
    and "tblc (aw_certs w0) = Map.empty" "objects (aw_objects w0) = Map.empty"
    and "(cert_step J is_uuid C tblc S P)\<^sup>*\<^sup>* w0 w"
  shows "(\<forall>c \<in> ran (tblc (aw_certs w)). \<forall>d \<in> ran (tblc (aw_certs w)).
        c_type c = c_type d \<and> c_number c = c_number d \<and> active_status (c_status c) \<and> active_status (c_status d) \<longrightarrow>
        c_freelanceId c = c_freelanceId d) \<and>
    (\<forall>i c. tblc (aw_certs w) i = Some c \<and> c_status c \<noteq> CertificationStatus.PENDING \<longrightarrow>
        c_s3Key c = None \<and> objects (aw_objects w) (s3Key_of (c_freelanceId c) i) = None) \<and>
    (\<forall>k body ct. objects (aw_objects w) k = Some (body, ct) \<longrightarrow>
        (\<exists>raw. isPdf raw \<and> stripPdfMetadata P raw = Inr body))"
proof -
  have cs: "cert_store C tblc S objects" using assms(1,2) by (rule cert_store.intro)
  have "certs_ok P (tblc (aw_certs w)) (objects (aw_objects w))"
    using cert_store.cert_steps_keep [OF cs assms(5)] certs_ok_empty [of P] assms(3,4) by simp
  then have ok: "same_declarant (tblc (aw_certs w))" "rows_ok (tblc (aw_certs w)) (objects (aw_objects w))"
      "stored_clean P (objects (aw_objects w))"
    by (simp_all add: certs_ok_def)
  show ?thesis
  proof (intro conjI, goal_cases)
    case 1
    show ?case by (rule ok(1) [unfolded same_declarant_def])
  next
    case 2
    show ?case using ok(2) by (auto simp: rows_ok_def)
  next
    case 3
    show ?case by (rule ok(3) [unfolded stored_clean_def])
  qed
qed

theorem certificates_invariant_witness:
  "\<exists>raw. isPdf raw \<and> stripPdfMetadata mem_pdf raw = Inr [0x25, 0x50, 0x44, 0x46, 1]"
proof -
  let ?w = "cert_world [new_certification ''f1'' ''c1'' dto1 0]
      [s3Key_of ''f1'' ''c1'' \<mapsto> ([0x25, 0x50, 0x44, 0x46, 1], ''application/pdf'')]"
  have "cert_step mem_jwt (\<lambda>s. True) (certifications_table {''f1''}) (mem_tbl c_id) FakeStorageService mem_pdf
      (cert_world [] Map.empty) ?w"
    by (rule cert_step.upload [OF _ _ upload_runs]) (simp_all add: mem_tbl_def)
  then have "(cert_step mem_jwt (\<lambda>s. True) (certifications_table {''f1''}) (mem_tbl c_id) FakeStorageService mem_pdf)\<^sup>*\<^sup>*
      (cert_world [] Map.empty) ?w" by (rule r_into_rtranclp)
  from certificates_invariant [OF certifications_tbl.repository_axioms fake.storage_port_axioms _ _ this]
  show ?thesis by (simp add: mem_tbl_def)
qed

text \<open>
  C16. Upload. The upload route stores and records something only for a freelance, for a
  file of at most 10 MiB and within the configured limit whose first bytes are those of a PDF, a
  validity that is not in the past and a brevet that no other account declares; what it stores is
  the stripped document under a key of this freelance and of the new id, and the row is pending.
  A refused request leaves the table alone, and the storage too unless the failure came from the
  database after the document was written.
\<close>

theorem upload_route_correct:
  assumes "repository C tblc c_id" "storage_port S objects"
    and run: "post_certification J C S P env i now ms auth f ty num until w = (r, w')"
  shows "case r of
      Inl e \<Rightarrow> tblc (aw_certs w') = tblc (aw_certs w) \<and>
        (e = LibraryError \<or> objects (aw_objects w') = objects (aw_objects w))
    | Inr v \<Rightarrow> \<exists>user dto x buffer body up. JwtAuthGuard_canActivate J now auth = Inr user \<and> p_role user = Some FREELANCE \<and>
        f = Some x \<and> f_buffer x = Some buffer \<and> f_size x \<le> 10485760 \<and> \<not> too_large env (f_size x) \<and> isPdf buffer \<and>
        Some (uc_type dto) = ty \<and> Some (uc_number dto) = num \<and> Some (uc_validUntil dto) = until \<and> ms \<le> uc_validUntil dto \<and>
        \<not> declared_elsewhere (tblc (aw_certs w)) (p_userId user) dto \<and> stripPdfMetadata P buffer = Inr body \<and>
        v = toPublic (new_certification (p_userId user) i dto up) \<and>
        tblc (aw_certs w') = (tblc (aw_certs w))(i \<mapsto> new_certification (p_userId user) i dto up) \<and>
        objects (aw_objects w') = (objects (aw_objects w))(s3Key_of (p_userId user) i \<mapsto> (body, ''application/pdf''))"
proof -
  have cs: "cert_store C tblc S objects" using assms(1,2) by (rule cert_store.intro)
  have ne: "[FREELANCE] \<noteq> []" by simp
  from run [unfolded post_certification_def] ne show ?thesis
  proof (cases rule: roles_guarded_cases)
    case (1 e)
    then show ?thesis by simp
  next
    case (2 user q)
    from 2(4) show ?thesis
    proof (cases rule: bindP_liftE_cases)
      case (1 e)
      then show ?thesis by simp
    next
      case fi: (2 f')
      from fi(2) show ?thesis
      proof (cases rule: bindP_liftE_cases)
        case (1 e)
        then show ?thesis by simp
      next
        case dto: (2 dto)
        have f': "f' = f" and size: "\<And>x. f = Some x \<Longrightarrow> f_size x \<le> 10485760"
          using fi(1) by (auto simp: file_interceptor_def UPLOAD_MEMORY_LIMIT_BYTES_def split: option.splits if_splits)
        have d: "Some (uc_type dto) = ty \<and> Some (uc_number dto) = num \<and> Some (uc_validUntil dto) = until \<and> ms \<le> uc_validUntil dto"
          using dto(1) by (auto simp: validate_UploadCertificationDto_def split: option.splits if_splits)
        from dto(2) show ?thesis
        proof (cases rule: cert_store.upload_result [OF cs, consumes 1, case_names refused failed uploaded])
          case (uploaded buffer body up)
          obtain x where "f = Some x" "f_buffer x = Some buffer" "\<not> too_large env (f_size x)" "isPdf buffer"
            using check_file_Inr [OF uploaded(1)] f' by blast
          with size f' uploaded d 2(1,2,3) show ?thesis
            by (simp, intro exI [of _ dto] conjI exI [of _ up]) simp_all
        qed auto
      qed
    qed
  qed
qed

theorem upload_route_correct_witness:
  "fst (post_certification mem_jwt (certifications_table {''f1''}) FakeStorageService mem_pdf None ''c1'' 10 20
     (bearer ''f1'' FREELANCE) pdf_file (Some DGAC_DRONE) (Some ''N1'') (Some 50) (cert_world [] Map.empty)) =
     Inr (toPublic (new_certification ''f1'' ''c1'' dto1 0)) \<and>
   (\<exists>x. pdf_file = Some x \<and> \<not> too_large None (f_size x))"
  using upload_route_correct [OF certifications_tbl.repository_axioms fake.storage_port_axioms upload_runs]
  by (auto simp: upload_runs)

text \<open>
  C17. Review and purge. The review route returns only for an admin and a certificate that was
  pending; the row gets the decision, the date of the review and no storage key, and its document
  is deleted. From then on a second review, whatever it decides, is refused, and nobody gets a URL
  for the document any more.
\<close>

theorem review_purges_document:
  assumes "repository C tblc c_id" "storage_port S objects"
    and run: "patch_certification_review J is_uuid C S now ms auth i d until w = (Inr v, w')"
    and again: "reviewCertification C S now' i dto' w' = (r, w1)"
    and url: "getDocumentUrl C S env i user' w' = (ru, w2)"
  shows "\<exists>user c dto. JwtAuthGuard_canActivate J now auth = Inr user \<and> p_role user = Some ADMIN \<and>
      tblc (aw_certs w) i = Some c \<and> c_status c = CertificationStatus.PENDING \<and>
      d = Some (rc_decision dto) \<and> rc_decision dto \<in> {CertificationStatus.VALIDATED, CertificationStatus.REJECTED} \<and>
      v = toPublic (reviewed_row now dto c) \<and> tblc (aw_certs w') = (tblc (aw_certs w))(i \<mapsto> reviewed_row now dto c) \<and>
      \<not> truthy_str (c_s3Key (reviewed_row now dto c)) \<and>
      (truthy_str (c_s3Key c) \<longrightarrow> objects (aw_objects w') = (objects (aw_objects w))(the (c_s3Key c) := None)) \<and>
      r \<in> {Inl (Conflict CertificationAlreadyReviewed), Inl LibraryError} \<and>
      tblc (aw_certs w1) = tblc (aw_certs w') \<and> aw_objects w1 = aw_objects w' \<and>
      ru \<in> {Inl (NotFound DocumentPurged), Inl (Forbidden DocumentForbidden), Inl LibraryError}"
proof -
  have cs: "cert_store C tblc S objects" using assms(1,2) by (rule cert_store.intro)
  have ne: "[ADMIN] \<noteq> []" by simp
  obtain user where user: "JwtAuthGuard_canActivate J now auth = Inr user" "p_role user = Some ADMIN"
    and rest: "bindP (liftE (parse_uuid is_uuid i)) (\<lambda>cid. bindP (liftE (validate_ReviewCertificationDto ms d until)) (\<lambda>dto.
       reviewCertification C S now cid dto)) w = (Inr v, w')"
    by (rule roles_guarded_Inr [OF run [unfolded patch_certification_review_def] ne]) auto
  then obtain dto where dto: "validate_ReviewCertificationDto ms d until = Inr dto"
    and rv: "reviewCertification C S now i dto w = (Inr v, w')"
    by (cases "validate_ReviewCertificationDto ms d until") (auto simp: bindP_Inr_iff parse_uuid_def split: if_splits)
  have dec: "d = Some (rc_decision dto)" "rc_decision dto \<in> {CertificationStatus.VALIDATED, CertificationStatus.REJECTED}"
    using dto validate_review_Inr [OF dto]
    by (auto simp: validate_ReviewCertificationDto_def split: option.splits if_splits param.splits)
  obtain c where c: "tblc (aw_certs w) i = Some c" "c_status c = CertificationStatus.PENDING"
      "v = toPublic (reviewed_row now dto c)" "tblc (aw_certs w') = (tblc (aw_certs w))(i \<mapsto> reviewed_row now dto c)"
      "objects (aw_objects w') = (if truthy_str (c_s3Key c)
         then (objects (aw_objects w))(the (c_s3Key c) := None) else objects (aw_objects w))"
    by (rule cert_store.review_result [OF cs rv]) auto
  have row: "tblc (aw_certs w') i = Some (reviewed_row now dto c)" "c_status (reviewed_row now dto c) \<noteq> CertificationStatus.PENDING"
    using c(4) dec(2) by auto
  have key: "\<not> truthy_str (c_s3Key (reviewed_row now dto c))" by (simp add: truthy_str_def)
  have "r \<in> {Inl (Conflict CertificationAlreadyReviewed), Inl LibraryError} \<and>
      tblc (aw_certs w1) = tblc (aw_certs w') \<and> aw_objects w1 = aw_objects w'"
    by (rule cert_store.review_result [OF cs again]) (use row in auto)
  moreover have "ru \<in> {Inl (NotFound DocumentPurged), Inl (Forbidden DocumentForbidden), Inl LibraryError}"
    by (rule cert_store.url_result [OF cs url]) (use row(1) key in auto)
  ultimately show ?thesis
    using user c dec key by (intro exI [of _ user] exI [of _ c] exI [of _ dto]) simp
qed

text \<open>The world after the upload of \<open>upload_runs\<close>, and its document at both adapters.\<close>

definition uploaded_row :: certification where
  "uploaded_row = new_certification ''f1'' ''c1'' dto1 0"

lemma uploaded_row_fields [simp]:
  "c_id uploaded_row = ''c1''" "c_freelanceId uploaded_row = ''f1''" "c_status uploaded_row = CertificationStatus.PENDING"
  "c_s3Key uploaded_row = Some (s3Key_of ''f1'' ''c1'')"
  by (simp_all add: uploaded_row_def)

theorem review_purges_document_witness:
  "let w = cert_world [uploaded_row] [s3Key_of ''f1'' ''c1'' \<mapsto> ([], ''application/pdf'')];
       w' = snd (patch_certification_review mem_jwt (\<lambda>s. True) (certifications_table {''f1''}) FakeStorageService 10 20
              (bearer ''a1'' ADMIN) ''c1'' (Some CertificationStatus.REJECTED) Absent w)
   in aw_objects w' = Map.empty \<and>
      fst (getDocumentUrl (certifications_table {''f1''}) FakeStorageService None ''c1''
        \<lparr>p_userId = ''a1'', p_email = None, p_role = Some ADMIN\<rparr> w') \<in>
        {Inl (NotFound DocumentPurged), Inl (Forbidden DocumentForbidden), Inl LibraryError}"
proof -
  let ?w = "cert_world [uploaded_row] [s3Key_of ''f1'' ''c1'' \<mapsto> ([], ''application/pdf'')]"
  let ?run = "patch_certification_review mem_jwt (\<lambda>s. True) (certifications_table {''f1''}) FakeStorageService 10 20
              (bearer ''a1'' ADMIN) ''c1'' (Some CertificationStatus.REJECTED) Absent ?w"
  have ok: "(\<exists>v. fst ?run = Inr v) \<and> aw_objects (snd ?run) = Map.empty"
    by (simp add: patch_certification_review_def roles_guarded_passes [OF bearer_ok] parse_uuid_def
        validate_ReviewCertificationDto_def CERT_REVIEW_DECISIONS_def reviewCertification_def purge_def decide_def
        truthy_str_def bindP_def liftE_def atCerts_def atObjects_def liftP_def returnP_def table_run table_rows
        FakeStorageService_def Fake_delete_def)
  then obtain v where run: "?run = (Inr v, snd ?run)" by (metis prod.collapse)
  show ?thesis
    unfolding Let_def
    using review_purges_document [OF certifications_tbl.repository_axioms fake.storage_port_axioms run
        prod.collapse [symmetric, of "reviewCertification (certifications_table {''f1''}) FakeStorageService 11 ''c1''
          \<lparr>rc_decision = CertificationStatus.VALIDATED, rc_validUntil = None\<rparr> (snd ?run)"]
        prod.collapse [symmetric]] ok by blast
qed

text \<open>
  C18. Access to the document. The document route answers with a URL only to an admin or to the
  freelance who owns the certificate, only while the document exists, and the URL is the signed
  URL of the storage for this very key with the configured time to live; nothing is changed.
\<close>

theorem document_access:
  assumes "repository C tblc c_id" "storage_port S objects"
    and run: "get_certification_document J is_uuid C S env now auth i w = (Inr url, w')"
  shows "\<exists>user c key. JwtAuthGuard_canActivate J now auth = Inr user \<and> tblc (aw_certs w) i = Some c \<and>
      (p_role user = Some ADMIN \<or> p_role user = Some FREELANCE \<and> c_freelanceId c = p_userId user) \<and>
      c_s3Key c = Some key \<and> key \<noteq> [] \<and>
      st_getSignedUrl S key (signedUrlTtl env) (aw_objects w) = (Inr url, aw_objects w') \<and>
      tblc (aw_certs w') = tblc (aw_certs w) \<and> objects (aw_objects w') = objects (aw_objects w)"
proof -
  have cs: "cert_store C tblc S objects" using assms(1,2) by (rule cert_store.intro)
  have ne: "[FREELANCE, ADMIN] \<noteq> []" by simp
  obtain user q where user: "JwtAuthGuard_canActivate J now auth = Inr user" "p_role user = Some q" "q \<in> {FREELANCE, ADMIN}"
    and rest: "bindP (liftE (parse_uuid is_uuid i)) (\<lambda>cid. getDocumentUrl C S env cid user) w = (Inr url, w')"
    by (rule roles_guarded_Inr [OF run [unfolded get_certification_document_def] ne]) auto
  then have "getDocumentUrl C S env i user w = (Inr url, w')"
    by (auto simp: bindP_Inr_iff parse_uuid_def split: if_splits)
  then show ?thesis
  proof (cases rule: cert_store.url_result [OF cs, consumes 1, case_names refused signed])
    case (signed c)
    then obtain key where "c_s3Key c = Some key" "key \<noteq> []" by (auto simp: truthy_str_iff)
    with signed user show ?thesis by (intro exI [of _ user] exI [of _ c] exI [of _ key]) auto
  qed simp
qed

theorem document_access_witness:
  "let run = get_certification_document mem_jwt (\<lambda>s. True) (certifications_table {''f1''}) FakeStorageService None 10
       (bearer ''f1'' FREELANCE) ''c1''
       (cert_world [uploaded_row] [s3Key_of ''f1'' ''c1'' \<mapsto> ([], ''application/pdf'')])
   in (\<exists>url. fst run = Inr url) \<and> aw_objects (snd run) = [s3Key_of ''f1'' ''c1'' \<mapsto> ([], ''application/pdf'')]"
proof -
  let ?run = "get_certification_document mem_jwt (\<lambda>s. True) (certifications_table {''f1''}) FakeStorageService None 10
       (bearer ''f1'' FREELANCE) ''c1''
       (cert_world [uploaded_row] [s3Key_of ''f1'' ''c1'' \<mapsto> ([], ''application/pdf'')])"
  have "\<exists>url. fst ?run = Inr url"
    by (simp add: get_certification_document_def roles_guarded_passes [OF bearer_ok] parse_uuid_def getDocumentUrl_def
        truthy_str_def bindP_def liftE_def atCerts_def atObjects_def liftP_def table_run table_rows
        FakeStorageService_def Fake_getSignedUrl_def)
  then obtain url where run: "?run = (Inr url, snd ?run)" by (metis prod.collapse)
  have "aw_objects (snd ?run) = aw_objects (cert_world [uploaded_row] [s3Key_of ''f1'' ''c1'' \<mapsto> ([], ''application/pdf'')])"
    using document_access [OF certifications_tbl.repository_axioms fake.storage_port_axioms run] by blast
  moreover have "fst ?run = Inr url" by (subst run) simp
  ultimately show ?thesis unfolding Let_def by simp
qed

text \<open>The encryption at rest of the S3 adapter, carried through the service.\<close>

lemma keeps_atObjects: "keeps Q m \<Longrightarrow> keeps (\<lambda>w. Q (aw_objects w)) (atObjects m)"
  by (fastforce simp: keeps_def at_iff)

lemma keeps_objects_atCerts: "keeps (\<lambda>w. Q (aw_objects w)) (atCerts m)"
  by (rule keeps_at) simp

lemma keeps_roles_guarded:
  assumes "\<And>u. keeps I (handler u)" shows "keeps I (roles_guarded J roles now auth handler)"
  unfolding roles_guarded_def using assms by (auto intro!: keeps_intro split: sum.splits)

context s3
begin

lemma upload_encrypts: "keeps (\<lambda>w. all_encrypted b (buckets (aw_objects w)))
    (uploadCertification Ct (S3StorageService C b) P env i f dto file)"
  unfolding uploadCertification_def
  by (intro keeps_bindP keeps_liftE keeps_if keeps_throwP keeps_returnP keeps_objects_atCerts
      keeps_atObjects [OF put_encrypts])

lemma review_encrypts: "keeps (\<lambda>w. all_encrypted b (buckets (aw_objects w)))
    (reviewCertification Ct (S3StorageService C b) now i dto)"
  unfolding reviewCertification_def purge_def
  by (intro keeps_bindP keeps_option keeps_if keeps_throwP keeps_returnP keeps_objects_atCerts
      keeps_atObjects [OF delete_encrypts])

lemma url_encrypts_service: "keeps (\<lambda>w. all_encrypted b (buckets (aw_objects w)))
    (getDocumentUrl Ct (S3StorageService C b) env i user)"
  unfolding getDocumentUrl_def
  by (intro keeps_bindP keeps_option keeps_if keeps_throwP keeps_returnP keeps_objects_atCerts
      keeps_atObjects [OF url_encrypts])

lemma routes_encrypt:
  "keeps (\<lambda>w. all_encrypted b (buckets (aw_objects w)))
     (post_certification J Ct (S3StorageService C b) P env i now ms auth f ty num until)"
  "keeps (\<lambda>w. all_encrypted b (buckets (aw_objects w)))
     (patch_certification_review J is_uuid Ct (S3StorageService C b) now ms auth i d until')"
  "keeps (\<lambda>w. all_encrypted b (buckets (aw_objects w)))
     (get_certification_document J is_uuid Ct (S3StorageService C b) env now auth i)"
  unfolding post_certification_def patch_certification_review_def get_certification_document_def
  by (intro keeps_roles_guarded keeps_bindP keeps_liftE upload_encrypts review_encrypts url_encrypts_service)+

lemma step_encrypts:
  assumes step: "cert_step J is_uuid Ct tblc (S3StorageService C b) P w w'" and enc: "all_encrypted b (buckets (aw_objects w))"
  shows "all_encrypted b (buckets (aw_objects w'))"
  using step
proof (cases rule: cert_step.cases)
  case (upload i env now ms auth f ty num until r)
  with routes_encrypt(1) enc show ?thesis unfolding keeps_def by blast
next
  case (review now ms auth j d until r)
  with routes_encrypt(2) enc show ?thesis unfolding keeps_def by blast
next
  case (document env now auth j r)
  with routes_encrypt(3) enc show ?thesis unfolding keeps_def by blast
next
  case other
  with enc show ?thesis by simp
qed

lemma steps_encrypt:
  "(cert_step J is_uuid Ct tblc (S3StorageService C b) P)\<^sup>*\<^sup>* w w' \<Longrightarrow> all_encrypted b (buckets (aw_objects w)) \<Longrightarrow>
     all_encrypted b (buckets (aw_objects w'))"
  by (induction rule: rtranclp_induct) (auto intro: step_encrypts)

end

text \<open>
  C19. Encryption at rest. With the S3 adapter, no sequence of requests to the controller leaves an
  object in the bucket that was not stored with server-side AES-256, if there was none before.
\<close>

theorem bucket_stays_encrypted:
  assumes "s3 C buckets" "all_encrypted b (buckets (aw_objects w))"
    and "(cert_step J is_uuid Ct tblc (S3StorageService C b) P)\<^sup>*\<^sup>* w w'"
  shows "all_encrypted b (buckets (aw_objects w'))"
  using s3.steps_encrypt [OF assms(1) assms(3) assms(2)] .

theorem bucket_stays_encrypted_witness:
  "all_encrypted ''b'' (aw_objects (snd (post_certification mem_jwt (certifications_table {''f1''}) (S3StorageService mem_s3 ''b'')
     mem_pdf None ''c1'' 10 20 (bearer ''f1'' FREELANCE) pdf_file (Some DGAC_DRONE) (Some ''N1'') (Some 50)
     (cert_world [] Map.empty))))"
proof (rule bucket_stays_encrypted [OF mem_s3.s3_axioms])
  show "(cert_step mem_jwt (\<lambda>s. True) (certifications_table {''f1''}) (mem_tbl c_id) (S3StorageService mem_s3 ''b'') mem_pdf)\<^sup>*\<^sup>*
      (cert_world [] Map.empty) (snd (post_certification mem_jwt (certifications_table {''f1''}) (S3StorageService mem_s3 ''b'')
     mem_pdf None ''c1'' 10 20 (bearer ''f1'' FREELANCE) pdf_file (Some DGAC_DRONE) (Some ''N1'') (Some 50)
     (cert_world [] Map.empty)))"
    by (rule r_into_rtranclp, rule cert_step.upload [OF _ _ prod.collapse [symmetric]]) (simp_all add: mem_tbl_def)
qed (simp add: all_encrypted_def)

end
