(* ===== verification/Gamification.thy ===== *)
theory Gamification
  imports Certifications
begin

text \<open>
  \<open>gamification/gamification.service.ts\<close> and \<open>gamification/gamification.controller.ts\<close>: the
  experience, level and badges of a freelance, computed at each request from the validated rows of
  the gear and certification tables. The specification is \<open>stats_of\<close>, a function of the two
  tables; the service is proved to return it.
\<close>

section \<open>Constants\<close>

definition XP_PER_VALIDATED_GEAR :: nat where "XP_PER_VALIDATED_GEAR = 50"
definition XP_PER_COVERED_CATEGORY :: nat where "XP_PER_COVERED_CATEGORY = 30"
definition XP_PER_VALIDATED_CERTIFICATION :: nat where "XP_PER_VALIDATED_CERTIFICATION = 80"

record LevelDefinition =
  l_threshold :: nat
  l_level :: nat
  l_label :: string

definition LEVELS :: "LevelDefinition list" where
  "LEVELS = [
     \<lparr>l_threshold = 0, l_level = 1, l_label = ''Recrue''\<rparr>,
     \<lparr>l_threshold = 100, l_level = 2, l_label = ''Op'' @ [CHR 0xE9] @ ''rateur''\<rparr>,
     \<lparr>l_threshold = 250, l_level = 3, l_label = ''Sp'' @ [CHR 0xE9] @ ''cialiste''\<rparr>,
     \<lparr>l_threshold = 450, l_level = 4, l_label = ''V'' @ [CHR 0xE9] @ ''t'' @ [CHR 0xE9] @ ''ran''\<rparr>,
     \<lparr>l_threshold = 700, l_level = 5, l_label = [CHR 0xC9] @ ''lite''\<rparr>,
     \<lparr>l_threshold = 1000, l_level = 6, l_label = ''L'' @ [CHR 0xE9] @ ''gende''\<rparr>]"

record FreelanceStats =
  fs_validatedGear :: nat
  fs_coveredCategories :: nat
  fs_validatedCertifications :: nat
  fs_dgacCertifications :: nat
  fs_loadoutCount :: nat

record badge =
  b_id :: string
  b_label :: string
  b_description :: string
  b_earnedWhen :: "FreelanceStats \<Rightarrow> bool"

definition BADGE_CATALOG :: "badge list" where
  "BADGE_CATALOG = [
     \<lparr>b_id = ''first-validated'', b_label = ''Premi'' @ [CHR 0xE8] @ ''re validation'',
      b_description = ''Un premier '' @ [CHR 0xE9] @ ''quipement valid'' @ [CHR 0xE9] @ '' par un admin'',
      b_earnedWhen = (\<lambda>s. fs_validatedGear s \<ge> 1)\<rparr>,
     \<lparr>b_id = ''arsenal-5'', b_label = ''Arsenal '' @ [CHR 0xE9] @ ''toff'' @ [CHR 0xE9],
      b_description = ''5 '' @ [CHR 0xE9] @ ''quipements valid'' @ [CHR 0xE9] @ ''s'',
      b_earnedWhen = (\<lambda>s. fs_validatedGear s \<ge> 5)\<rparr>,
     \<lparr>b_id = ''arsenal-10'', b_label = ''Arsenal d'' @ [CHR 0x27] @ [CHR 0xE9] @ ''lite'',
      b_description = ''10 '' @ [CHR 0xE9] @ ''quipements valid'' @ [CHR 0xE9] @ ''s'',
      b_earnedWhen = (\<lambda>s. fs_validatedGear s \<ge> 10)\<rparr>,
     \<lparr>b_id = ''polyvalent'', b_label = ''Polyvalent'',
      b_description = ''3 cat'' @ [CHR 0xE9] @ ''gories de mat'' @ [CHR 0xE9] @ ''riel couvertes'',
      b_earnedWhen = (\<lambda>s. fs_coveredCategories s \<ge> 3)\<rparr>,
     \<lparr>b_id = ''certified'', b_label = ''Certifi'' @ [CHR 0xE9],
      b_description = ''Une certification professionnelle valid'' @ [CHR 0xE9] @ ''e'',
      b_earnedWhen = (\<lambda>s. fs_validatedCertifications s \<ge> 1)\<rparr>,
     \<lparr>b_id = ''dgac-pilot'', b_label = ''T'' @ [CHR 0xE9] @ ''l'' @ [CHR 0xE9] @ ''pilote DGAC'',
      b_description = ''Brevet de t'' @ [CHR 0xE9] @ ''l'' @ [CHR 0xE9] @ ''pilote DGAC valid'' @ [CHR 0xE9],
      b_earnedWhen = (\<lambda>s. fs_dgacCertifications s \<ge> 1)\<rparr>,
     \<lparr>b_id = ''loadout-full'', b_label = ''Loadout complet'',
      b_description = show_nat LOADOUT_MAX_SLOTS @ '' '' @ [CHR 0xE9] @ ''quipements '' @ [CHR 0xE9] @ ''pingl'' @ [CHR 0xE9] @ ''s au loadout'',
      b_earnedWhen = (\<lambda>s. fs_loadoutCount s \<ge> LOADOUT_MAX_SLOTS)\<rparr>]"

section \<open>The profile of given statistics\<close>

record BadgeView =
  bv_id :: string
  bv_label :: string
  bv_description :: string
  bv_earned :: bool

record GamificationProfile =
  gp_xp :: nat
  gp_level :: nat
  gp_levelLabel :: string
  gp_nextLevelAt :: "nat option"
  gp_badges :: "BadgeView list"

record PublicBadge =
  pb_id :: string
  pb_label :: string
  pb_description :: string

record PublicGamificationProfile =
  pgp_level :: nat
  pgp_levelLabel :: string
  pgp_badges :: "PublicBadge list"

definition xp_of :: "FreelanceStats \<Rightarrow> nat" where
  "xp_of stats = fs_validatedGear stats * XP_PER_VALIDATED_GEAR +
     fs_coveredCategories stats * XP_PER_COVERED_CATEGORY +
     fs_validatedCertifications stats * XP_PER_VALIDATED_CERTIFICATION"

definition current_level :: "nat \<Rightarrow> LevelDefinition" where
  "current_level xp = (case find (\<lambda>l. xp \<ge> l_threshold l) (rev LEVELS) of Some l \<Rightarrow> l | None \<Rightarrow> LEVELS ! 0)"

definition next_level :: "nat \<Rightarrow> LevelDefinition option" where
  "next_level xp = find (\<lambda>l. l_threshold l > xp) LEVELS"

definition badge_view :: "FreelanceStats \<Rightarrow> badge \<Rightarrow> BadgeView" where
  "badge_view stats b = \<lparr>bv_id = b_id b, bv_label = b_label b, bv_description = b_description b,
     bv_earned = b_earnedWhen b stats\<rparr>"

definition profile_of :: "FreelanceStats \<Rightarrow> GamificationProfile" where
  "profile_of stats = (let xp = xp_of stats; current = current_level xp; nxt = next_level xp in
     \<lparr>gp_xp = xp, gp_level = l_level current, gp_levelLabel = l_label current,
      gp_nextLevelAt = map_option l_threshold nxt, gp_badges = map (badge_view stats) BADGE_CATALOG\<rparr>)"

definition public_badge :: "BadgeView \<Rightarrow> PublicBadge" where
  "public_badge b = \<lparr>pb_id = bv_id b, pb_label = bv_label b, pb_description = bv_description b\<rparr>"

definition public_profile_of :: "GamificationProfile \<Rightarrow> PublicGamificationProfile" where
  "public_profile_of p = \<lparr>pgp_level = gp_level p, pgp_levelLabel = gp_levelLabel p,
     pgp_badges = map public_badge (filter bv_earned (gp_badges p))\<rparr>"

section \<open>The service and the controller\<close>

definition statsFor :: "('g, gear) repo \<Rightarrow> ('c, certification) repo \<Rightarrow> string \<Rightarrow>
    ('u, 'g, 'c, 'k, 'o, FreelanceStats) app" where
  "statsFor G C userId =
     bindP (atGear (repo_find G (\<lambda>g. g_freelanceId g = userId \<and> g_status g = GearStatus.VALIDATED))) (\<lambda>validated.
     bindP (atCerts (repo_find C (\<lambda>c. c_freelanceId c = userId \<and> c_status c = CertificationStatus.VALIDATED))) (\<lambda>validCerts.
     returnP \<lparr>fs_validatedGear = length validated,
       fs_coveredCategories = card (set (map g_category validated)),
       fs_validatedCertifications = length validCerts,
       fs_dgacCertifications = length (filter (\<lambda>c. c_type c = DGAC_DRONE) validCerts),
       fs_loadoutCount = length (filter g_isInLoadout validated)\<rparr>))"

definition profileFor :: "('g, gear) repo \<Rightarrow> ('c, certification) repo \<Rightarrow> string \<Rightarrow>
    ('u, 'g, 'c, 'k, 'o, GamificationProfile) app" where
  "profileFor G C userId = bindP (statsFor G C userId) (\<lambda>stats. returnP (profile_of stats))"

definition publicProfileFor :: "('u, user) repo \<Rightarrow> ('g, gear) repo \<Rightarrow> ('c, certification) repo \<Rightarrow> string \<Rightarrow>
    ('u, 'g, 'c, 'k, 'o, PublicGamificationProfile) app" where
  "publicProfileFor U G C freelanceId =
     bindP (atUsers (repo_findOne U (\<lambda>u. u_id u = freelanceId))) (\<lambda>target. case target of
       None \<Rightarrow> throwP (NotFound FreelanceProfileNotFound)
     | Some u \<Rightarrow> if u_role u \<noteq> FREELANCE then throwP (NotFound FreelanceProfileNotFound)
         else bindP (profileFor G C freelanceId) (\<lambda>p. returnP (public_profile_of p)))"

definition get_gamification_me :: "jwt \<Rightarrow> ('g, gear) repo \<Rightarrow> ('c, certification) repo \<Rightarrow> nat \<Rightarrow> string option \<Rightarrow>
    ('u, 'g, 'c, 'k, 'o, GamificationProfile) app" where
  "get_gamification_me J G C now auth =
     roles_guarded J [FREELANCE] now auth (\<lambda>user. profileFor G C (p_userId user))"

definition get_gamification_freelance :: "jwt \<Rightarrow> (string \<Rightarrow> bool) \<Rightarrow> ('u, user) repo \<Rightarrow> ('g, gear) repo \<Rightarrow>
    ('c, certification) repo \<Rightarrow> nat \<Rightarrow> string option \<Rightarrow> string \<Rightarrow> ('u, 'g, 'c, 'k, 'o, PublicGamificationProfile) app" where
  "get_gamification_freelance J is_uuid U G C now auth i =
     roles_guarded J [RECRUITER] now auth (\<lambda>user.
     bindP (liftE (parse_uuid is_uuid i)) (\<lambda>fid. publicProfileFor U G C fid))"

section \<open>Specification\<close>

text \<open>The statistics, as a function of the rows of the two tables.\<close>

definition stats_of :: "(string \<rightharpoonup> gear) \<Rightarrow> (string \<rightharpoonup> certification) \<Rightarrow> string \<Rightarrow> FreelanceStats" where
  "stats_of tg tc f =
     \<lparr>fs_validatedGear = card (matching tg (\<lambda>g. g_freelanceId g = f \<and> g_status g = GearStatus.VALIDATED)),
      fs_coveredCategories = card (g_category ` {g \<in> ran tg. g_freelanceId g = f \<and> g_status g = GearStatus.VALIDATED}),
      fs_validatedCertifications = card (matching tc (\<lambda>c. c_freelanceId c = f \<and> c_status c = CertificationStatus.VALIDATED)),
      fs_dgacCertifications = card (matching tc (\<lambda>c. (c_freelanceId c = f \<and> c_status c = CertificationStatus.VALIDATED) \<and>
         c_type c = DGAC_DRONE)),
      fs_loadoutCount = card (matching tg (\<lambda>g. (g_freelanceId g = f \<and> g_status g = GearStatus.VALIDATED) \<and>
         g_isInLoadout g))\<rparr>"

context repository
begin

lemma find_filter:
  assumes "repo_find R P s = (Inr rs, s')"
  shows "length (filter Q rs) = card (matching (tbl s) (\<lambda>r. P r \<and> Q r))"
proof (rule length_rows)
  show "distinct (map key (filter Q rs))" using find_rows [OF assms] by (simp add: distinct_map_filter)
  show "set (filter Q rs) = {r. tbl s (key r) = Some r \<and> P r \<and> Q r}" using find_rows [OF assms] by auto
qed

lemma find_set: "repo_find R P s = (Inr rs, s') \<Longrightarrow> set rs = {r \<in> ran (tbl s). P r}"
  using find_rows [of P s rs s'] tbl_key by (auto simp: ran_def)

end

locale profile_store = G: repository G tblg g_id + C: repository C tblc c_id
  for G :: "('g, gear) repo" and tblg :: "'g \<Rightarrow> string \<rightharpoonup> gear"
    and C :: "('c, certification) repo" and tblc :: "'c \<Rightarrow> string \<rightharpoonup> certification"
begin

lemma stats_refine:
  assumes run: "statsFor G C f w = (r, w')"
  shows "r = Inr (stats_of (tblg (aw_gear w)) (tblc (aw_certs w)) f) \<or> r = Inl LibraryError"
    and "tblg (aw_gear w') = tblg (aw_gear w)" "tblc (aw_certs w') = tblc (aw_certs w)" "aw_users w' = aw_users w"
proof -
  let ?P = "\<lambda>g. g_freelanceId g = f \<and> g_status g = GearStatus.VALIDATED"
  let ?Q = "\<lambda>c. c_freelanceId c = f \<and> c_status c = CertificationStatus.VALIDATED"
  obtain q x where q: "repo_find G ?P (aw_gear w) = (q, x)" by fastforce
  obtain d y where d: "repo_find C ?Q (aw_certs w) = (d, y)" by fastforce
  note eqs = G.find_frame [OF q] C.find_frame [OF d]
  have run': "q = Inr rs \<Longrightarrow> d = Inr cs \<Longrightarrow> r = Inr (stats_of (tblg (aw_gear w)) (tblc (aw_certs w)) f)" for rs cs
    using run q d G.find_filter [of ?P "aw_gear w" rs x g_isInLoadout] G.find_length [of ?P "aw_gear w" rs x]
      G.find_set [of ?P "aw_gear w" rs x] C.find_length [of ?Q "aw_certs w" cs y]
      C.find_filter [of ?Q "aw_certs w" cs y "\<lambda>c. c_type c = DGAC_DRONE"]
    by (auto simp: statsFor_def bindP_def atGear_def atCerts_def liftP_def returnP_def stats_of_def)
  show "r = Inr (stats_of (tblg (aw_gear w)) (tblc (aw_certs w)) f) \<or> r = Inl LibraryError"
    using run q d run' G.find_error [of ?P] C.find_error [of ?Q]
    by (cases q; cases d) (auto simp: statsFor_def bindP_def atGear_def atCerts_def liftP_def)
  show "tblg (aw_gear w') = tblg (aw_gear w)" "tblc (aw_certs w') = tblc (aw_certs w)" "aw_users w' = aw_users w"
    using run q d eqs
    by (cases q; cases d; auto simp: statsFor_def bindP_def atGear_def atCerts_def liftP_def returnP_def)+
qed

end

interpretation mem_profile: profile_store "gear_table ids" "mem_tbl g_id" "certifications_table ids" "mem_tbl c_id" for ids
  ..

section \<open>Levels and badges\<close>

text \<open>The level is the number of thresholds reached.\<close>

definition thresholds :: "nat set" where
  "thresholds = {0, 100, 250, 450, 700, 1000}"

lemma current_level_cases:
  "current_level xp = LEVELS ! (if xp < 100 then 0 else if xp < 250 then 1 else if xp < 450 then 2
     else if xp < 700 then 3 else if xp < 1000 then 4 else 5)"
  by (simp add: current_level_def LEVELS_def)

lemma next_level_cases:
  "map_option l_threshold (next_level xp) = (if xp < 100 then Some 100 else if xp < 250 then Some 250 else if xp < 450
     then Some 450 else if xp < 700 then Some 700 else if xp < 1000 then Some 1000 else None)"
  by (simp add: next_level_def LEVELS_def)

lemma level_values: "l_level (LEVELS ! 0) = 1" "l_level (LEVELS ! Suc 0) = 2" "l_level (LEVELS ! 2) = 3"
    "l_level (LEVELS ! 3) = 4" "l_level (LEVELS ! 4) = 5" "l_level (LEVELS ! 5) = 6"
  by (simp_all add: LEVELS_def)

lemma thresholds_le: "{t \<in> thresholds. t \<le> xp} = (if xp < 100 then {0} else if xp < 250 then {0, 100}
     else if xp < 450 then {0, 100, 250} else if xp < 700 then {0, 100, 250, 450}
     else if xp < 1000 then {0, 100, 250, 450, 700} else thresholds)"
  by (auto simp: thresholds_def)

lemma thresholds_gt: "{t \<in> thresholds. xp < t} = (if xp < 100 then {100, 250, 450, 700, 1000}
     else if xp < 250 then {250, 450, 700, 1000} else if xp < 450 then {450, 700, 1000}
     else if xp < 700 then {700, 1000} else if xp < 1000 then {1000} else {})"
  by (auto simp: thresholds_def)

lemma level_mono: "xp \<le> xp' \<Longrightarrow> l_level (current_level xp) \<le> l_level (current_level xp')"
  by (simp add: current_level_cases level_values)

text \<open>More of everything.\<close>

definition stats_le :: "FreelanceStats \<Rightarrow> FreelanceStats \<Rightarrow> bool" where
  "stats_le s t \<longleftrightarrow> fs_validatedGear s \<le> fs_validatedGear t \<and> fs_coveredCategories s \<le> fs_coveredCategories t \<and>
     fs_validatedCertifications s \<le> fs_validatedCertifications t \<and> fs_dgacCertifications s \<le> fs_dgacCertifications t \<and>
     fs_loadoutCount s \<le> fs_loadoutCount t"

lemma xp_mono: "stats_le s t \<Longrightarrow> xp_of s \<le> xp_of t"
  by (simp add: stats_le_def xp_of_def XP_PER_VALIDATED_GEAR_def XP_PER_COVERED_CATEGORY_def
      XP_PER_VALIDATED_CERTIFICATION_def)

lemma badge_mono: "stats_le s t \<Longrightarrow> b \<in> set BADGE_CATALOG \<Longrightarrow> b_earnedWhen b s \<Longrightarrow> b_earnedWhen b t"
  by (auto simp: BADGE_CATALOG_def stats_le_def)

lemma catalog_ids: "map b_id BADGE_CATALOG = [''first-validated'', ''arsenal-5'', ''arsenal-10'', ''polyvalent'',
    ''certified'', ''dgac-pilot'', ''loadout-full'']"
  by (simp add: BADGE_CATALOG_def)

lemma profile_fields:
  "gp_xp (profile_of s) = xp_of s" "gp_level (profile_of s) = l_level (current_level (xp_of s))"
  "gp_nextLevelAt (profile_of s) = map_option l_threshold (next_level (xp_of s))"
  "gp_badges (profile_of s) = map (badge_view s) BADGE_CATALOG"
  by (simp_all add: profile_of_def Let_def)

lemma public_badges: "pgp_badges (public_profile_of (profile_of s)) =
    map (\<lambda>b. \<lparr>pb_id = b_id b, pb_label = b_label b, pb_description = b_description b\<rparr>)
      (filter (\<lambda>b. b_earnedWhen b s) BADGE_CATALOG)"
  by (simp add: public_profile_of_def profile_fields filter_map comp_def badge_view_def public_badge_def)

section \<open>Properties\<close>

text \<open>
  C21. Own profile. A request to the private route that returns was made by a freelance, and
  answers with the profile of the statistics that the validated rows of this freelance (and of
  nobody else) define at that moment: the service refines its specification on the two tables, and
  leaves them as they were.
\<close>

theorem own_profile_refines:
  assumes "repository G tblg g_id" "repository C tblc c_id"
    and run: "get_gamification_me J G C now auth w = (Inr p, w')"
  shows "\<exists>user. JwtAuthGuard_canActivate J now auth = Inr user \<and> p_role user = Some FREELANCE \<and>
      p = profile_of (stats_of (tblg (aw_gear w)) (tblc (aw_certs w)) (p_userId user)) \<and>
      tblg (aw_gear w') = tblg (aw_gear w) \<and> tblc (aw_certs w') = tblc (aw_certs w)"
proof -
  have ps: "profile_store G tblg C tblc" using assms(1,2) by (rule profile_store.intro)
  have ne: "[FREELANCE] \<noteq> []" by simp
  obtain user where user: "JwtAuthGuard_canActivate J now auth = Inr user" "p_role user = Some FREELANCE"
    and rest: "profileFor G C (p_userId user) w = (Inr p, w')"
    by (rule roles_guarded_Inr [OF run [unfolded get_gamification_me_def] ne]) auto
  then obtain s where s: "statsFor G C (p_userId user) w = (Inr s, w')" "p = profile_of s"
    by (auto simp: profileFor_def bindP_Inr_iff)
  with profile_store.stats_refine [OF ps s(1)] user show ?thesis by auto
qed

definition profile_world :: "(user list, gear list, certification list, unit, unit) app_world" where
  "profile_world = \<lparr>aw_users = [mk_user ''f1'' FREELANCE], aw_gear = [mk_gear ''g1'' GearStatus.VALIDATED True,
     mk_gear ''g2'' GearStatus.PENDING False], aw_certs = [], aw_redis = (), aw_objects = ()\<rparr>"

theorem own_profile_refines_witness:
  "\<exists>p. fst (get_gamification_me mem_jwt (gear_table {''f1''}) (certifications_table {''f1''}) 10 (bearer ''f1'' FREELANCE)
     profile_world) = Inr p \<and> gp_xp p = 80 \<and>
     p = profile_of (stats_of (mem_tbl g_id (aw_gear profile_world)) (mem_tbl c_id (aw_certs profile_world)) ''f1'')"
proof -
  let ?run = "get_gamification_me mem_jwt (gear_table {''f1''}) (certifications_table {''f1''}) 10 (bearer ''f1'' FREELANCE)
     profile_world"
  have rows: "repo_find (gear_table {''f1''}) (\<lambda>g. g_freelanceId g = ''f1'' \<and> g_status g = GearStatus.VALIDATED)
      (aw_gear profile_world) = (Inr [mk_gear ''g1'' GearStatus.VALIDATED True], aw_gear profile_world)"
    by (simp add: profile_world_def table_run table_rows)
  have certs: "repo_find (certifications_table {''f1''}) P (aw_certs profile_world) = (Inr [], aw_certs profile_world)" for P
    by (simp add: profile_world_def table_run table_rows)
  have "\<exists>p. fst ?run = Inr p \<and> gp_xp p = 80"
    by (simp add: get_gamification_me_def roles_guarded_passes [OF bearer_ok] profileFor_def statsFor_def bindP_def
        atGear_def atCerts_def liftP_def returnP_def rows certs profile_fields xp_of_def
        XP_PER_VALIDATED_GEAR_def XP_PER_COVERED_CATEGORY_def)
  then obtain p where p: "?run = (Inr p, snd ?run)" "gp_xp p = 80" by (metis prod.collapse)
  have f: "fst ?run = Inr p" by (subst p(1)) simp
  have "JwtAuthGuard_canActivate mem_jwt 10 (bearer ''f1'' FREELANCE) =
      Inr \<lparr>p_userId = ''f1'', p_email = None, p_role = Some FREELANCE\<rparr>" by (rule bearer_ok) simp
  then have "p = profile_of (stats_of (mem_tbl g_id (aw_gear profile_world)) (mem_tbl c_id (aw_certs profile_world)) ''f1'')"
    using own_profile_refines [OF gear_tbl.repository_axioms certifications_tbl.repository_axioms p(1)] by auto
  with f p(2) show ?thesis by blast
qed

text \<open>
  C22. Public profile. The public route answers only a recruiter and only about an existing
  freelance; it shows the level of the profile and exactly the badges of the catalogue that are
  earned, in the order of the catalogue. (The view has no experience points and no locked badge.)
\<close>

theorem public_profile_earned_only:
  assumes "repository U tblu u_id" "repository G tblg g_id" "repository C tblc c_id"
    and run: "get_gamification_freelance J is_uuid U G C now auth f w = (Inr v, w')"
  shows "\<exists>user u. JwtAuthGuard_canActivate J now auth = Inr user \<and> p_role user = Some RECRUITER \<and>
      tblu (aw_users w) f = Some u \<and> u_role u = FREELANCE \<and>
      pgp_level v = gp_level (profile_of (stats_of (tblg (aw_gear w)) (tblc (aw_certs w)) f)) \<and>
      map pb_id (pgp_badges v) =
        map b_id (filter (\<lambda>b. b_earnedWhen b (stats_of (tblg (aw_gear w)) (tblc (aw_certs w)) f)) BADGE_CATALOG)"
proof -
  have ps: "profile_store G tblg C tblc" using assms(2,3) by (rule profile_store.intro)
  have ne: "[RECRUITER] \<noteq> []" by simp
  obtain user where user: "JwtAuthGuard_canActivate J now auth = Inr user" "p_role user = Some RECRUITER"
    and rest: "bindP (liftE (parse_uuid is_uuid f)) (\<lambda>fid. publicProfileFor U G C fid) w = (Inr v, w')"
    by (rule roles_guarded_Inr [OF run [unfolded get_gamification_freelance_def] ne]) auto
  then have pf: "publicProfileFor U G C f w = (Inr v, w')"
    by (auto simp: bindP_Inr_iff parse_uuid_def split: if_splits)
  then obtain u x s where u: "repo_findOne U (\<lambda>u. u_id u = f) (aw_users w) = (Inr (Some u), x)" "u_role u = FREELANCE"
    and s: "statsFor G C f (w\<lparr>aw_users := x\<rparr>) = (Inr s, w')" and v: "v = public_profile_of (profile_of s)"
    by (auto simp: publicProfileFor_def profileFor_def bindP_Inr_iff at_iff split: option.splits if_splits)
  have row: "tblu (aw_users w) f = Some u" using repository.findOne_by_key [OF assms(1) u(1)] by simp
  have "s = stats_of (tblg (aw_gear w)) (tblc (aw_certs w)) f" using profile_store.stats_refine(1) [OF ps s] by simp
  then show ?thesis
    using user row u(2) v by (intro exI [of _ user] exI [of _ u]) (simp add: public_badges comp_def, simp add: public_profile_of_def)
qed

theorem public_profile_earned_only_witness:
  "\<exists>v. fst (get_gamification_freelance mem_jwt (\<lambda>s. True) users_table (gear_table {''f1''}) (certifications_table {''f1''}) 10
     (bearer ''r1'' RECRUITER) ''f1'' profile_world) = Inr v \<and>
     map pb_id (pgp_badges v) = map b_id (filter (\<lambda>b. b_earnedWhen b
       (stats_of (mem_tbl g_id (aw_gear profile_world)) (mem_tbl c_id (aw_certs profile_world)) ''f1'')) BADGE_CATALOG)"
proof -
  let ?run = "get_gamification_freelance mem_jwt (\<lambda>s. True) users_table (gear_table {''f1''}) (certifications_table {''f1''}) 10
     (bearer ''r1'' RECRUITER) ''f1'' profile_world"
  have "\<exists>v. fst ?run = Inr v"
    by (simp add: get_gamification_freelance_def roles_guarded_passes [OF bearer_ok] parse_uuid_def publicProfileFor_def
        profileFor_def statsFor_def bindP_def atUsers_def atGear_def atCerts_def liftP_def liftE_def returnP_def
        profile_world_def table_run table_rows)
  then obtain v where v: "?run = (Inr v, snd ?run)" by (metis prod.collapse)
  have "fst ?run = Inr v" by (subst v) simp
  with public_profile_earned_only [OF users_tbl.repository_axioms gear_tbl.repository_axioms
      certifications_tbl.repository_axioms v] show ?thesis by blast
qed

text \<open>
  Levels. The level shown is the number of thresholds reached by the experience points, and
  the next level is announced at the smallest threshold not yet reached, or not at all from 1000
  points on.
\<close>

theorem level_counts_thresholds:
  "gp_level (profile_of s) = card {t \<in> thresholds. t \<le> gp_xp (profile_of s)} \<and>
   gp_nextLevelAt (profile_of s) =
     (if gp_xp (profile_of s) < 1000 then Some (Min {t \<in> thresholds. gp_xp (profile_of s) < t}) else None)"
  unfolding profile_fields current_level_cases next_level_cases thresholds_le thresholds_gt
  by (simp add: level_values thresholds_def)

text \<open>
  Progress is never taken back: with at least as much of every validated proof, the
  experience points and the level are at least as high and every badge earned before is still
  earned.
\<close>

theorem profile_monotone:
  assumes "stats_le s t"
  shows "gp_xp (profile_of s) \<le> gp_xp (profile_of t) \<and> gp_level (profile_of s) \<le> gp_level (profile_of t) \<and>
    list_all2 (\<lambda>b c. bv_id b = bv_id c \<and> bv_earned b \<le> bv_earned c) (gp_badges (profile_of s)) (gp_badges (profile_of t))"
  using assms level_mono [OF xp_mono [OF assms]] badge_mono [OF assms]
  by (auto simp: profile_fields xp_mono badge_view_def list.rel_map intro!: list.rel_refl_strong)

theorem profile_monotone_witness:
  "gp_level (profile_of \<lparr>fs_validatedGear = 1, fs_coveredCategories = 1, fs_validatedCertifications = 0,
      fs_dgacCertifications = 0, fs_loadoutCount = 0\<rparr>) \<le>
   gp_level (profile_of \<lparr>fs_validatedGear = 5, fs_coveredCategories = 2, fs_validatedCertifications = 1,
      fs_dgacCertifications = 1, fs_loadoutCount = 4\<rparr>)"
  using profile_monotone [of "\<lparr>fs_validatedGear = 1, fs_coveredCategories = 1, fs_validatedCertifications = 0,
      fs_dgacCertifications = 0, fs_loadoutCount = 0\<rparr>" "\<lparr>fs_validatedGear = 5, fs_coveredCategories = 2,
      fs_validatedCertifications = 1, fs_dgacCertifications = 1, fs_loadoutCount = 4\<rparr>"]
  by (simp add: stats_le_def)

text \<open>
  The showcase and its badge. In every state the gear routes can reach from an empty table,
  the loadout count of the statistics is the number of items in the showcase of the freelance, at
  most four; so the badge of the full loadout is earned exactly with four items pinned.
\<close>

theorem loadout_badge_exact:
  assumes "repository U tblu u_id" "repository G tblg g_id" "redis_server RD view"
    and "tblg (aw_gear w0) = Map.empty" and "(gear_step J is_uuid U G RD)\<^sup>*\<^sup>* w0 w"
  shows "fs_loadoutCount (stats_of (tblg (aw_gear w)) tc f) = card (pinned (tblg (aw_gear w)) f) \<and>
    (b_earnedWhen (BADGE_CATALOG ! 6) (stats_of (tblg (aw_gear w)) tc f) \<longleftrightarrow> card (pinned (tblg (aw_gear w)) f) = 4)"
proof -
  have ok: "loadout_ok (tblg (aw_gear w))"
    using gear_store.gear_steps_keep [OF gear_storeI [OF assms(1-3)] assms(5)] loadout_ok_empty assms(4) by simp
  then have "matching (tblg (aw_gear w)) (\<lambda>g. (g_freelanceId g = f \<and> g_status g = GearStatus.VALIDATED) \<and> g_isInLoadout g) =
      pinned (tblg (aw_gear w)) f"
    by (auto simp: loadout_ok_def pinned_def matching_def ran_def)
  then have count: "fs_loadoutCount (stats_of (tblg (aw_gear w)) tc f) = card (pinned (tblg (aw_gear w)) f)"
    by (simp add: stats_of_def)
  have "card (pinned (tblg (aw_gear w)) f) \<le> 4" using ok by (simp add: loadout_ok_def LOADOUT_MAX_SLOTS_def)
  with count show ?thesis by (auto simp: BADGE_CATALOG_def LOADOUT_MAX_SLOTS_def)
qed

theorem loadout_badge_exact_witness:
  "\<not> b_earnedWhen (BADGE_CATALOG ! 6) (stats_of (mem_tbl g_id []) Map.empty ''f1'')"
  using loadout_badge_exact [OF users_tbl.repository_axioms gear_tbl.repository_axioms mem_rd.redis_server_axioms _
      rtranclp.rtrancl_refl [of "gear_step mem_jwt (\<lambda>s. True) users_table (gear_table {''f1''}) mem_redis" "gear_world []"],
      of Map.empty "''f1''"]
  by (simp add: mem_tbl_def pinned_def matching_def)

end
