(* ===== verification/Chat.thy ===== *)
theory Chat
  imports Gamification "HOL-Library.Multiset"
begin

text \<open>
  \<open>chat/chat.service.ts\<close>, \<open>chat/chat.controller.ts\<close> and \<open>chat/chat.gateway.ts\<close>: messages
  between a recruiter and a freelance, kept in MongoDB, read over REST and sent over socket.io.

  The Mongoose model is a parameter with documented laws (\<open>message_store\<close>); the calls of the
  gateway on sockets are recorded as effects, in order.
\<close>

section \<open>The message collection\<close>

text \<open>
  \<open>mm_find\<close> is \<open>find(\<dots>).sort({ createdAt: -1 }).limit(n)\<close>. The stages of the aggregation
  are those the service uses.
\<close>

datatype agg_stage =
    MatchConversationRegex string
  | SortCreatedAtDesc
  | GroupByConversationFirst
  | SortLastCreatedAtDesc

record 'm message_model =
  mm_create :: "string \<Rightarrow> string \<Rightarrow> string \<Rightarrow> ('m, chat_message) proc"
  mm_find :: "(chat_message \<Rightarrow> bool) \<Rightarrow> nat \<Rightarrow> ('m, chat_message list) proc"
  mm_aggregate :: "agg_stage list \<Rightarrow> ('m, (string \<times> chat_message) list) proc"

text \<open>A regular expression without metacharacters matches by containment.\<close>

definition plain_regex :: "string \<Rightarrow> bool" where
  "plain_regex r \<longleftrightarrow> (\<forall>c \<in> set r. is_decimal c \<or> c = CHR ''-'' \<or>
     (CHR ''a'' \<le> c \<and> c \<le> CHR ''z'') \<or> (CHR ''A'' \<le> c \<and> c \<le> CHR ''Z''))"

definition is_message :: "chat_message \<Rightarrow> string \<Rightarrow> string \<Rightarrow> string \<Rightarrow> bool" where
  "is_message m c f b \<longleftrightarrow> m_conversationId m = c \<and> m_senderId m = f \<and> m_body m = b"

text \<open>The rows of the aggregation: for each matching conversation, a latest message; latest first.\<close>

definition conversation_heads :: "chat_message list \<Rightarrow> string \<Rightarrow> (string \<times> chat_message) list \<Rightarrow> bool" where
  "conversation_heads ds r rows \<longleftrightarrow> distinct (map fst rows) \<and>
     fst ` set rows = m_conversationId ` {m \<in> set ds. js_includes (m_conversationId m) r} \<and>
     (\<forall>i m. (i, m) \<in> set rows \<longrightarrow> m \<in> set ds \<and> m_conversationId m = i \<and>
        (\<forall>d \<in> set ds. m_conversationId d = i \<longrightarrow> m_createdAt d \<le> m_createdAt m)) \<and>
     sorted (map (\<lambda>x. m_createdAt (snd x)) (rev rows))"

definition conversations_pipeline :: "string \<Rightarrow> agg_stage list" where
  "conversations_pipeline userId =
     [MatchConversationRegex userId, SortCreatedAtDesc, GroupByConversationFirst, SortLastCreatedAtDesc]"

locale message_store =
  fixes M :: "'m message_model" and docs :: "'m \<Rightarrow> chat_message list"
  assumes create_ok: "mm_create M c f b s = (Inr m, s') \<Longrightarrow> docs s' = docs s @ [m] \<and> is_message m c f b"
    and create_fail: "mm_create M c f b s = (Inl e, s') \<Longrightarrow>
          e = LibraryError \<and> (docs s' = docs s \<or> (\<exists>m. docs s' = docs s @ [m] \<and> is_message m c f b))"
    and find_ok: "mm_find M P n s = (Inr ms, s') \<Longrightarrow>
          \<exists>al. mset al = mset (filter P (docs s)) \<and> sorted (map m_createdAt (rev al)) \<and> ms = take n al"
    and find_frame: "mm_find M P n s = (r, s') \<Longrightarrow> docs s' = docs s"
    and find_error: "mm_find M P n s = (Inl e, s') \<Longrightarrow> e = LibraryError"
    and aggregate_ok: "mm_aggregate M (conversations_pipeline u) s = (Inr rows, s') \<Longrightarrow> plain_regex u \<Longrightarrow>
          conversation_heads (docs s) u rows"
    and aggregate_frame: "mm_aggregate M st s = (q, s') \<Longrightarrow> docs s' = docs s"
    and aggregate_error: "mm_aggregate M st s = (Inl e, s') \<Longrightarrow> e = LibraryError"

text \<open>The collection as a list of documents.\<close>

fun mem_stage :: "agg_stage \<Rightarrow> (string \<times> chat_message) list \<Rightarrow> (string \<times> chat_message) list" where
  "mem_stage (MatchConversationRegex r) rows = filter (\<lambda>(i, m). js_includes (m_conversationId m) r) rows"
| "mem_stage SortCreatedAtDesc rows = rev (sort_key (\<lambda>x. m_createdAt (snd x)) rows)"
| "mem_stage GroupByConversationFirst rows =
     map (\<lambda>i. (i, snd (hd (filter (\<lambda>x. m_conversationId (snd x) = i) rows)))) (remdups (map (\<lambda>x. m_conversationId (snd x)) rows))"
| "mem_stage SortLastCreatedAtDesc rows = rev (sort_key (\<lambda>x. m_createdAt (snd x)) rows)"

definition mem_messages :: "chat_message list message_model" where
  "mem_messages = \<lparr>
     mm_create = (\<lambda>c f b ds. let m = \<lparr>m_id = fresh_key (map m_id ds), m_conversationId = c, m_senderId = f, m_body = b,
        m_createdAt = Suc (foldr max (map m_createdAt ds) 0)\<rparr> in (Inr m, ds @ [m])),
     mm_find = (\<lambda>P n ds. (Inr (take n (rev (sort_key m_createdAt (filter P ds)))), ds)),
     mm_aggregate = (\<lambda>st ds. (Inr (fold mem_stage st (map (\<lambda>m. (m_id m, m)) ds)), ds))\<rparr>"

lemma sorted_key_le_hd:
  assumes "sorted (map k (rev xs))" "x \<in> set xs"
  shows "k x \<le> (k (hd xs) :: nat)"
proof (cases xs)
  case (Cons y ys)
  then have "\<forall>z \<in> set ys. k z \<le> k y" using assms(1) by (auto simp: sorted_append)
  with Cons assms(2) show ?thesis by auto
qed (use assms(2) in simp)

lemma mem_heads: "conversation_heads ds u (fold mem_stage (conversations_pipeline u) (map (\<lambda>m. (m_id m, m)) ds))"
proof -
  let ?k = "\<lambda>x. m_createdAt (snd x)"
  let ?c = "\<lambda>x. m_conversationId (snd x)"
  define ms where "ms = rev (sort_key ?k (filter (\<lambda>(i, m). js_includes (m_conversationId m) u) (map (\<lambda>m. (m_id m, m)) ds)))"
  define rows where "rows = map (\<lambda>i. (i, snd (hd (filter (\<lambda>x. ?c x = i) ms)))) (remdups (map ?c ms))"
  have fold: "fold mem_stage (conversations_pipeline u) (map (\<lambda>m. (m_id m, m)) ds) = rev (sort_key ?k rows)"
    by (simp add: conversations_pipeline_def ms_def rows_def)
  have set_ms: "snd ` set ms = {m \<in> set ds. js_includes (m_conversationId m) u}"
    by (force simp: ms_def)
  have fst_rows: "map fst rows = remdups (map ?c ms)" by (simp add: rows_def comp_def)
  have srt: "sorted (map ?k (rev ms))" by (simp add: ms_def)
  have head: "m \<in> set ds \<and> m_conversationId m = i \<and> (\<forall>d \<in> set ds. m_conversationId d = i \<longrightarrow> m_createdAt d \<le> m_createdAt m)"
    if "(i, m) \<in> set rows" for i m
  proof -
    let ?fs = "filter (\<lambda>x. ?c x = i) ms"
    have m: "m = snd (hd ?fs)" and i: "i \<in> ?c ` set ms" using that by (auto simp: rows_def)
    then have ne: "?fs \<noteq> []" by (auto simp: filter_empty_conv)
    then have hd: "hd ?fs \<in> set ms \<and> ?c (hd ?fs) = i" using hd_in_set [OF ne] by simp
    then have mi: "m \<in> snd ` set ms" "m_conversationId m = i" using m by auto
    have "sorted (map ?k (rev ?fs))" using srt by (simp add: rev_filter sorted_filter)
    note top = sorted_key_le_hd [OF this]
    have "m_createdAt d \<le> m_createdAt m" if d: "d \<in> set ds" and di: "m_conversationId d = i" for d
    proof -
      have "js_includes (m_conversationId d) u" using mi set_ms di by auto
      then have "d \<in> snd ` set ms" using set_ms d by simp
      then obtain x where "x \<in> set ?fs" "snd x = d" using di by auto
      then show ?thesis using top [of x] m by simp
    qed
    with mi set_ms show ?thesis by auto
  qed
  have "?c ` set ms = m_conversationId ` {m \<in> set ds. js_includes (m_conversationId m) u}"
    using set_ms by (metis (mono_tags, lifting) image_cong image_image)
  then have "fst ` set rows = m_conversationId ` {m \<in> set ds. js_includes (m_conversationId m) u}"
    using fst_rows by (metis list.set_map set_remdups)
  moreover have "distinct (map fst (rev (sort_key ?k rows)))"
  proof -
    have "distinct (map fst rows)" by (simp add: fst_rows)
    then show ?thesis by (simp add: distinct_map rev_map [symmetric])
  qed
  ultimately show ?thesis unfolding fold conversation_heads_def using head by simp
qed

interpretation mem_ms: message_store mem_messages "\<lambda>ds. ds"
proof (unfold_locales, goal_cases)
  case (3 P n s ms s')
  then show ?case
    by (intro exI [of _ "rev (sort_key m_createdAt (filter P s))"]) (auto simp: mem_messages_def)
next
  case (6 u s rows s')
  then show ?case using mem_heads [of s u] by (auto simp: mem_messages_def)
qed (auto simp: mem_messages_def Let_def is_message_def)

section \<open>The service\<close>

record ('u, 'm) chat_world =
  cw_users :: 'u
  cw_messages :: 'm

type_synonym ('u, 'm, 'a) chat = "(('u, 'm) chat_world, 'a) proc"

definition inUsers :: "('u, 'a) proc \<Rightarrow> ('u, 'm, 'a) chat" where
  "inUsers = liftP cw_users (\<lambda>x w. w\<lparr>cw_users := x\<rparr>)"

definition inMessages :: "('m, 'a) proc \<Rightarrow> ('u, 'm, 'a) chat" where
  "inMessages = liftP cw_messages (\<lambda>x w. w\<lparr>cw_messages := x\<rparr>)"

lemma in_iff [proc_iff]:
  "inUsers mu w = (ru, w') \<longleftrightarrow> (\<exists>x. mu (cw_users w) = (ru, x) \<and> w' = w\<lparr>cw_users := x\<rparr>)"
  "inMessages mm w = (rm, w') \<longleftrightarrow> (\<exists>x. mm (cw_messages w) = (rm, x) \<and> w' = w\<lparr>cw_messages := x\<rparr>)"
  by (simp_all add: inUsers_def inMessages_def liftP_iff)

text \<open>The role is that of the token; a token need not have one.\<close>

record ChatParticipant =
  cp_userId :: string
  cp_role :: "UserRole option"

record ChatMessageView =
  v_id :: string
  v_conversationId :: string
  v_senderId :: string
  v_body :: string
  v_createdAt :: nat

record peer =
  peer_id :: string
  peer_username :: string
  peer_role :: UserRole

record ConversationSummary =
  s_conversationId :: string
  s_with :: peer
  s_lastMessage :: ChatMessageView

definition HISTORY_LIMIT :: nat where "HISTORY_LIMIT = 50"

definition toView :: "chat_message \<Rightarrow> ChatMessageView" where
  "toView d = \<lparr>v_id = m_id d, v_conversationId = m_conversationId d, v_senderId = m_senderId d,
     v_body = m_body d, v_createdAt = m_createdAt d\<rparr>"

text \<open>\<open>sort()\<close> orders strings by their code units.\<close>

definition conversationIdFor :: "string \<Rightarrow> string \<Rightarrow> string" where
  "conversationIdFor userIdA userIdB = js_join '':'' (sort [userIdA, userIdB])"

definition otherParticipantId :: "string \<Rightarrow> string \<Rightarrow> string option" where
  "otherParticipantId conversationId selfId = find (\<lambda>i. i \<noteq> selfId) (js_split (CHR '':'') conversationId)"

definition is_pair :: "UserRole option \<Rightarrow> UserRole \<Rightarrow> bool" where
  "is_pair mine theirs \<longleftrightarrow> (let roles = {mine, Some theirs} in
     card roles = 2 \<and> Some RECRUITER \<in> roles \<and> Some FREELANCE \<in> roles)"

definition assertRecruiterFreelancePair :: "('u, user) repo \<Rightarrow> ChatParticipant \<Rightarrow> string \<Rightarrow> ('u, 'm, user) chat" where
  "assertRecruiterFreelancePair U participant otherUserId =
     bindP (inUsers (repo_findOne U (\<lambda>u. u_id u = otherUserId))) (\<lambda>other. case other of
       None \<Rightarrow> throwP (NotFound UserNotFound)
     | Some u \<Rightarrow> if \<not> is_pair (cp_role participant) (u_role u) then throwP (Forbidden NotARecruiterFreelancePair)
         else returnP u)"

text \<open>
  \<open>(body ?? '').trim()\<close>. A body is whatever the client sent: \<open>Malformed\<close> is a value that is not a
  string, on which \<open>trim\<close> is not a function.
\<close>

definition trimmed_body :: "string param \<Rightarrow> exn + string" where
  "trimmed_body body = (case body of
     Absent \<Rightarrow> Inr (js_trim []) | Malformed \<Rightarrow> Inl LibraryError | Given s \<Rightarrow> Inr (js_trim s))"

definition sendMessage :: "('u, user) repo \<Rightarrow> 'm message_model \<Rightarrow> ChatParticipant \<Rightarrow> string \<Rightarrow> string param \<Rightarrow>
    ('u, 'm, ChatMessageView) chat" where
  "sendMessage U M sender toUserId body =
     bindP (liftE (trimmed_body body)) (\<lambda>trimmed.
     if trimmed = [] then throwP (BadRequest MessageEmpty)
     else if length trimmed > MESSAGE_MAX_LENGTH then throwP (BadRequest MessageTooLong)
     else bindP (assertRecruiterFreelancePair U sender toUserId) (\<lambda>_.
          bindP (inMessages (mm_create M (conversationIdFor (cp_userId sender) toUserId) (cp_userId sender) trimmed)) (\<lambda>saved.
          returnP (toView saved))))"

definition history :: "('u, user) repo \<Rightarrow> 'm message_model \<Rightarrow> ChatParticipant \<Rightarrow> string \<Rightarrow>
    ('u, 'm, ChatMessageView list) chat" where
  "history U M reader otherUserId =
     bindP (assertRecruiterFreelancePair U reader otherUserId) (\<lambda>_.
     let conversationId = conversationIdFor (cp_userId reader) otherUserId in
     bindP (inMessages (mm_find M (\<lambda>m. m_conversationId m = conversationId) HISTORY_LIMIT)) (\<lambda>docs.
     returnP (map toView (rev docs))))"

definition other_ids :: "string \<Rightarrow> (string \<times> chat_message) list \<Rightarrow> string list" where
  "other_ids self rows = filter (\<lambda>i. i \<noteq> []) (concat (map (\<lambda>(i, newest).
     case otherParticipantId i self of None \<Rightarrow> [] | Some o' \<Rightarrow> [o']) rows))"

definition summary_of :: "string \<Rightarrow> user list \<Rightarrow> string \<times> chat_message \<Rightarrow> ConversationSummary list" where
  "summary_of self others row = (case row of (i, newest) \<Rightarrow>
     let otherId = otherParticipantId i self;
         other = (if truthy_str otherId then find (\<lambda>u. u_id u = the otherId) (rev others) else None)
     in case other of None \<Rightarrow> []
        | Some u \<Rightarrow> [\<lparr>s_conversationId = i,
            s_with = \<lparr>peer_id = u_id u, peer_username = u_username u, peer_role = u_role u\<rparr>,
            s_lastMessage = toView newest\<rparr>])"

definition conversations :: "('u, user) repo \<Rightarrow> 'm message_model \<Rightarrow> ChatParticipant \<Rightarrow>
    ('u, 'm, ConversationSummary list) chat" where
  "conversations U M reader =
     bindP (inMessages (mm_aggregate M (conversations_pipeline (cp_userId reader)))) (\<lambda>rows.
     let otherIds = other_ids (cp_userId reader) rows in
     bindP (if otherIds \<noteq> [] then inUsers (repo_find U (\<lambda>u. u_id u \<in> set otherIds)) else returnP []) (\<lambda>others.
     returnP (concat (map (summary_of (cp_userId reader) others) rows))))"

section \<open>The controller\<close>

definition get_chat_conversations :: "jwt \<Rightarrow> ('u, user) repo \<Rightarrow> 'm message_model \<Rightarrow> nat \<Rightarrow> string option \<Rightarrow>
    ('u, 'm, ConversationSummary list) chat" where
  "get_chat_conversations J U M now auth =
     jwt_guarded J now auth (\<lambda>user. conversations U M \<lparr>cp_userId = p_userId user, cp_role = p_role user\<rparr>)"

definition get_chat_with :: "jwt \<Rightarrow> (string \<Rightarrow> bool) \<Rightarrow> ('u, user) repo \<Rightarrow> 'm message_model \<Rightarrow> nat \<Rightarrow> string option \<Rightarrow>
    string \<Rightarrow> ('u, 'm, ChatMessageView list) chat" where
  "get_chat_with J is_uuid U M now auth userId =
     jwt_guarded J now auth (\<lambda>user.
     bindP (liftE (parse_uuid is_uuid userId)) (\<lambda>i.
     history U M \<lparr>cp_userId = p_userId user, cp_role = p_role user\<rparr> i))"

section \<open>The gateway\<close>

text \<open>What the gateway does to sockets, in order; a client is named by its socket id.\<close>

datatype socket_effect =
    Disconnect string
  | Join string string
  | Emit "string list" ChatMessageView

record ('u, 'm) gateway =
  gw_world :: "('u, 'm) chat_world"
  gw_user :: "string \<rightharpoonup> ChatParticipant"
  gw_effects :: "socket_effect list"

definition room_of :: "string \<Rightarrow> string" where
  "room_of userId = ''user:'' @ userId"

definition add_effect :: "socket_effect \<Rightarrow> ('u, 'm) gateway \<Rightarrow> ('u, 'm) gateway" where
  "add_effect e g = g\<lparr>gw_effects := gw_effects g @ [e]\<rparr>"

definition handleConnection :: "jwt \<Rightarrow> nat \<Rightarrow> string \<Rightarrow> string option \<Rightarrow> ('u, 'm) gateway \<Rightarrow> ('u, 'm) gateway" where
  "handleConnection J now client token g =
     (if \<not> truthy_str token then add_effect (Disconnect client) g
      else case jwt_verify J now (the token) of
        Inl _ \<Rightarrow> add_effect (Disconnect client) g
      | Inr payload \<Rightarrow>
          if cl_type payload \<noteq> Some ''access'' then add_effect (Disconnect client) g
          else let user = \<lparr>cp_userId = cl_userId payload, cp_role = cl_role payload\<rparr> in
               add_effect (Join client (room_of (cp_userId user))) (g\<lparr>gw_user := (gw_user g)(client \<mapsto> user)\<rparr>))"

datatype SendAck = Ack ChatMessageView | NotAuthenticated | Failed exn

definition onSendMessage :: "('u, user) repo \<Rightarrow> 'm message_model \<Rightarrow> string \<Rightarrow> string \<Rightarrow> string param \<Rightarrow>
    ('u, 'm) gateway \<Rightarrow> SendAck \<times> ('u, 'm) gateway" where
  "onSendMessage U M client toUserId body g = (case gw_user g client of
     None \<Rightarrow> (NotAuthenticated, g)
   | Some user \<Rightarrow> (case sendMessage U M user toUserId body (gw_world g) of
         (Inr message, w) \<Rightarrow>
           (Ack message, add_effect (Emit [room_of (cp_userId user), room_of toUserId] message) (g\<lparr>gw_world := w\<rparr>))
       | (Inl e, w) \<Rightarrow> (Failed e, g\<lparr>gw_world := w\<rparr>)))"

section \<open>Conversation identifiers\<close>

lemma conversationIdFor_eq: "conversationIdFor a b = (if a \<le> b then a @ CHR '':'' # b else b @ CHR '':'' # a)"
  by (simp add: conversationIdFor_def)

lemma conversationIdFor_commute: "conversationIdFor a b = conversationIdFor b a"
  by (auto simp: conversationIdFor_eq)

lemma split_conversation:
  assumes "CHR '':'' \<notin> set a" "CHR '':'' \<notin> set b"
  shows "js_split (CHR '':'') (conversationIdFor a b) = (if a \<le> b then [a, b] else [b, a])"
  using assms by (simp add: conversationIdFor_eq js_split_append js_split_no_sep)

lemma other_participant:
  assumes "CHR '':'' \<notin> set a" "CHR '':'' \<notin> set b" "a \<noteq> b"
  shows "otherParticipantId (conversationIdFor a b) a = Some b" "otherParticipantId (conversationIdFor a b) b = Some a"
  using assms by (auto simp: otherParticipantId_def split_conversation)

lemma conversationIdFor_inject:
  assumes "CHR '':'' \<notin> set a" "CHR '':'' \<notin> set b" "CHR '':'' \<notin> set c" "CHR '':'' \<notin> set d"
    and "conversationIdFor a b = conversationIdFor c d"
  shows "{a, b} = {c, d}"
proof -
  have "(if a \<le> b then [a, b] else [b, a]) = (if c \<le> d then [c, d] else [d, c])"
    using split_conversation [OF assms(1,2)] split_conversation [OF assms(3,4)] assms(5) by simp
  then show ?thesis by (auto split: if_splits)
qed

text \<open>An identifier of a user: no separator, and all of one length, that of a UUID.\<close>

definition id_ok :: "string \<Rightarrow> bool" where
  "id_ok i \<longleftrightarrow> plain_regex i \<and> length i = 36"

lemma id_ok_no_colon: "id_ok i \<Longrightarrow> CHR '':'' \<notin> set i"
  by (auto simp: id_ok_def plain_regex_def is_decimal_def less_eq_char_def)

lemma sublist_around:
  assumes "sublist r (a @ c # b)" "c \<notin> set r"
  shows "sublist r a \<or> sublist r b"
proof -
  obtain ps ss where eq: "a @ c # b = ps @ r @ ss" using assms(1) by (auto simp: sublist_def)
  then consider us where "a = ps @ us" "us @ c # b = r @ ss" | us where "ps = a @ us" "c # b = us @ r @ ss"
    by (auto simp: append_eq_append_conv2)
  then show ?thesis
  proof cases
    case (1 us)
    then obtain vs where "us = r @ vs \<or> us @ vs = r \<and> c # b = vs @ ss" by (auto simp: append_eq_append_conv2)
    then show ?thesis
    proof
      assume "us = r @ vs"
      with 1 show ?thesis by (auto simp: sublist_def)
    next
      assume vs: "us @ vs = r \<and> c # b = vs @ ss"
      show ?thesis
      proof (cases vs)
        case Nil
        with vs 1 have "a = ps @ r @ []" by auto
        then show ?thesis unfolding sublist_def by blast
      next
        case (Cons v vs')
        with vs assms(2) show ?thesis by auto
      qed
    qed
  next
    case (2 us)
    then have "us = [] \<and> r = [] \<or> us = [] \<and> r \<noteq> [] \<or> (\<exists>us'. us = c # us' \<and> b = us' @ r @ ss)" by (cases us) auto
    with 2 assms(2) show ?thesis by (cases r) (auto simp: sublist_def)
  qed
qed

lemma sublist_same_length: "sublist r a \<Longrightarrow> length r = length a \<Longrightarrow> r = a"
  by (auto simp: sublist_def)

lemma includes_participant:
  assumes "id_ok r" "id_ok a" "id_ok b"
  shows "js_includes (conversationIdFor a b) r \<longleftrightarrow> r = a \<or> r = b"
proof
  assume "js_includes (conversationIdFor a b) r"
  then have "sublist r a \<or> sublist r b"
    using sublist_around [of r a "CHR '':''" b] sublist_around [of r b "CHR '':''" a] id_ok_no_colon [OF assms(1)]
    by (auto simp: js_includes_iff conversationIdFor_eq split: if_splits)
  then show "r = a \<or> r = b"
    using assms by (auto simp: id_ok_def dest: sublist_same_length)
next
  assume "r = a \<or> r = b"
  then show "js_includes (conversationIdFor a b) r"
    by (auto simp: js_includes_iff conversationIdFor_eq sublist_def)
       (metis append.assoc append_Cons append_Nil append_Nil2)+
qed

section \<open>The service on lawful stores\<close>

lemma is_pair_iff: "is_pair mine theirs \<longleftrightarrow>
    mine = Some RECRUITER \<and> theirs = FREELANCE \<or> mine = Some FREELANCE \<and> theirs = RECRUITER"
proof (cases mine)
  case None
  then show ?thesis by (auto simp: is_pair_def Let_def)
next
  case (Some r)
  then show ?thesis by (cases r; cases theirs) (simp_all add: is_pair_def Let_def card_insert_if)
qed

locale chat_store = U: repository U tblu u_id + M: message_store M docs
  for U :: "('u, user) repo" and tblu :: "'u \<Rightarrow> string \<rightharpoonup> user"
    and M :: "'m message_model" and docs :: "'m \<Rightarrow> chat_message list"
begin

lemma pair_result:
  assumes run: "assertRecruiterFreelancePair U p i w = (r, w')"
  obtains (refused) e where "r = Inl e" "tblu (cw_users w') = tblu (cw_users w)" "cw_messages w' = cw_messages w"
      "e = LibraryError \<or> e = NotFound UserNotFound \<and> tblu (cw_users w) i = None \<or>
       (\<exists>u. e = Forbidden NotARecruiterFreelancePair \<and> tblu (cw_users w) i = Some u \<and> \<not> is_pair (cp_role p) (u_role u))"
  | (pair) u where "r = Inr u" "tblu (cw_users w') = tblu (cw_users w)" "cw_messages w' = cw_messages w"
      "tblu (cw_users w) i = Some u" "is_pair (cp_role p) (u_role u)"
proof -
  obtain q x where q: "repo_findOne U (\<lambda>u. u_id u = i) (cw_users w) = (q, x)" by fastforce
  have tx: "tblu x = tblu (cw_users w)" by (rule U.findOne_frame [OF q])
  have qq: "q = Inl LibraryError \<or> q = Inr (tblu (cw_users w) i)"
    using q U.findOne_error U.findOne_by_key by (cases q) blast+
  show thesis
    using run q tx qq refused pair
    by (cases "tblu (cw_users w) i")
      (auto simp: assertRecruiterFreelancePair_def bindP_def inUsers_def liftP_def throwP_def returnP_def split: if_splits)
qed

lemma create_result:
  assumes run: "bindP (inMessages (mm_create M c f s)) (\<lambda>saved. returnP (toView saved)) w = (r, w')"
  obtains (lost) "r = Inl LibraryError" "cw_users w' = cw_users w" "docs (cw_messages w') = docs (cw_messages w)"
  | (unknown) m where "r = Inl LibraryError" "cw_users w' = cw_users w"
      "docs (cw_messages w') = docs (cw_messages w) @ [m]" "is_message m c f s"
  | (created) m where "r = Inr (toView m)" "cw_users w' = cw_users w"
      "docs (cw_messages w') = docs (cw_messages w) @ [m]" "is_message m c f s"
proof -
  obtain z y where z: "mm_create M c f s (cw_messages w) = (z, y)" by fastforce
  have w': "cw_messages w' = y" "cw_users w' = cw_users w" "r = (case z of Inl e \<Rightarrow> Inl e | Inr m \<Rightarrow> Inr (toView m))"
    using run z by (auto simp: bindP_def inMessages_def liftP_def returnP_def split: sum.splits)
  show thesis
  proof (cases z)
    case (Inl e)
    with M.create_fail [OF z [unfolded Inl]] w' lost unknown show thesis by auto
  next
    case (Inr m)
    with M.create_ok [OF z [unfolded Inr]] w' show thesis by (intro created [of m]) auto
  qed
qed

text \<open>\<open>sendMessage\<close> on every branch.\<close>

lemma send_result:
  assumes run: "sendMessage U M p i body w = (r, w')"
  obtains (refused) e where "r = Inl e" "tblu (cw_users w') = tblu (cw_users w)"
      "docs (cw_messages w') = docs (cw_messages w)"
      "e \<in> {LibraryError, NotFound UserNotFound, Forbidden NotARecruiterFreelancePair} \<or>
       e = BadRequest MessageEmpty \<and> trimmed_body body = Inr [] \<or>
       (\<exists>s. e = BadRequest MessageTooLong \<and> trimmed_body body = Inr s \<and> MESSAGE_MAX_LENGTH < length s)"
  | (failed) s m where "r = Inl LibraryError" "tblu (cw_users w') = tblu (cw_users w)"
      "trimmed_body body = Inr s" "is_message m (conversationIdFor (cp_userId p) i) (cp_userId p) s"
      "docs (cw_messages w') = docs (cw_messages w) @ [m]" "tblu (cw_users w) i \<noteq> None"
  | (sent) s u m where "r = Inr (toView m)" "tblu (cw_users w') = tblu (cw_users w)"
      "trimmed_body body = Inr s" "s \<noteq> []" "length s \<le> MESSAGE_MAX_LENGTH"
      "tblu (cw_users w) i = Some u" "is_pair (cp_role p) (u_role u)"
      "is_message m (conversationIdFor (cp_userId p) i) (cp_userId p) s"
      "docs (cw_messages w') = docs (cw_messages w) @ [m]"
proof -
  consider e where "trimmed_body body = Inl e" | "trimmed_body body = Inr []"
    | s where "trimmed_body body = Inr s" "MESSAGE_MAX_LENGTH < length s"
    | s where "trimmed_body body = Inr s" "s \<noteq> []" "length s \<le> MESSAGE_MAX_LENGTH"
    by (cases "trimmed_body body") force+
  then show thesis
  proof cases
    case (1 e)
    then have "e = LibraryError" by (auto simp: trimmed_body_def split: param.splits)
    with 1 run show thesis by (intro refused [of e]) (auto simp: sendMessage_def)
  next
    case 2
    with run show thesis by (intro refused [of "BadRequest MessageEmpty"]) (auto simp: sendMessage_def)
  next
    case (3 s)
    then have "s \<noteq> []" by auto
    with 3 run show thesis by (intro refused [of "BadRequest MessageTooLong"]) (auto simp: sendMessage_def)
  next
    case (4 s)
    then have run': "bindP (assertRecruiterFreelancePair U p i) (\<lambda>_.
        bindP (inMessages (mm_create M (conversationIdFor (cp_userId p) i) (cp_userId p) s)) (\<lambda>saved.
        returnP (toView saved))) w = (r, w')"
      using run by (simp add: sendMessage_def)
    obtain q w1 where q: "assertRecruiterFreelancePair U p i w = (q, w1)" by fastforce
    show thesis
    proof (rule pair_result [OF q])
      fix e assume "q = Inl e" "tblu (cw_users w1) = tblu (cw_users w)" "cw_messages w1 = cw_messages w"
        "e = LibraryError \<or> e = NotFound UserNotFound \<and> tblu (cw_users w) i = None \<or>
         (\<exists>u. e = Forbidden NotARecruiterFreelancePair \<and> tblu (cw_users w) i = Some u \<and> \<not> is_pair (cp_role p) (u_role u))"
      with run' q show thesis by (intro refused [of e]) (auto simp: bindP_def)
    next
      fix u assume u: "q = Inr u" "tblu (cw_users w1) = tblu (cw_users w)" "cw_messages w1 = cw_messages w"
        "tblu (cw_users w) i = Some u" "is_pair (cp_role p) (u_role u)"
      with run' q have "bindP (inMessages (mm_create M (conversationIdFor (cp_userId p) i) (cp_userId p) s)) (\<lambda>saved.
          returnP (toView saved)) w1 = (r, w')" by (simp add: bindP_def [of "assertRecruiterFreelancePair U p i"])
      then show thesis
        by (rule create_result; use u 4 refused [of LibraryError] failed [of s] sent [of _ s u] in simp)
    qed
  qed
qed

text \<open>\<open>history\<close>, when it returns.\<close>

lemma history_result:
  assumes run: "history U M p i w = (Inr vs, w')"
  shows "\<exists>u al. tblu (cw_users w) i = Some u \<and> is_pair (cp_role p) (u_role u) \<and>
      mset al = mset (filter (\<lambda>m. m_conversationId m = conversationIdFor (cp_userId p) i) (docs (cw_messages w))) \<and>
      sorted (map m_createdAt (rev al)) \<and> vs = map toView (rev (take HISTORY_LIMIT al)) \<and>
      docs (cw_messages w') = docs (cw_messages w)"
proof -
  let ?P = "\<lambda>m. m_conversationId m = conversationIdFor (cp_userId p) i"
  obtain u w1 ms x where q: "assertRecruiterFreelancePair U p i w = (Inr u, w1)"
    and f: "mm_find M ?P HISTORY_LIMIT (cw_messages w1) = (Inr ms, x)" and v: "vs = map toView (rev ms)"
    and w': "cw_messages w' = x"
    using run by (auto simp: history_def bindP_Inr_iff in_iff Let_def)
  have u: "tblu (cw_users w) i = Some u" "is_pair (cp_role p) (u_role u)" "cw_messages w1 = cw_messages w"
    by (rule pair_result [OF q], simp_all)+
  from M.find_ok [OF f] M.find_frame [OF f] u v w' show ?thesis by auto
qed

end

lemma chat_storeI: "repository U tblu u_id \<Longrightarrow> message_store M docs \<Longrightarrow> chat_store U tblu M docs"
  by (rule chat_store.intro)

interpretation mem_chat: chat_store users_table "mem_tbl u_id" mem_messages "\<lambda>ds. ds"
  ..

section \<open>The list of conversations\<close>

lemma summary_of_cases:
  obtains "summary_of self others row = []"
  | u oid where "otherParticipantId (fst row) self = Some oid" "u \<in> set others" "u_id u = oid"
      "summary_of self others row = [\<lparr>s_conversationId = fst row,
         s_with = \<lparr>peer_id = u_id u, peer_username = u_username u, peer_role = u_role u\<rparr>,
         s_lastMessage = toView (snd row)\<rparr>]"
proof (cases "otherParticipantId (fst row) self")
  case None
  with that(1) show thesis by (cases row) (simp add: summary_of_def truthy_str_def)
next
  case (Some oid)
  show thesis
  proof (cases "if truthy_str (Some oid) then find (\<lambda>u. u_id u = oid) (rev others) else None")
    case None
    with Some that(1) show thesis by (cases row) (simp add: summary_of_def Let_def cong: if_cong)
  next
    case u: (Some u)
    then have "u \<in> set others \<and> u_id u = oid" by (auto split: if_splits dest: find_SomeD)
    with Some u show thesis by (intro that(2) [of oid u]; cases row) (simp_all add: summary_of_def Let_def cong: if_cong)
  qed
qed

lemma summary_of_maps:
  "map s_conversationId (concat (map (summary_of self others) rows)) =
     map fst (filter (\<lambda>row. summary_of self others row \<noteq> []) rows)"
  "map (\<lambda>s. v_createdAt (s_lastMessage s)) (concat (map (summary_of self others) rows)) =
     map (\<lambda>row. m_createdAt (snd row)) (filter (\<lambda>row. summary_of self others row \<noteq> []) rows)"
proof (induction rows)
  case (Cons row rows)
  { case 1 from Cons show ?case by (cases rule: summary_of_cases [of self others row]) (simp_all add: toView_def) }
  { case 2 from Cons show ?case by (cases rule: summary_of_cases [of self others row]) (simp_all add: toView_def) }
qed simp_all

context chat_store
begin

lemma conversations_result:
  assumes run: "conversations U M p w = (Inr ss, w')" and plain: "plain_regex (cp_userId p)"
  shows "\<exists>rows others. conversation_heads (docs (cw_messages w)) (cp_userId p) rows \<and>
    (\<forall>u \<in> set others. tblu (cw_users w) (u_id u) = Some u) \<and>
    ss = concat (map (summary_of (cp_userId p) others) rows)"
proof -
  obtain rows x others w1 where a: "mm_aggregate M (conversations_pipeline (cp_userId p)) (cw_messages w) = (Inr rows, x)"
    and o': "(if other_ids (cp_userId p) rows \<noteq> [] then inUsers (repo_find U (\<lambda>u. u_id u \<in> set (other_ids (cp_userId p) rows)))
       else returnP []) (w\<lparr>cw_messages := x\<rparr>) = (Inr others, w1)"
    and ss: "ss = concat (map (summary_of (cp_userId p) others) rows)"
    using run by (auto simp: conversations_def bindP_Inr_iff in_iff Let_def)
  have "\<forall>u \<in> set others. tblu (cw_users w) (u_id u) = Some u"
    using o' U.find_rows by (fastforce simp: in_iff split: if_splits)
  with M.aggregate_ok [OF a plain] ss show ?thesis by blast
qed

end

text \<open>A row of the aggregation, for a user with a well-formed id.\<close>

lemma head_row:
  assumes heads: "conversation_heads ds me rows" and me: "id_ok me"
    and wf: "\<And>m. m \<in> set ds \<Longrightarrow> \<exists>a b. id_ok a \<and> id_ok b \<and> a \<noteq> b \<and> m_conversationId m = conversationIdFor a b"
    and row: "(i, m) \<in> set rows" and other: "otherParticipantId i me = Some oid"
  shows "i = conversationIdFor me oid"
proof -
  have "i \<in> fst ` set rows" using row by force
  then obtain d where d: "d \<in> set ds" "js_includes (m_conversationId d) me" "i = m_conversationId d"
    using heads unfolding conversation_heads_def by auto
  obtain a b where ab: "id_ok a" "id_ok b" "a \<noteq> b" "i = conversationIdFor a b" using wf [OF d(1)] d(3) by auto
  then have "me = a \<or> me = b" using includes_participant [OF me ab(1,2)] d(2,3) by simp
  then show ?thesis
    using ab other other_participant [OF id_ok_no_colon id_ok_no_colon, of a b] conversationIdFor_commute [of a b] by auto
qed

section \<open>The gateway over time\<close>

text \<open>
  A step: a new socket with any handshake, a \<open>message:send\<close> of any socket with any payload, or
  anything else that happens to the stores.
\<close>

fun mentions :: "string \<Rightarrow> socket_effect \<Rightarrow> bool" where
  "mentions c (Disconnect d) \<longleftrightarrow> d = c"
| "mentions c (Join d r) \<longleftrightarrow> d = c"
| "mentions c (Emit rs v) \<longleftrightarrow> False"

inductive gateway_step :: "jwt \<Rightarrow> ('u, user) repo \<Rightarrow> 'm message_model \<Rightarrow> ('u, 'm) gateway \<Rightarrow> ('u, 'm) gateway \<Rightarrow> bool"
  for J U M where
  connect: "gw_user g client = None \<Longrightarrow> filter (mentions client) (gw_effects g) = [] \<Longrightarrow>
    gateway_step J U M g (handleConnection J now client token g)"
| send: "onSendMessage U M client to body g = (ack, g') \<Longrightarrow> gateway_step J U M g g'"
| world: "gateway_step J U M g (g\<lparr>gw_world := w\<rparr>)"

text \<open>
  A socket is in no room but its user's; its user comes from a verified access token; an emission
  goes to the rooms of the sender, who is a user of some socket, and of the addressee.
\<close>

definition gateway_ok :: "jwt \<Rightarrow> ('u, 'm) gateway \<Rightarrow> bool" where
  "gateway_ok J g \<longleftrightarrow>
     (\<forall>c r. Join c r \<in> set (gw_effects g) \<longrightarrow> (\<exists>u. gw_user g c = Some u \<and> r = room_of (cp_userId u))) \<and>
     (\<forall>c u. gw_user g c = Some u \<longrightarrow> (\<exists>now tok p. jwt_verify J now tok = Inr p \<and> cl_type p = Some ''access'' \<and>
        cp_userId u = cl_userId p \<and> cp_role u = cl_role p)) \<and>
     (\<forall>rs v. Emit rs v \<in> set (gw_effects g) \<longrightarrow> (\<exists>c u to. gw_user g c = Some u \<and> v_senderId v = cp_userId u \<and>
        v_conversationId v = conversationIdFor (cp_userId u) to \<and> rs = [room_of (cp_userId u), room_of to]))"

lemma room_of_inject [simp]: "room_of a = room_of b \<longleftrightarrow> a = b"
  by (simp add: room_of_def)

lemma gateway_ok_connect:
  assumes ok: "gateway_ok J g" and new: "gw_user g client = None"
  shows "gateway_ok J (handleConnection J now client token g)"
proof -
  have old: "gateway_ok J (add_effect (Disconnect client) g)" using ok by (simp add: gateway_ok_def add_effect_def)
  consider "handleConnection J now client token g = add_effect (Disconnect client) g"
    | p where "jwt_verify J now (the token) = Inr p" "cl_type p = Some ''access''"
        "handleConnection J now client token g = add_effect (Join client (room_of (cl_userId p)))
           (g\<lparr>gw_user := (gw_user g)(client \<mapsto> \<lparr>cp_userId = cl_userId p, cp_role = cl_role p\<rparr>)\<rparr>)"
    by (cases "truthy_str token"; cases "jwt_verify J now (the token)";
        cases "cl_type (projr (jwt_verify J now (the token))) = Some ''access''")
      (auto simp: handleConnection_def Let_def)
  then show ?thesis
  proof cases
    case 1
    with old show ?thesis by simp
  next
    case (2 p)
    let ?u = "(gw_user g)(client \<mapsto> \<lparr>cp_userId = cl_userId p, cp_role = cl_role p\<rparr>)"
    have ext: "gw_user g c = Some u \<Longrightarrow> ?u c = Some u" for c u using new by auto
    have "\<exists>u. ?u c = Some u \<and> r = room_of (cp_userId u)" if "Join c r \<in> set (gw_effects g) \<or> c = client \<and> r = room_of (cl_userId p)" for c r
      using that
    proof
      assume "Join c r \<in> set (gw_effects g)"
      then obtain u where "gw_user g c = Some u" "r = room_of (cp_userId u)" using ok by (auto simp: gateway_ok_def)
      with ext show ?thesis by blast
    qed simp
    moreover have "\<exists>now tok p. jwt_verify J now tok = Inr p \<and> cl_type p = Some ''access'' \<and>
        cp_userId u = cl_userId p \<and> cp_role u = cl_role p" if "?u c = Some u" for c u
      using that ok 2(1,2) by (cases "c = client") (fastforce simp: gateway_ok_def)+
    moreover have "\<exists>c u to. ?u c = Some u \<and> v_senderId v = cp_userId u \<and>
        v_conversationId v = conversationIdFor (cp_userId u) to \<and> rs = [room_of (cp_userId u), room_of to]"
      if "Emit rs v \<in> set (gw_effects g)" for rs v
      using that ok ext unfolding gateway_ok_def by blast
    ultimately show ?thesis unfolding 2(3) gateway_ok_def add_effect_def by auto
  qed
qed

context chat_store
begin

lemma gateway_ok_send:
  assumes ok: "gateway_ok J g" and run: "onSendMessage U M client i body g = (ack, g')"
  shows "gateway_ok J g'"
proof (cases "gw_user g client")
  case None
  with ok run show ?thesis by (simp add: onSendMessage_def)
next
  case (Some user)
  obtain r w where s: "sendMessage U M user i body (gw_world g) = (r, w)" by fastforce
  show ?thesis
  proof (cases r)
    case (Inl e)
    then have "g' = g\<lparr>gw_world := w\<rparr>" using run s Some by (simp add: onSendMessage_def)
    with ok show ?thesis by (simp add: gateway_ok_def)
  next
    case (Inr v)
    have v: "v_senderId v = cp_userId user" "v_conversationId v = conversationIdFor (cp_userId user) i"
      using Inr by (rule_tac send_result [OF s]; auto simp: toView_def is_message_def)+
    have "g' = add_effect (Emit [room_of (cp_userId user), room_of i] v) (g\<lparr>gw_world := w\<rparr>)"
      using run s Some Inr by (simp add: onSendMessage_def)
    with ok v Some show ?thesis by (auto simp: gateway_ok_def add_effect_def)
  qed
qed

lemma gateway_step_ok: "gateway_step J U M g g' \<Longrightarrow> gateway_ok J g \<Longrightarrow> gateway_ok J g'"
proof (induction rule: gateway_step.induct)
  case (world g w)
  then show ?case by (simp add: gateway_ok_def)
qed (auto intro: gateway_ok_connect gateway_ok_send)

lemma gateway_steps_ok: "(gateway_step J U M)\<^sup>*\<^sup>* g g' \<Longrightarrow> gateway_ok J g \<Longrightarrow> gateway_ok J g'"
  by (induction rule: rtranclp_induct) (auto intro: gateway_step_ok)

end

lemma gateway_ok_empty: "gateway_ok J \<lparr>gw_world = w, gw_user = Map.empty, gw_effects = []\<rparr>"
  by (simp add: gateway_ok_def)

section \<open>Properties\<close>

text \<open>
  Conversation identifiers. For two different users whose ids have no colon, the identifier
  does not depend on who asks, each of them reads the other back from it, and no other pair of such
  ids has the same identifier.
\<close>

theorem conversation_id_roundtrip:
  assumes "CHR '':'' \<notin> set a" "CHR '':'' \<notin> set b" "a \<noteq> b" "CHR '':'' \<notin> set c" "CHR '':'' \<notin> set d"
  shows "conversationIdFor a b = conversationIdFor b a \<and>
    otherParticipantId (conversationIdFor a b) a = Some b \<and> otherParticipantId (conversationIdFor a b) b = Some a \<and>
    (conversationIdFor c d = conversationIdFor a b \<longrightarrow> {c, d} = {a, b})"
  using conversationIdFor_commute other_participant [OF assms(1-3)]
    conversationIdFor_inject [OF assms(4,5,1,2)] by blast

theorem conversation_id_roundtrip_witness:
  "otherParticipantId (conversationIdFor ''u2'' ''u1'') ''u2'' = Some ''u1''"
proof -
  have "conversationIdFor ''u2'' ''u1'' = conversationIdFor ''u1'' ''u2'' \<and>
      otherParticipantId (conversationIdFor ''u2'' ''u1'') ''u2'' = Some ''u1'' \<and>
      otherParticipantId (conversationIdFor ''u2'' ''u1'') ''u1'' = Some ''u2'' \<and>
      (conversationIdFor ''a'' ''b'' = conversationIdFor ''u2'' ''u1'' \<longrightarrow> {''a'', ''b''} = {''u2'', ''u1''})"
    by (rule conversation_id_roundtrip) simp_all
  then show ?thesis by blast
qed

text \<open>
  Sending. A message that is accepted is the trimmed text, not empty and at most 2000
  characters long, from a recruiter to an existing freelance or the other way round; it is
  appended to the collection under the conversation of the two, and the view that is returned is
  that document. A refusal for any reason of the service leaves the collection as it was.
\<close>

theorem send_message_correct:
  assumes "repository U tblu u_id" "message_store M docs"
    and run: "sendMessage U M sender to body w = (r, w')"
  shows "case r of
      Inl e \<Rightarrow> e \<noteq> LibraryError \<longrightarrow> docs (cw_messages w') = docs (cw_messages w)
    | Inr v \<Rightarrow> \<exists>raw u m. (body = Given raw \<or> body = Absent \<and> raw = []) \<and> js_trim raw \<noteq> [] \<and> length (js_trim raw) \<le> 2000 \<and>
        tblu (cw_users w) to = Some u \<and>
        (cp_role sender = Some RECRUITER \<and> u_role u = FREELANCE \<or> cp_role sender = Some FREELANCE \<and> u_role u = RECRUITER) \<and>
        m_conversationId m = conversationIdFor (cp_userId sender) to \<and> m_senderId m = cp_userId sender \<and>
        m_body m = js_trim raw \<and> v = toView m \<and> docs (cw_messages w') = docs (cw_messages w) @ [m]"
proof -
  have cs: "chat_store U tblu M docs" using assms(1,2) by (rule chat_storeI)
  show ?thesis
  proof (rule chat_store.send_result [OF cs run])
    fix s u m
    assume *: "r = Inr (toView m)" "trimmed_body body = Inr s" "s \<noteq> []" "length s \<le> MESSAGE_MAX_LENGTH"
      "tblu (cw_users w) to = Some u" "is_pair (cp_role sender) (u_role u)"
      "is_message m (conversationIdFor (cp_userId sender) to) (cp_userId sender) s"
      "docs (cw_messages w') = docs (cw_messages w) @ [m]"
    from *(2) obtain raw where "body = Given raw \<or> body = Absent \<and> raw = []" "s = js_trim raw"
      by (auto simp: trimmed_body_def split: param.splits)
    with * show ?thesis
      by (simp add: is_pair_iff is_message_def MESSAGE_MAX_LENGTH_def) (intro exI [of _ raw] conjI exI [of _ m]; simp)
  qed auto
qed

definition chat_world1 :: "(user list, chat_message list) chat_world" where
  "chat_world1 = \<lparr>cw_users = [mk_user ''f1'' FREELANCE, mk_user ''r1'' RECRUITER], cw_messages = []\<rparr>"

definition recruiter1 :: ChatParticipant where
  "recruiter1 = \<lparr>cp_userId = ''r1'', cp_role = Some RECRUITER\<rparr>"

lemma trim_hi: "js_trim ''  hi '' = ''hi''"
  by (simp add: js_trim_def is_js_space_def)

theorem send_message_correct_witness:
  "\<exists>v. fst (sendMessage users_table mem_messages recruiter1 ''f1'' (Given ''  hi '') chat_world1) = Inr v \<and>
     v_body v = ''hi'' \<and> v_conversationId v = conversationIdFor ''r1'' ''f1''"
proof -
  let ?run = "sendMessage users_table mem_messages recruiter1 ''f1'' (Given ''  hi '') chat_world1"
  have "\<exists>v. fst ?run = Inr v"
    by (simp add: sendMessage_def trimmed_body_def trim_hi MESSAGE_MAX_LENGTH_def assertRecruiterFreelancePair_def
        recruiter1_def is_pair_iff bindP_def inUsers_def inMessages_def liftP_def liftE_def returnP_def chat_world1_def
        table_run table_rows mem_messages_def Let_def)
  then obtain v where v: "?run = (Inr v, snd ?run)" by (metis prod.collapse)
  have f: "fst ?run = Inr v" by (subst v) simp
  from send_message_correct [OF users_tbl.repository_axioms mem_ms.message_store_axioms v]
  have "v_body v = ''hi'' \<and> v_conversationId v = conversationIdFor ''r1'' ''f1''"
    by (auto simp: trim_hi toView_def recruiter1_def)
  with f show ?thesis by blast
qed

text \<open>
  C23. History. The route of a thread answers for the user of the token, with another user of the
  opposite role: the messages of their conversation only, in chronological order, at most fifty,
  and no message that is left out is newer than one that is shown; nothing is written.
\<close>

theorem history_route_correct:
  assumes "repository U tblu u_id" "message_store M docs"
    and run: "get_chat_with J is_uuid U M now auth other w = (Inr vs, w')"
  shows "\<exists>user u ms rest. JwtAuthGuard_canActivate J now auth = Inr user \<and> tblu (cw_users w) other = Some u \<and>
      (p_role user = Some RECRUITER \<and> u_role u = FREELANCE \<or> p_role user = Some FREELANCE \<and> u_role u = RECRUITER) \<and>
      mset (ms @ rest) = mset (filter (\<lambda>m. m_conversationId m = conversationIdFor (p_userId user) other) (docs (cw_messages w))) \<and>
      vs = map toView ms \<and> sorted (map m_createdAt ms) \<and> length ms = min 50 (length (ms @ rest)) \<and>
      (\<forall>x \<in> set rest. \<forall>y \<in> set ms. m_createdAt x \<le> m_createdAt y) \<and>
      docs (cw_messages w') = docs (cw_messages w)"
proof -
  have cs: "chat_store U tblu M docs" using assms(1,2) by (rule chat_storeI)
  obtain user where user: "JwtAuthGuard_canActivate J now auth = Inr user"
    and h: "history U M \<lparr>cp_userId = p_userId user, cp_role = p_role user\<rparr> other w = (Inr vs, w')"
    using run by (cases "JwtAuthGuard_canActivate J now auth")
      (auto simp: get_chat_with_def jwt_guarded_def bindP_Inr_iff parse_uuid_def split: if_splits)
  obtain u al where u: "tblu (cw_users w) other = Some u" "is_pair (p_role user) (u_role u)"
    and al: "mset al = mset (filter (\<lambda>m. m_conversationId m = conversationIdFor (p_userId user) other) (docs (cw_messages w)))"
      "sorted (map m_createdAt (rev al))"
    and vs: "vs = map toView (rev (take HISTORY_LIMIT al))" "docs (cw_messages w') = docs (cw_messages w)"
    using chat_store.history_result [OF cs h] by auto
  let ?ms = "rev (take 50 al)" and ?rest = "drop 50 al"
  have "rev al = rev ?rest @ ?ms" by (metis append_take_drop_id rev_append)
  then have "sorted (map m_createdAt (rev ?rest @ ?ms))" using al(2) by simp
  then have ord: "sorted (map m_createdAt ?ms)" "\<forall>x \<in> set ?rest. \<forall>y \<in> set ?ms. m_createdAt x \<le> m_createdAt y"
    unfolding map_append sorted_append by auto
  have "mset (?ms @ ?rest) = mset al" by (metis append_take_drop_id mset_append mset_rev)
  then show ?thesis
    using user u al(1) vs ord
    by (intro exI [of _ user] exI [of _ u] exI [of _ ?ms] exI [of _ ?rest])
      (simp add: is_pair_iff HISTORY_LIMIT_def min_def)
qed

definition chat_world2 :: "(user list, chat_message list) chat_world" where
  "chat_world2 = \<lparr>cw_users = [mk_user ''f1'' FREELANCE, mk_user ''r1'' RECRUITER],
     cw_messages = [\<lparr>m_id = ''m1'', m_conversationId = conversationIdFor ''f1'' ''r1'', m_senderId = ''f1'',
       m_body = ''hi'', m_createdAt = 1\<rparr>]\<rparr>"

theorem history_route_correct_witness:
  "\<exists>vs. fst (get_chat_with mem_jwt (\<lambda>s. True) users_table mem_messages 10 (bearer ''r1'' RECRUITER) ''f1'' chat_world2) = Inr vs \<and>
     (\<exists>ms :: chat_message list. vs = map toView ms \<and> sorted (map m_createdAt ms))"
proof -
  let ?run = "get_chat_with mem_jwt (\<lambda>s. True) users_table mem_messages 10 (bearer ''r1'' RECRUITER) ''f1'' chat_world2"
  have "\<exists>vs. fst ?run = Inr vs"
    by (simp add: get_chat_with_def jwt_guarded_passes [OF bearer_ok] parse_uuid_def history_def
        assertRecruiterFreelancePair_def is_pair_iff bindP_def inUsers_def inMessages_def liftP_def liftE_def returnP_def
        chat_world2_def table_run table_rows mem_messages_def Let_def)
  then obtain vs where v: "?run = (Inr vs, snd ?run)" by (metis prod.collapse)
  have f: "fst ?run = Inr vs" by (subst v) simp
  from history_route_correct [OF users_tbl.repository_axioms mem_ms.message_store_axioms v] f show ?thesis by blast
qed


definition uuid1 :: string where "uuid1 = replicate 36 CHR ''1''"
definition uuid2 :: string where "uuid2 = replicate 36 CHR ''2''"

lemma uuids_ok: "id_ok uuid1" "id_ok uuid2" "uuid1 \<noteq> uuid2"
  by (auto simp: id_ok_def plain_regex_def uuid1_def uuid2_def is_decimal_def)

definition message1 :: chat_message where
  "message1 = \<lparr>m_id = ''m1'', m_conversationId = conversationIdFor uuid1 uuid2, m_senderId = uuid1, m_body = ''hi'', m_createdAt = 1\<rparr>"

definition chat_world3 :: "(user list, chat_message list) chat_world" where
  "chat_world3 = \<lparr>cw_users = [mk_user uuid1 FREELANCE, mk_user uuid2 RECRUITER], cw_messages = [message1]\<rparr>"


text \<open>
  C25. Real-time privacy. In every reachable state of the gateway, a socket that has joined a room
  a message was emitted to belongs to a user whose access token was verified, and this user is the
  sender of the message or the other member of its conversation; the sender, too, was
  authenticated by an access token.
\<close>

theorem gateway_privacy:
  assumes "repository U tblu u_id" "message_store M docs"
    and "(gateway_step J U M)\<^sup>*\<^sup>* \<lparr>gw_world = w0, gw_user = Map.empty, gw_effects = []\<rparr> g"
    and "Emit rooms v \<in> set (gw_effects g)" "Join client r \<in> set (gw_effects g)" "r \<in> set rooms"
  shows "\<exists>u now tok p. gw_user g client = Some u \<and> jwt_verify J now tok = Inr p \<and> cl_type p = Some ''access'' \<and>
    cl_userId p = cp_userId u \<and>
    (cp_userId u = v_senderId v \<or> v_conversationId v = conversationIdFor (v_senderId v) (cp_userId u)) \<and>
    (\<exists>c s. gw_user g c = Some s \<and> cp_userId s = v_senderId v)"
proof -
  have ok: "gateway_ok J g"
    using chat_store.gateway_steps_ok [OF chat_storeI [OF assms(1,2)] assms(3) gateway_ok_empty] .
  then obtain u where u: "gw_user g client = Some u" "r = room_of (cp_userId u)" using assms(5) by (auto simp: gateway_ok_def)
  obtain c s to where s: "gw_user g c = Some s" "v_senderId v = cp_userId s"
      "v_conversationId v = conversationIdFor (cp_userId s) to" "rooms = [room_of (cp_userId s), room_of to]"
    using ok assms(4) unfolding gateway_ok_def by blast
  obtain now tok p where "jwt_verify J now tok = Inr p" "cl_type p = Some ''access''" "cp_userId u = cl_userId p"
    using ok u(1) unfolding gateway_ok_def by blast
  with u s assms(6) show ?thesis
    by (intro exI [of _ u] exI [of _ now] exI [of _ tok] exI [of _ p]) auto
qed

text \<open>The recruiter connects and writes to the freelance.\<close>

definition token_of :: "string \<Rightarrow> UserRole \<Rightarrow> string" where
  "token_of i role = jwt_sign mem_jwt 0
     \<lparr>cl_userId = i, cl_email = None, cl_role = Some role, cl_type = Some ''access'', cl_jti = None\<rparr> 900"

definition gateway0 :: "(user list, chat_message list) gateway" where
  "gateway0 = \<lparr>gw_world = chat_world1, gw_user = Map.empty, gw_effects = []\<rparr>"

definition gateway1 :: "(user list, chat_message list) gateway" where
  "gateway1 = handleConnection mem_jwt 10 ''s1'' (Some (token_of ''r1'' RECRUITER)) gateway0"

lemma gateway1_eq: "gateway1 = \<lparr>gw_world = chat_world1, gw_user = [''s1'' \<mapsto> recruiter1],
    gw_effects = [Join ''s1'' (room_of ''r1'')]\<rparr>"
proof -
  have v: "jwt_verify mem_jwt 10 (token_of ''r1'' RECRUITER) =
      Inr \<lparr>cl_userId = ''r1'', cl_email = None, cl_role = Some RECRUITER, cl_type = Some ''access'', cl_jti = None\<rparr>"
    unfolding token_of_def by (rule mem_jwt.verify_live) simp
  then have "token_of ''r1'' RECRUITER \<noteq> []" by (auto simp: mem_jwt_def nats_decode_def)
  then show ?thesis
    using v by (simp add: gateway1_def handleConnection_def truthy_str_def gateway0_def add_effect_def recruiter1_def)
qed

theorem gateway_privacy_witness:
  "\<exists>v. Emit [room_of ''r1'', room_of ''f1''] v \<in>
       set (gw_effects (snd (onSendMessage users_table mem_messages ''s1'' ''f1'' (Given ''  hi '') gateway1))) \<and>
     (\<exists>c s. gw_user (snd (onSendMessage users_table mem_messages ''s1'' ''f1'' (Given ''  hi '') gateway1)) c = Some s \<and>
        cp_userId s = v_senderId v)"
proof -
  let ?run = "onSendMessage users_table mem_messages ''s1'' ''f1'' (Given ''  hi '') gateway1"
  have st1: "gateway_step mem_jwt users_table mem_messages gateway0 gateway1"
    unfolding gateway1_def by (rule gateway_step.connect) (simp_all add: gateway0_def)
  have st2: "gateway_step mem_jwt users_table mem_messages gateway1 (snd ?run)"
    by (rule gateway_step.send [OF prod.collapse [symmetric]])
  have steps: "(gateway_step mem_jwt users_table mem_messages)\<^sup>*\<^sup>*
      \<lparr>gw_world = chat_world1, gw_user = Map.empty, gw_effects = []\<rparr> (snd ?run)"
    using st1 st2 unfolding gateway0_def by (meson rtranclp.rtrancl_into_rtrancl rtranclp.rtrancl_refl)
  obtain v where v: "Emit [room_of ''r1'', room_of ''f1''] v \<in> set (gw_effects (snd ?run))"
      "Join ''s1'' (room_of ''r1'') \<in> set (gw_effects (snd ?run))"
    by (simp add: gateway1_eq onSendMessage_def sendMessage_def trimmed_body_def trim_hi MESSAGE_MAX_LENGTH_def
        assertRecruiterFreelancePair_def recruiter1_def is_pair_iff bindP_def inUsers_def inMessages_def liftP_def
        liftE_def returnP_def chat_world1_def table_run table_rows mem_messages_def Let_def add_effect_def)
  from gateway_privacy [OF users_tbl.repository_axioms mem_ms.message_store_axioms steps v] v(1)
  show ?thesis by (intro exI [of _ v]) auto
qed

end
