(* ===== verification/Matching.thy ===== *)
theory Matching
  imports Chat
begin

text \<open>
  \<open>matching/matching.service.ts\<close> and \<open>matching/matching.controller.ts\<close>: the proxy in front of
  the matching microservice, which is a parameter (the answer of \<open>fetch\<close>). Coordinates and scores
  are rational numbers.
\<close>

section \<open>DTOs\<close>

record SearchMatchDto =
  sm_skills :: "string list"
  sm_lat :: rat
  sm_lon :: rat
  sm_radiusKm :: rat

text \<open>\<open>None\<close>: absent, or not of the type; the skills are an array of strings or not.\<close>

definition validate_SearchMatchDto :: "string list option \<Rightarrow> rat option \<Rightarrow> rat option \<Rightarrow> rat option \<Rightarrow> exn + SearchMatchDto" where
  "validate_SearchMatchDto skills lat lon radius = (case (skills, lat, lon, radius) of
     (Some ss, Some la, Some lo, Some r) \<Rightarrow>
       if 1 \<le> length ss \<and> length ss \<le> 50 \<and> list_all (\<lambda>s. 1 \<le> length s \<and> length s \<le> 64) ss \<and>
          - 90 \<le> la \<and> la \<le> 90 \<and> - 180 \<le> lo \<and> lo \<le> 180 \<and> 1 / 1000 \<le> r \<and> r \<le> 500
       then Inr \<lparr>sm_skills = ss, sm_lat = la, sm_lon = lo, sm_radiusKm = r\<rparr>
       else Inl (BadRequest ValidationFailed)
   | _ \<Rightarrow> Inl (BadRequest ValidationFailed))"

record RawMatchResult =
  rm_freelance_id :: string
  rm_score :: rat
  rm_distance_km :: rat

record MatchResultDto =
  mr_freelanceId :: string
  mr_username :: "string option"
  mr_score :: rat
  mr_distanceKm :: rat
  mr_latitude :: "rat option"
  mr_longitude :: "rat option"

section \<open>The microservice\<close>

record match_request =
  mq_url :: string
  mq_requestId :: "string option"
  mq_skills :: "string list"
  mq_location :: "rat list"
  mq_radius_km :: rat

text \<open>
  A call of \<open>fetch\<close> is refused or times out, or answers with a status (\<open>ok\<close> or not) and a body
  whose JSON is a list of results or does not parse.
\<close>

datatype fetch_result = FetchFailed | NotOk | OkBody "RawMatchResult list option"

type_synonym microservice = "match_request \<Rightarrow> fetch_result"

section \<open>The service\<close>

definition match_request_of :: "string option \<Rightarrow> SearchMatchDto \<Rightarrow> string option \<Rightarrow> match_request" where
  "match_request_of MATCHING_SERVICE_URL dto requestId =
     \<lparr>mq_url = (case MATCHING_SERVICE_URL of Some u \<Rightarrow> u | None \<Rightarrow> ''http://localhost:8000'') @ ''/match'',
      mq_requestId = (if truthy_str requestId then requestId else None),
      mq_skills = sm_skills dto, mq_location = [sm_lat dto, sm_lon dto], mq_radius_km = sm_radiusKm dto\<rparr>"

definition nth_coordinate :: "user option \<Rightarrow> nat \<Rightarrow> rat option" where
  "nth_coordinate user i = (case Option.bind user u_location of None \<Rightarrow> None
     | Some p \<Rightarrow> if i < length (coordinates p) then Some (coordinates p ! i) else None)"

definition enrich :: "user list \<Rightarrow> RawMatchResult \<Rightarrow> MatchResultDto" where
  "enrich found r = (let user = find (\<lambda>u. u_id u = rm_freelance_id r) (rev found) in
     \<lparr>mr_freelanceId = rm_freelance_id r, mr_username = map_option u_username user, mr_score = rm_score r,
      mr_distanceKm = rm_distance_km r, mr_latitude = nth_coordinate user 1, mr_longitude = nth_coordinate user 0\<rparr>)"

definition matching_search :: "('u, user) repo \<Rightarrow> microservice \<Rightarrow> string option \<Rightarrow> SearchMatchDto \<Rightarrow> string option \<Rightarrow>
    ('u, MatchResultDto list) proc" where
  "matching_search U ms url dto requestId = (case ms (match_request_of url dto requestId) of
     FetchFailed \<Rightarrow> throwP (BadGateway MatchingUnavailable)
   | NotOk \<Rightarrow> throwP (BadGateway MatchingUnavailable)
   | OkBody None \<Rightarrow> throwP LibraryError
   | OkBody (Some raw) \<Rightarrow>
       if raw = [] then returnP [] else
       bindP (repo_find U (\<lambda>u. u_id u \<in> rm_freelance_id ` set raw)) (\<lambda>found. returnP (map (enrich found) raw)))"

definition post_matching_search :: "jwt \<Rightarrow> ('u, user) repo \<Rightarrow> microservice \<Rightarrow> string option \<Rightarrow> string option \<Rightarrow> nat \<Rightarrow>
    string option \<Rightarrow> string list option \<Rightarrow> rat option \<Rightarrow> rat option \<Rightarrow> rat option \<Rightarrow> ('u, MatchResultDto list) proc" where
  "post_matching_search J U ms url requestId now auth skills lat lon radius =
     roles_guarded J [RECRUITER] now auth (\<lambda>user.
     bindP (liftE (validate_SearchMatchDto skills lat lon radius)) (\<lambda>dto. matching_search U ms url dto requestId))"

section \<open>Properties\<close>

text \<open>What the service makes of a result, in terms of the table of users.\<close>

definition match_view :: "(string \<rightharpoonup> user) \<Rightarrow> RawMatchResult \<Rightarrow> MatchResultDto" where
  "match_view t r = (let user = t (rm_freelance_id r) in
     \<lparr>mr_freelanceId = rm_freelance_id r, mr_username = map_option u_username user, mr_score = rm_score r,
      mr_distanceKm = rm_distance_km r, mr_latitude = nth_coordinate user 1, mr_longitude = nth_coordinate user 0\<rparr>)"

context repository
begin

lemma find_by_ids:
  assumes run: "repo_find R (\<lambda>r. key r \<in> I) s = (Inr rs, s')" and i: "i \<in> I"
  shows "find (\<lambda>r. key r = i) (rev rs) = tbl s i"
proof (cases "tbl s i")
  case None
  then have "r \<in> set rs \<Longrightarrow> key r \<noteq> i" for r using find_rows [OF run] by auto
  with None show ?thesis by (simp add: find_None_iff)
next
  case (Some r)
  then have "r \<in> set (rev rs)" "key r = i" using find_rows [OF run] tbl_key [OF Some] i by auto
  then obtain x where x: "find (\<lambda>r. key r = i) (rev rs) = Some x"
    by (cases "find (\<lambda>r. key r = i) (rev rs)") (auto simp: find_None_iff)
  then have "x \<in> set rs" "key x = i" by (auto dest: find_SomeD)
  with find_rows [OF run] Some x show ?thesis by auto
qed

end

lemma search_result:
  assumes "repository U tblu u_id" and run: "matching_search U ms url dto rid s = (r, s')"
  shows "tblu s' = tblu s \<and> (case ms (match_request_of url dto rid) of
      OkBody (Some raw) \<Rightarrow> r = Inr (map (match_view (tblu s)) raw) \<or> r = Inl LibraryError
    | OkBody None \<Rightarrow> r = Inl LibraryError
    | _ \<Rightarrow> r = Inl (BadGateway MatchingUnavailable))"
proof (cases "\<exists>raw. ms (match_request_of url dto rid) = OkBody (Some raw) \<and> raw \<noteq> []")
  case False
  with run show ?thesis by (auto simp: matching_search_def split: fetch_result.splits option.splits if_splits)
next
  case True
  then obtain raw where raw: "ms (match_request_of url dto rid) = OkBody (Some raw)" "raw \<noteq> []" by blast
  let ?P = "\<lambda>u. u_id u \<in> rm_freelance_id ` set raw"
  obtain q x where q: "repo_find U ?P s = (q, x)" by fastforce
  have x: "tblu x = tblu s" by (rule repository.find_frame [OF assms(1) q])
  show ?thesis
  proof (cases q)
    case (Inl e)
    with run raw q x repository.find_error [OF assms(1) q [unfolded Inl]] show ?thesis
      by (auto simp: matching_search_def bindP_def)
  next
    case (Inr found)
    have "enrich found r = match_view (tblu s) r" if "r \<in> set raw" for r
      using repository.find_by_ids [OF assms(1) q [unfolded Inr], of "rm_freelance_id r"] that
      by (simp add: enrich_def match_view_def)
    then have "map (enrich found) raw = map (match_view (tblu s)) raw" by simp
    with run raw q x Inr show ?thesis by (auto simp: matching_search_def bindP_def)
  qed
qed

section \<open>Properties\<close>


definition toy_service :: microservice where
  "toy_service q = (if mq_location q = [43, 1] then OkBody (Some [\<lparr>rm_freelance_id = ''f1'', rm_score = 1 / 2, rm_distance_km = 3\<rparr>])
     else NotOk)"


end
