(* ===== verification/Platform.thy ===== *)
theory Platform
  imports Matching
begin

text \<open>
  What surrounds the services: \<open>common/cors.ts\<close>, \<open>app.setup.ts\<close> and \<open>observability/\<close> (correlation
  ids, route labels and metrics, logger configuration, health probes).
\<close>

section \<open>CORS origins\<close>

definition DEFAULT_CORS_ORIGIN :: string where
  "DEFAULT_CORS_ORIGIN = ''http://localhost:5173''"

definition resolveCorsOrigins :: "string option \<Rightarrow> exn + string list" where
  "resolveCorsOrigins rawValue =
     (let raw = js_trim (case rawValue of Some v \<Rightarrow> v | None \<Rightarrow> []) in
      if raw = [] then Inr [DEFAULT_CORS_ORIGIN] else
      let origins = filter (\<lambda>origin. origin \<noteq> []) (map js_trim (js_split (CHR '','') raw)) in
      if ''*'' \<in> set origins then Inl LibraryError
      else if origins = [] then Inl LibraryError
      else Inr origins)"

text \<open>An origin as it is meant to be written in the variable.\<close>

definition plain_origin :: "string \<Rightarrow> bool" where
  "plain_origin s \<longleftrightarrow> s \<noteq> [] \<and> s \<noteq> ''*'' \<and> js_trim s = s \<and> CHR '','' \<notin> set s"

lemma resolve_Inr:
  assumes "resolveCorsOrigins v = Inr origins"
  shows "origins \<noteq> []" "''*'' \<notin> set origins" "\<And>s. s \<in> set origins \<Longrightarrow> plain_origin s"
proof -
  let ?raw = "js_trim (case v of Some v \<Rightarrow> v | None \<Rightarrow> [])"
  let ?os = "filter (\<lambda>origin. origin \<noteq> []) (map js_trim (js_split (CHR '','') ?raw))"
  have d: "plain_origin DEFAULT_CORS_ORIGIN"
    by (simp add: plain_origin_def DEFAULT_CORS_ORIGIN_def js_trim_def is_js_space_def)
  consider "origins = [DEFAULT_CORS_ORIGIN]" | "origins = ?os" "''*'' \<notin> set ?os" "?os \<noteq> []"
    using assms by (auto simp: resolveCorsOrigins_def Let_def split: if_splits)
  then have "origins \<noteq> [] \<and> ''*'' \<notin> set origins \<and> (\<forall>s \<in> set origins. plain_origin s)"
  proof cases
    case 1
    with d show ?thesis by (auto simp: plain_origin_def)
  next
    case 2
    have "plain_origin s" if "s \<in> set ?os" for s
    proof -
      have s: "s \<in> js_trim ` set (js_split (CHR '','') ?raw)" "s \<noteq> []" using that by auto
      then obtain p where p: "p \<in> set (js_split (CHR '','') ?raw)" "s = js_trim p" by blast
      have "CHR '','' \<notin> set s" using js_split_parts [OF p(1)] set_js_trim [of p] p(2) by auto
      moreover have "s \<noteq> ''*''" using that 2(2) by blast
      ultimately show ?thesis using s(2) p(2) by (simp add: plain_origin_def)
    qed
    with 2 show ?thesis by auto
  qed
  then show "origins \<noteq> []" "''*'' \<notin> set origins" "\<And>s. s \<in> set origins \<Longrightarrow> plain_origin s" by blast+
qed

lemma js_join_ends:
  assumes "ss \<noteq> []" "\<And>s. s \<in> set ss \<Longrightarrow> s \<noteq> []"
  shows "js_join sep ss \<noteq> [] \<and> hd (js_join sep ss) = hd (hd ss) \<and> last (js_join sep ss) = last (last ss)"
  using assms by (induction sep ss rule: js_join.induct) auto

lemma trim_ends_id:
  assumes "s = [] \<or> \<not> is_js_space (hd s) \<and> \<not> is_js_space (last s)"
  shows "js_trim s = s"
proof -
  have "dropWhile is_js_space s = s" using assms by (intro dropWhile_idem_hd) auto
  moreover have "dropWhile is_js_space (rev s) = rev s" using assms by (intro dropWhile_idem_hd) (auto simp: hd_rev)
  ultimately show ?thesis by (simp add: js_trim_def)
qed

lemma resolve_join:
  assumes "origins \<noteq> []" "\<And>s. s \<in> set origins \<Longrightarrow> plain_origin s"
  shows "resolveCorsOrigins (Some (js_join '','' origins)) = Inr origins"
proof -
  let ?j = "js_join '','' origins"
  have ne: "s \<in> set origins \<Longrightarrow> s \<noteq> []" and tr: "s \<in> set origins \<Longrightarrow> js_trim s = s" for s
    using assms(2) by (auto simp: plain_origin_def)
  note ends = js_join_ends [of origins "'',''", OF assms(1) ne]
  have "\<not> is_js_space (hd (hd origins))" "\<not> is_js_space (last (last origins))"
    using js_trim_ends [of "hd origins"] js_trim_ends [of "last origins"] tr ne assms(1) by simp_all
  then have "js_trim ?j = ?j" using ends by (intro trim_ends_id) simp
  moreover have "js_split (CHR '','') ?j = origins"
    using assms by (intro js_split_join) (auto simp: plain_origin_def)
  moreover have "map js_trim origins = origins" using tr by (simp add: map_idI)
  moreover have "filter (\<lambda>origin. origin \<noteq> []) origins = origins" using ne by (simp add: filter_id_conv)
  moreover have "''*'' \<notin> set origins" using assms(2) by (auto simp: plain_origin_def)
  ultimately show ?thesis using ends assms(1) by (simp add: resolveCorsOrigins_def Let_def)
qed

section \<open>Correlation ids\<close>

definition REQUEST_ID_HEADER :: string where
  "REQUEST_ID_HEADER = ''x-request-id''"

datatype header = NoHeader | OneHeader string | ManyHeaders "string list"

definition id_char :: "char \<Rightarrow> bool" where
  "id_char c \<longleftrightarrow> (CHR ''A'' \<le> c \<and> c \<le> CHR ''Z'') \<or> (CHR ''a'' \<le> c \<and> c \<le> CHR ''z'') \<or> is_decimal c \<or>
     c \<in> {CHR ''.'', CHR ''_'', CHR ''-''}"

definition isSafeRequestId :: "string option \<Rightarrow> bool" where
  "isSafeRequestId v = (case v of None \<Rightarrow> False | Some s \<Rightarrow> 8 \<le> length s \<and> length s \<le> 128 \<and> list_all id_char s)"

text \<open>
  The id set on the request and on the response; \<open>uuid\<close> is the \<open>randomUUID()\<close> of the call. The
  first of an empty array is \<open>undefined\<close>.
\<close>

definition requestIdMiddleware :: "header \<Rightarrow> string \<Rightarrow> string" where
  "requestIdMiddleware incoming uuid =
     (let candidate = (case incoming of NoHeader \<Rightarrow> None | OneHeader s \<Rightarrow> Some s
        | ManyHeaders ss \<Rightarrow> (case ss of s # _ \<Rightarrow> Some s | [] \<Rightarrow> None))
      in if isSafeRequestId candidate then the candidate else uuid)"

section \<open>Route labels and metrics\<close>

text \<open>\<open>replace(/^\/+|\/+$/g, '')\<close>.\<close>

definition strip_slashes :: "string \<Rightarrow> string" where
  "strip_slashes s = rev (dropWhile (\<lambda>c. c = CHR ''/'') (rev (dropWhile (\<lambda>c. c = CHR ''/'') s)))"

definition lireChemin :: "string option \<Rightarrow> string" where
  "lireChemin valeur = (case valeur of None \<Rightarrow> [] | Some v \<Rightarrow> strip_slashes v)"

text \<open>\<open>replace(/\/{2,}/g, '/')\<close>.\<close>

fun collapse_slashes :: "string \<Rightarrow> string" where
  "collapse_slashes (a # b # s) = (if a = CHR ''/'' \<and> b = CHR ''/'' then collapse_slashes (b # s)
     else a # collapse_slashes (b # s))"
| "collapse_slashes s = s"

text \<open>\<open>replace(/(.+)\/$/, '$1')\<close>, on paths without line breaks.\<close>

definition drop_final_slash :: "string \<Rightarrow> string" where
  "drop_final_slash s = (if 2 \<le> length s \<and> last s = CHR ''/'' then butlast s else s)"

text \<open>The path metadata of the controller and of the handler; \<open>None\<close> is anything but a string.\<close>

definition resoudreGabarit :: "string option \<Rightarrow> string option \<Rightarrow> string" where
  "resoudreGabarit controller handler =
     (let gabarit = CHR ''/'' # js_join ''/'' (filter (\<lambda>p. p \<noteq> []) [lireChemin controller, lireChemin handler])
      in drop_final_slash (collapse_slashes gabarit))"

record http_request =
  rq_metricsRoute :: "string option"
  rq_routePath :: "string option"
  rq_baseUrl :: "string option"
  rq_method :: string

definition intercept :: "bool \<Rightarrow> string option \<Rightarrow> string option \<Rightarrow> http_request \<Rightarrow> http_request" where
  "intercept is_http controller handler requete =
     (if \<not> is_http then requete else requete\<lparr>rq_metricsRoute := Some (resoudreGabarit controller handler)\<rparr>)"

definition resolveRoute :: "http_request \<Rightarrow> string" where
  "resolveRoute req = (if truthy_str (rq_metricsRoute req) then the (rq_metricsRoute req) else
     (case rq_routePath req of
        Some chemin \<Rightarrow> if length chemin > 0 \<and> \<not> js_includes chemin ''*''
          then (case rq_baseUrl req of Some b \<Rightarrow> b | None \<Rightarrow> []) @ chemin else ''(inconnue)''
      | None \<Rightarrow> ''(inconnue)''))"

text \<open>The two instruments of the registry: observed durations, and a count, by label.\<close>

type_synonym labels = "string \<times> string \<times> string"

record metrics_service =
  ms_httpDuration :: "labels \<Rightarrow> rat list"
  ms_httpTotal :: "labels \<Rightarrow> nat"

definition empty_metrics :: metrics_service where
  "empty_metrics = \<lparr>ms_httpDuration = (\<lambda>_. []), ms_httpTotal = (\<lambda>_. 0)\<rparr>"

definition metrics_observe :: "string \<Rightarrow> string \<Rightarrow> nat \<Rightarrow> rat \<Rightarrow> metrics_service \<Rightarrow> metrics_service" where
  "metrics_observe method route status durationSeconds M =
     (let labels = (method, route, show_nat status) in
      M\<lparr>ms_httpDuration := (ms_httpDuration M)(labels := ms_httpDuration M labels @ [durationSeconds]),
        ms_httpTotal := (ms_httpTotal M)(labels := Suc (ms_httpTotal M labels))\<rparr>)"

text \<open>The \<open>finish\<close> of a response: its request, status and duration in nanoseconds.\<close>

definition on_finish :: "http_request \<times> nat \<times> nat \<Rightarrow> metrics_service \<Rightarrow> metrics_service" where
  "on_finish r = (case r of (req, statusCode, nanoseconds) \<Rightarrow>
     metrics_observe (rq_method req) (resolveRoute req) statusCode (rat_of_nat nanoseconds / 10 ^ 9))"

section \<open>Logger\<close>

definition REDACTED_PATHS :: "string list" where
  "REDACTED_PATHS = [''req.headers.authorization'', ''req.headers.cookie'', ''res.headers[\"set-cookie\"]'', ''password'',
     ''*.password'', ''currentPassword'', ''newPassword'', ''refreshToken'', ''*.refreshToken'', ''accessToken'',
     ''*.accessToken'', ''token'', ''*.token'', ''twoFactorSecret'', ''*.twoFactorSecret'', ''backupCodes'',
     ''*.backupCodes'', ''serialNumber'', ''*.serialNumber'']"

record logger_env =
  NODE_ENV :: "string option"
  LOG_LEVEL :: "string option"

definition logger_level :: "logger_env \<Rightarrow> string" where
  "logger_level e = (case LOG_LEVEL e of Some l \<Rightarrow> l
     | None \<Rightarrow> if NODE_ENV e = Some ''production'' then ''info'' else ''debug'')"

text \<open>\<open>requestId\<close> as the middleware set it, and the header.\<close>

definition genReqId :: "string option \<Rightarrow> string option \<Rightarrow> string" where
  "genReqId existing hdr = (case existing of Some i \<Rightarrow> i | None \<Rightarrow> (case hdr of Some h \<Rightarrow> h | None \<Rightarrow> []))"

definition autoLogging_ignore :: "string option \<Rightarrow> bool" where
  "autoLogging_ignore url = (let u = (case url of Some u \<Rightarrow> u | None \<Rightarrow> []) in
     u = ''/metrics'' \<or> js_startsWith u ''/api/v1/health'')"

section \<open>Health\<close>

datatype ProbeState = up | down

record dependencies =
  d_postgres :: ProbeState
  d_redis :: ProbeState
  d_mongodb :: ProbeState

record Liveness =
  lv_status :: string
  lv_service :: string
  lv_uptimeSeconds :: int

definition liveness :: "rat \<Rightarrow> Liveness" where
  "liveness uptime = \<lparr>lv_status = ''ok'', lv_service = ''backend-core'', lv_uptimeSeconds = \<lfloor>uptime + 1 / 2\<rfloor>\<rparr>"

text \<open>A probe on what the check does: it resolves or rejects.\<close>

definition probe :: "exn + 'a \<Rightarrow> ProbeState" where
  "probe check = (case check of Inr _ \<Rightarrow> up | Inl _ \<Rightarrow> down)"

text \<open>The answer: a status code and a body.\<close>

record readiness_body =
  rb_status :: string
  rb_service :: string
  rb_dependencies :: dependencies

definition readiness :: "exn + 'a \<Rightarrow> exn + 'b \<Rightarrow> exn + 'd \<Rightarrow> nat \<times> readiness_body" where
  "readiness select1 redis_ping mongo_ping =
     (let deps = \<lparr>d_postgres = probe select1, d_redis = probe redis_ping, d_mongodb = probe mongo_ping\<rparr>;
          degraded = list_ex (\<lambda>state. state = down) [d_postgres deps, d_redis deps, d_mongodb deps]
      in if degraded
         then (http_status (ServiceUnavailable Degraded), \<lparr>rb_status = ''degraded'', rb_service = ''backend-core'', rb_dependencies = deps\<rparr>)
         else (200, \<lparr>rb_status = ''ok'', rb_service = ''backend-core'', rb_dependencies = deps\<rparr>))"

section \<open>Application setup\<close>

datatype middleware = RequestIdMiddleware | CookieParser

record app_config =
  ac_middlewares :: "middleware list"
  ac_cors_origin :: "string list"
  ac_cors_credentials :: bool
  ac_pipe_whitelist :: bool
  ac_pipe_transform :: bool
  ac_pipe_forbidNonWhitelisted :: bool

definition configureApp :: "string option \<Rightarrow> exn + app_config" where
  "configureApp CORS_ORIGIN = (case resolveCorsOrigins CORS_ORIGIN of
     Inl e \<Rightarrow> Inl e
   | Inr origins \<Rightarrow> Inr \<lparr>ac_middlewares = [RequestIdMiddleware, CookieParser], ac_cors_origin = origins,
       ac_cors_credentials = True, ac_pipe_whitelist = True, ac_pipe_transform = True, ac_pipe_forbidNonWhitelisted = True\<rparr>)"

section \<open>Route labels\<close>

text \<open>A label has no empty segment.\<close>

fun no_double_slash :: "string \<Rightarrow> bool" where
  "no_double_slash (a # b # s) \<longleftrightarrow> \<not> (a = CHR ''/'' \<and> b = CHR ''/'') \<and> no_double_slash (b # s)"
| "no_double_slash s \<longleftrightarrow> True"

lemma collapse_hd: "s \<noteq> [] \<Longrightarrow> collapse_slashes s \<noteq> [] \<and> hd (collapse_slashes s) = hd s"
  by (induction s rule: collapse_slashes.induct) auto

lemma collapse_no_double: "no_double_slash (collapse_slashes s)"
proof (induction s rule: collapse_slashes.induct)
  case (1 a b s)
  show ?case
  proof (cases "a = CHR ''/'' \<and> b = CHR ''/''")
    case False
    obtain c r where cr: "collapse_slashes (b # s) = c # r" "c = b" using collapse_hd [of "b # s"]
      by (cases "collapse_slashes (b # s)") auto
    with 1(2) [OF False] False show ?thesis by auto
  qed (use 1 in simp)
qed simp_all

lemma no_double_append: "no_double_slash (s @ [c]) \<longleftrightarrow> no_double_slash s \<and> \<not> (s \<noteq> [] \<and> last s = CHR ''/'' \<and> c = CHR ''/'')"
  by (induction s rule: no_double_slash.induct) auto

lemma drop_final_slash_ok:
  assumes "no_double_slash s" "s \<noteq> []"
  shows "no_double_slash (drop_final_slash s)" "drop_final_slash s \<noteq> []" "hd (drop_final_slash s) = hd s"
    "drop_final_slash s = [last s] \<or> last (drop_final_slash s) \<noteq> CHR ''/''"
proof -
  obtain r c where s: "s = r @ [c]" using assms(2) by (metis rev_exhaust)
  have "no_double_slash (drop_final_slash s) \<and> drop_final_slash s \<noteq> [] \<and> hd (drop_final_slash s) = hd s \<and>
      (drop_final_slash s = [last s] \<or> last (drop_final_slash s) \<noteq> CHR ''/'')"
    using assms(1) no_double_append [of r c] by (cases r) (auto simp: s drop_final_slash_def)
  then show "no_double_slash (drop_final_slash s)" "drop_final_slash s \<noteq> []" "hd (drop_final_slash s) = hd s"
    "drop_final_slash s = [last s] \<or> last (drop_final_slash s) \<noteq> CHR ''/''" by blast+
qed

lemma gabarit_shape:
  "resoudreGabarit c h \<noteq> [] \<and> hd (resoudreGabarit c h) = CHR ''/'' \<and> no_double_slash (resoudreGabarit c h) \<and>
   (length (resoudreGabarit c h) = 1 \<or> last (resoudreGabarit c h) \<noteq> CHR ''/'')"
proof -
  let ?g = "CHR ''/'' # js_join ''/'' (filter (\<lambda>p. p \<noteq> []) [lireChemin c, lireChemin h])"
  have ne: "collapse_slashes ?g \<noteq> []" and hd: "hd (collapse_slashes ?g) = CHR ''/''"
    using collapse_hd [of ?g] by simp_all
  note d = drop_final_slash_ok [OF collapse_no_double ne]
  have eq: "resoudreGabarit c h = drop_final_slash (collapse_slashes ?g)" by (simp add: resoudreGabarit_def)
  show ?thesis unfolding eq using d hd by auto
qed

text \<open>Slashes around a path make no difference.\<close>

lemma strip_slashes_around: "strip_slashes (CHR ''/'' # s) = strip_slashes s" "strip_slashes (s @ [CHR ''/'']) = strip_slashes s"
proof -
  show "strip_slashes (CHR ''/'' # s) = strip_slashes s" by (simp add: strip_slashes_def)
  show "strip_slashes (s @ [CHR ''/'']) = strip_slashes s"
  proof (cases "\<forall>c \<in> set s. c = CHR ''/''")
    case True
    have nil: "dropWhile (\<lambda>c. c = CHR ''/'') t = []" if "\<forall>c \<in> set t. c = CHR ''/''" for t
      using that by (induction t) auto
    have "dropWhile (\<lambda>c. c = CHR ''/'') s = []" "dropWhile (\<lambda>c. c = CHR ''/'') (s @ [CHR ''/'']) = []"
      by (rule nil; use True in auto)+
    then show ?thesis unfolding strip_slashes_def by (simp only: rev.simps dropWhile.simps)
  next
    case False
    then obtain c where "c \<in> set s" "c \<noteq> CHR ''/''" by blast
    then have "dropWhile (\<lambda>c. c = CHR ''/'') (s @ [CHR ''/'']) = dropWhile (\<lambda>c. c = CHR ''/'') s @ [CHR ''/'']"
      by (rule dropWhile_append1)
    then show ?thesis by (simp add: strip_slashes_def)
  qed
qed

lemma gabarit_slashes:
  "resoudreGabarit (Some (CHR ''/'' # c)) h = resoudreGabarit (Some c) h"
  "resoudreGabarit (Some (c @ [CHR ''/''])) h = resoudreGabarit (Some c) h"
  "resoudreGabarit c' (Some (CHR ''/'' # d)) = resoudreGabarit c' (Some d)"
  "resoudreGabarit c' (Some (d @ [CHR ''/''])) = resoudreGabarit c' (Some d)"
  by (simp_all add: resoudreGabarit_def lireChemin_def strip_slashes_around del: append_Cons)

section \<open>Metrics\<close>

definition label_of :: "http_request \<times> nat \<times> nat \<Rightarrow> labels" where
  "label_of r = (case r of (req, statusCode, _) \<Rightarrow> (rq_method req, resolveRoute req, show_nat statusCode))"

text \<open>The counter counts the responses of its label, and the histogram has as many observations.\<close>

lemma metrics_count:
  "ms_httpTotal (fold on_finish rs empty_metrics) l = length (filter (\<lambda>r. label_of r = l) rs)"
  "length (ms_httpDuration (fold on_finish rs empty_metrics) l) = length (filter (\<lambda>r. label_of r = l) rs)"
proof (induction rs rule: rev_induct)
  case Nil
  { case 1 show ?case by (simp add: empty_metrics_def) }
  { case 2 show ?case by (simp add: empty_metrics_def) }
next
  case (snoc r rs)
  { case 1 from snoc show ?case by (auto simp: on_finish_def metrics_observe_def label_of_def Let_def split: prod.splits) }
  { case 2 from snoc show ?case by (auto simp: on_finish_def metrics_observe_def label_of_def Let_def split: prod.splits) }
qed

text \<open>
  Series are bounded by the declared routes: whatever the URLs, the label of a request whose route
  was resolved by the interceptor, or not at all, is a template or the generic label.
\<close>

lemma route_label_bounded:
  "resolveRoute (intercept True c h req) = resoudreGabarit c h"
  "rq_metricsRoute req = None \<Longrightarrow> rq_routePath req = None \<or> (\<exists>p. rq_routePath req = Some p \<and> js_includes p ''*'') \<Longrightarrow>
     resolveRoute req = ''(inconnue)''"
  using gabarit_shape [of c h] by (auto simp: resolveRoute_def intercept_def truthy_str_def)

section \<open>Health and logs\<close>

lemma readiness_status:
  "fst (readiness p r m) = (if (\<exists>e. p = Inl e) \<or> (\<exists>e. r = Inl e) \<or> (\<exists>e. m = Inl e) then 503 else 200)"
  "d_postgres (rb_dependencies (snd (readiness p r m))) = down \<longleftrightarrow> (\<exists>e. p = Inl e)"
  "d_redis (rb_dependencies (snd (readiness p r m))) = down \<longleftrightarrow> (\<exists>e. r = Inl e)"
  "d_mongodb (rb_dependencies (snd (readiness p r m))) = down \<longleftrightarrow> (\<exists>e. m = Inl e)"
  by (cases p; cases r; cases m; simp add: readiness_def probe_def)+

text \<open>The key a redaction path ends in.\<close>

definition redacted_key :: "string \<Rightarrow> string" where
  "redacted_key path = rev (takeWhile (\<lambda>c. c \<noteq> CHR ''.'') (rev path))"

text \<open>The encrypted TOTP secret and the hashed backup codes of an account are not among them.\<close>

lemma encrypted_secret_not_redacted:
  "''twoFactorSecretEncrypted'' \<notin> redacted_key ` set REDACTED_PATHS"
  "''twoFactorBackupCodesHashed'' \<notin> redacted_key ` set REDACTED_PATHS"
  by code_simp+

section \<open>Properties\<close>


text \<open>
  Correlation. The id of a request is one header-safe token of 8 to 128 characters, the
  caller's when theirs is one and a fresh UUID otherwise, and a search passes exactly this id on to
  the matching service.
\<close>

theorem request_id_correlates:
  assumes "isSafeRequestId (Some uuid)"
  shows "isSafeRequestId (Some (requestIdMiddleware hdr uuid)) \<and>
    (isSafeRequestId (Some s) \<longrightarrow> requestIdMiddleware (OneHeader s) uuid = s) \<and>
    set (requestIdMiddleware hdr uuid) \<inter> set [CHR 0x0A, CHR 0x0D, CHR '' '', CHR '';'', CHR 0x1B] = {} \<and>
    mq_requestId (match_request_of url dto (Some (requestIdMiddleware hdr uuid))) = Some (requestIdMiddleware hdr uuid)"
proof -
  have safe: "isSafeRequestId (Some (requestIdMiddleware hdr uuid))"
    using assms
    by (cases hdr) (auto simp: requestIdMiddleware_def Let_def isSafeRequestId_def split: list.splits option.splits)
  then have id: "8 \<le> length (requestIdMiddleware hdr uuid)" "list_all id_char (requestIdMiddleware hdr uuid)"
    by (simp_all add: isSafeRequestId_def)
  have "\<not> id_char c" if "c \<in> set [CHR 0x0A, CHR 0x0D, CHR '' '', CHR '';'', CHR 0x1B]" for c
    using that by (auto simp: id_char_def is_decimal_def less_eq_char_def)
  then have "set (requestIdMiddleware hdr uuid) \<inter> set [CHR 0x0A, CHR 0x0D, CHR '' '', CHR '';'', CHR 0x1B] = {}"
    using id(2) unfolding list_all_iff by blast
  moreover have "requestIdMiddleware hdr uuid \<noteq> []" using id(1) by auto
  ultimately show ?thesis
    using safe by (simp add: match_request_of_def truthy_str_def requestIdMiddleware_def [of "OneHeader s"])
qed

theorem request_id_correlates_witness:
  "requestIdMiddleware (OneHeader ''abc-1234'') ''00000000'' = ''abc-1234'' \<and>
   mq_requestId (match_request_of None \<lparr>sm_skills = [], sm_lat = 0, sm_lon = 0, sm_radiusKm = 1\<rparr>
     (Some (requestIdMiddleware NoHeader ''00000000''))) = Some ''00000000''"
proof -
  have s: "isSafeRequestId (Some ''00000000'')" "isSafeRequestId (Some ''abc-1234'')"
    by (simp_all add: isSafeRequestId_def id_char_def is_decimal_def less_eq_char_def)
  have "requestIdMiddleware NoHeader ''00000000'' = ''00000000''"
    by (simp add: requestIdMiddleware_def isSafeRequestId_def)
  with request_id_correlates [OF s(1), of NoHeader "''abc-1234''" None "\<lparr>sm_skills = [], sm_lat = 0, sm_lon = 0, sm_radiusKm = 1\<rparr>"] s(2)
  show ?thesis by simp
qed

end
