(* ===== verification/FrontSession.thy ===== *)
theory FrontSession
  imports Platform
begin

text \<open>
  The session of the web client (\<open>frontend-web/src\<close>): the in-memory store
  (\<open>features/auth/session-store.ts\<close>, \<open>token.ts\<close>), the axios interceptors with the shared refresh
  (\<open>api/auth-interceptors.ts\<close>), the provider and the route guard (\<open>AuthProvider.tsx\<close>,
  \<open>ProtectedRoute.tsx\<close>), the purge of the query cache (\<open>app/providers.tsx\<close>) and the chat socket
  (\<open>features/chat/socket.ts\<close>).

  The browser runs one callback at a time: an operation below is what runs, microtasks included,
  between two events of the network or of the user.
\<close>

section \<open>State\<close>

record AuthUser =
  au_userId :: string
  au_email :: string
  au_role :: string

text \<open>
  A request that is under way: its config (URL, \<open>_retried\<close>) and where it is. \<open>AwaitingRefresh\<close> is
  suspended at \<open>await refreshOnce()\<close>.
\<close>

datatype phase = Flying | AwaitingRefresh | Resolved | Rejected

record request =
  rc_url :: string
  rc_retried :: bool
  rc_phase :: phase

text \<open>
  \<open>fr_posts\<close> are the refresh calls on the wire, \<open>fr_sent\<close> what was sent so far (the request and its
  bearer), \<open>fr_cache\<close> the entries of the query client with the identity they were fetched under.
\<close>

record front =
  fr_token :: "string option"
  fr_user :: "AuthUser option"
  fr_lastUserId :: "string option"
  fr_cache :: "(string \<times> string option) list"
  fr_refreshPromise :: "nat option"
  fr_posts :: "nat list"
  fr_next :: nat
  fr_restoring :: bool
  fr_ready :: bool
  fr_requests :: "nat \<rightharpoonup> request"
  fr_sent :: "(nat \<times> string option) list"
  fr_socket :: bool

definition front0 :: front where
  "front0 = \<lparr>fr_token = None, fr_user = None, fr_lastUserId = None, fr_cache = [], fr_refreshPromise = None, fr_posts = [],
     fr_next = 0, fr_restoring = False, fr_ready = False, fr_requests = Map.empty, fr_sent = [], fr_socket = False\<rparr>"

section \<open>Token and session store\<close>

text \<open>
  \<open>parse\<close> is \<open>JSON.parse(atob(\<dots>))\<close> with the three members of the payload, \<open>None\<close> when it throws.
\<close>

type_synonym payload_parser = "string \<Rightarrow> (string option \<times> string option \<times> string option) option"

definition base64url_to_base64 :: "string \<Rightarrow> string" where
  "base64url_to_base64 = map (\<lambda>c. if c = CHR ''-'' then CHR ''+'' else if c = CHR ''_'' then CHR ''/'' else c)"

definition decodeAccessToken :: "payload_parser \<Rightarrow> string \<Rightarrow> AuthUser option" where
  "decodeAccessToken parse token = (let parts = js_split (CHR ''.'') token in
     if length parts \<noteq> 3 then None
     else (case parse (base64url_to_base64 (parts ! 1)) of
         None \<Rightarrow> None
       | Some (userId, email, role) \<Rightarrow>
           if \<not> truthy_str userId \<or> \<not> truthy_str email \<or> \<not> truthy_str role then None
           else Some \<lparr>au_userId = the userId, au_email = the email, au_role = the role\<rparr>))"

text \<open>The subscriber of \<open>AppProviders\<close>, the listener that has an effect on the state.\<close>

definition emit :: "front \<Rightarrow> front" where
  "emit s = (let userId = map_option au_userId (fr_user s) in
     if userId \<noteq> fr_lastUserId s then s\<lparr>fr_cache := [], fr_lastUserId := userId\<rparr> else s)"

definition setSession :: "payload_parser \<Rightarrow> string \<Rightarrow> front \<Rightarrow> front" where
  "setSession parse token s = emit (s\<lparr>fr_token := Some token, fr_user := decodeAccessToken parse token\<rparr>)"

definition clear_session :: "front \<Rightarrow> front" where
  "clear_session s = emit (s\<lparr>fr_token := None, fr_user := None\<rparr>)"

section \<open>Interceptors\<close>

definition REFRESH_ENDPOINT :: string where
  "REFRESH_ENDPOINT = ''/api/v1/auth/refresh''"

text \<open>The request interceptor.\<close>

definition bearer_header :: "front \<Rightarrow> string option" where
  "bearer_header s = (if truthy_str (fr_token s) then map_option (\<lambda>t. ''Bearer '' @ t) (fr_token s) else None)"

definition refreshOnce :: "front \<Rightarrow> front" where
  "refreshOnce s = (case fr_refreshPromise s of
     None \<Rightarrow> s\<lparr>fr_posts := fr_posts s @ [fr_next s], fr_refreshPromise := Some (fr_next s), fr_next := Suc (fr_next s)\<rparr>
   | Some _ \<Rightarrow> s)"

text \<open>A request of the application goes out.\<close>

definition fly :: "nat \<Rightarrow> request \<Rightarrow> front \<Rightarrow> front" where
  "fly n r s = s\<lparr>fr_requests := (fr_requests s)(n \<mapsto> r\<lparr>rc_phase := Flying\<rparr>), fr_sent := fr_sent s @ [(n, bearer_header s)]\<rparr>"

definition send_request :: "nat \<Rightarrow> string \<Rightarrow> front \<Rightarrow> front" where
  "send_request n url s = fly n \<lparr>rc_url = url, rc_retried = False, rc_phase = Flying\<rparr> s"

definition settle :: "nat \<Rightarrow> phase \<Rightarrow> front \<Rightarrow> front" where
  "settle n p s = s\<lparr>fr_requests := (fr_requests s)(n := map_option (\<lambda>r. r\<lparr>rc_phase := p\<rparr>) (fr_requests s n))\<rparr>"

text \<open>
  The response of request \<open>n\<close>: a status, or none when the network failed. A request that was
  retried is awaited inside the \<open>try\<close>, so its failure reaches the \<open>catch\<close>.
\<close>

definition on_response :: "nat \<Rightarrow> nat option \<Rightarrow> front \<Rightarrow> front" where
  "on_response n status s = (case fr_requests s n of
     None \<Rightarrow> s
   | Some r \<Rightarrow>
       if rc_phase r \<noteq> Flying then s
       else if (\<exists>c \<in> set_option status. 200 \<le> c \<and> c < 300) then settle n Resolved s
       else if status \<noteq> Some 401 \<or> rc_retried r \<or> rc_url r = REFRESH_ENDPOINT \<or> fr_token s = None
         then (if rc_retried r then clear_session (settle n Rejected s) else settle n Rejected s)
       else refreshOnce (s\<lparr>fr_requests := (fr_requests s)(n \<mapsto> r\<lparr>rc_retried := True, rc_phase := AwaitingRefresh\<rparr>)\<rparr>))"

definition waiting :: "front \<Rightarrow> nat set" where
  "waiting s = {n. \<exists>r. fr_requests s n = Some r \<and> rc_phase r = AwaitingRefresh}"

text \<open>
  The shared refresh call \<open>i\<close> resolves with a token: the store is set, the promise is forgotten,
  every request that waits is replayed through the request interceptor (in the order \<open>ns\<close> in which
  they began to wait) and a restoration ends.
\<close>

definition replay :: "nat \<Rightarrow> front \<Rightarrow> front" where
  "replay n s = (case fr_requests s n of
     Some r \<Rightarrow> if rc_phase r = AwaitingRefresh then fly n r s else s
   | None \<Rightarrow> s)"

definition end_restore :: "front \<Rightarrow> front" where
  "end_restore s = (if fr_restoring s then s\<lparr>fr_restoring := False, fr_ready := True\<rparr> else s)"

definition refresh_resolved :: "payload_parser \<Rightarrow> nat list \<Rightarrow> nat \<Rightarrow> string \<Rightarrow> front \<Rightarrow> front" where
  "refresh_resolved parse ns i token s =
     end_restore (fold replay ns ((setSession parse token (s\<lparr>fr_posts := remove1 i (fr_posts s)\<rparr>))\<lparr>fr_refreshPromise := None\<rparr>))"

text \<open>It fails: whoever waits rejects and clears the store.\<close>

definition give_up :: "nat \<Rightarrow> front \<Rightarrow> front" where
  "give_up n s = (case fr_requests s n of
     Some r \<Rightarrow> if rc_phase r = AwaitingRefresh then clear_session (settle n Rejected s) else s
   | None \<Rightarrow> s)"

definition refresh_rejected :: "nat list \<Rightarrow> nat \<Rightarrow> front \<Rightarrow> front" where
  "refresh_rejected ns i s =
     (let s1 = fold give_up ns (s\<lparr>fr_posts := remove1 i (fr_posts s), fr_refreshPromise := None\<rparr>)
      in end_restore (if fr_restoring s1 then clear_session s1 else s1))"

section \<open>AuthProvider, ProtectedRoute, socket\<close>

definition restore_session :: "front \<Rightarrow> front" where
  "restore_session s = (refreshOnce s)\<lparr>fr_restoring := True\<rparr>"

text \<open>The answer of the login route, and what \<open>login\<close> returns.\<close>

datatype login_response = TokenPair string | TwoFactorChallenge string

definition login_done :: "payload_parser \<Rightarrow> login_response \<Rightarrow> front \<Rightarrow> string option \<times> front" where
  "login_done parse resp s = (case resp of
     TwoFactorChallenge tok \<Rightarrow> (Some tok, s)
   | TokenPair access \<Rightarrow> (None, setSession parse access s))"

definition verifyTwoFactor_done :: "payload_parser \<Rightarrow> string \<Rightarrow> front \<Rightarrow> front" where
  "verifyTwoFactor_done parse access s = setSession parse access s"

definition getChatSocket :: "front \<Rightarrow> front" where
  "getChatSocket s = s\<lparr>fr_socket := True\<rparr>"

definition handshake_auth :: "front \<Rightarrow> string option" where
  "handshake_auth s = fr_token s"

definition resetChatSocket :: "front \<Rightarrow> front" where
  "resetChatSocket s = s\<lparr>fr_socket := False\<rparr>"

text \<open>The end of \<open>logout\<close>, whatever the call answered.\<close>

definition logout_done :: "front \<Rightarrow> front" where
  "logout_done s = resetChatSocket (clear_session s)"

datatype screen = LoadingScreen | NavigateTo string string | Children

definition ProtectedRoute :: "front \<Rightarrow> string \<Rightarrow> screen" where
  "ProtectedRoute s pathname = (if \<not> fr_ready s then LoadingScreen
     else if fr_user s = None then NavigateTo ''/login'' pathname else Children)"

text \<open>A query puts its data into the cache.\<close>

definition cache_put :: "string \<Rightarrow> front \<Rightarrow> front" where
  "cache_put k s = s\<lparr>fr_cache := (k, map_option au_userId (fr_user s)) # fr_cache s\<rparr>"

section \<open>Steps\<close>

text \<open>
  What can happen next. A request has an identity of its own (\<open>send\<close>); the requests that wait are
  replayed, or rejected, in some order.
\<close>

inductive front_step :: "payload_parser \<Rightarrow> front \<Rightarrow> front \<Rightarrow> bool" for parse where
  mount: "front_step parse s (restore_session s)"
| send: "fr_requests s n = None \<Longrightarrow> front_step parse s (send_request n url s)"
| response: "front_step parse s (on_response n status s)"
| resolved: "i \<in> set (fr_posts s) \<Longrightarrow> set ns = waiting s \<Longrightarrow> distinct ns \<Longrightarrow> front_step parse s (refresh_resolved parse ns i token s)"
| rejected: "i \<in> set (fr_posts s) \<Longrightarrow> set ns = waiting s \<Longrightarrow> distinct ns \<Longrightarrow> front_step parse s (refresh_rejected ns i s)"
| login: "front_step parse s (snd (login_done parse resp s))"
| second_factor: "front_step parse s (verifyTwoFactor_done parse token s)"
| logout: "front_step parse s (logout_done s)"
| open_chat: "front_step parse s (getChatSocket s)"
| query: "front_step parse s (cache_put k s)"

section \<open>Invariants\<close>

text \<open>The identity part: the cache belongs to the current user, the subscriber is up to date.\<close>

definition identity_ok :: "front \<Rightarrow> bool" where
  "identity_ok s \<longleftrightarrow> fr_lastUserId s = map_option au_userId (fr_user s) \<and> (\<forall>e \<in> set (fr_cache s). snd e = fr_lastUserId s)"

text \<open>The request part: who waits was marked, and a request goes out once, or twice when marked.\<close>

definition sends :: "front \<Rightarrow> nat \<Rightarrow> nat" where
  "sends s n = length (filter (\<lambda>p. fst p = n) (fr_sent s))"

definition allowance :: "request option \<Rightarrow> nat" where
  "allowance r = (case r of None \<Rightarrow> 0 | Some r \<Rightarrow> if rc_retried r \<and> rc_phase r \<noteq> AwaitingRefresh then 2 else 1)"

definition requests_ok :: "front \<Rightarrow> bool" where
  "requests_ok s \<longleftrightarrow> (\<forall>n r. fr_requests s n = Some r \<longrightarrow> rc_phase r = AwaitingRefresh \<longrightarrow> rc_retried r) \<and>
     (\<forall>n. sends s n \<le> allowance (fr_requests s n))"

text \<open>The refresh part: one call at most, and it is there for whoever waits.\<close>

definition flight_ok :: "front \<Rightarrow> bool" where
  "flight_ok s \<longleftrightarrow> fr_posts s = (case fr_refreshPromise s of None \<Rightarrow> [] | Some i \<Rightarrow> [i]) \<and>
     (waiting s \<noteq> {} \<or> fr_restoring s \<longrightarrow> fr_refreshPromise s \<noteq> None)"

definition front_ok :: "front \<Rightarrow> bool" where
  "front_ok s \<longleftrightarrow> identity_ok s \<and> requests_ok s \<and> flight_ok s"

lemmas front_defs = fly_def settle_def emit_def setSession_def clear_session_def Let_def

text \<open>Identity.\<close>

lemma identity_emit: "\<forall>e \<in> set (fr_cache s). snd e = fr_lastUserId s \<Longrightarrow> identity_ok (emit s)"
  by (auto simp: identity_ok_def emit_def Let_def)

lemma identity_session: "identity_ok s \<Longrightarrow> identity_ok (setSession parse token s)" "identity_ok s \<Longrightarrow> identity_ok (clear_session s)"
  unfolding setSession_def clear_session_def by (rule identity_emit; simp add: identity_ok_def)+

lemma identity_cong:
  "fr_user s' = fr_user s \<Longrightarrow> fr_lastUserId s' = fr_lastUserId s \<Longrightarrow> fr_cache s' = fr_cache s \<Longrightarrow> identity_ok s' = identity_ok s"
  by (simp add: identity_ok_def)

lemma identity_frame:
  "identity_ok (fly n r s) = identity_ok s" "identity_ok (settle n p s) = identity_ok s" "identity_ok (refreshOnce s) = identity_ok s"
  "identity_ok (end_restore s) = identity_ok s" "identity_ok (replay n s) = identity_ok s"
  "identity_ok (s\<lparr>fr_posts := ps\<rparr>) = identity_ok s" "identity_ok (s\<lparr>fr_refreshPromise := pr\<rparr>) = identity_ok s"
  "identity_ok (s\<lparr>fr_requests := rs\<rparr>) = identity_ok s" "identity_ok (s\<lparr>fr_restoring := b\<rparr>) = identity_ok s"
  "identity_ok (s\<lparr>fr_socket := b\<rparr>) = identity_ok s"
  by (auto simp: identity_ok_def fly_def settle_def refreshOnce_def end_restore_def replay_def split: option.splits)

lemma identity_fold_replay: "identity_ok (fold replay ns s) = identity_ok s"
  by (induction ns arbitrary: s) (simp_all add: identity_frame)

lemma identity_give_up: "identity_ok s \<Longrightarrow> identity_ok (give_up n s)"
  by (auto simp: give_up_def identity_session identity_frame split: option.splits)

lemma identity_fold_give_up: "identity_ok s \<Longrightarrow> identity_ok (fold give_up ns s)"
  by (induction ns arbitrary: s) (simp_all add: identity_give_up)

lemma identity_step:
  assumes "front_step parse s s'" "identity_ok s"
  shows "identity_ok s'"
  using assms(1)
proof cases
  case (response n status)
  then show ?thesis using assms(2)
    by (auto simp: on_response_def identity_frame identity_session split: option.splits if_splits)
next
  case (login resp)
  then show ?thesis using assms(2) by (auto simp: login_done_def identity_session split: login_response.splits)
next
  case (query k)
  then show ?thesis using assms(2) by (auto simp: cache_put_def identity_ok_def)
qed (use assms(2) in \<open>simp_all add: restore_session_def send_request_def refresh_resolved_def refresh_rejected_def Let_def
      verifyTwoFactor_done_def logout_done_def resetChatSocket_def getChatSocket_def identity_frame identity_session
      identity_fold_replay identity_fold_give_up\<close>)

text \<open>Requests.\<close>

lemma sends_frame:
  "sends (setSession parse token s) = sends s" "sends (clear_session s) = sends s" "sends (settle n p s) = sends s"
  "sends (refreshOnce s) = sends s" "sends (end_restore s) = sends s"
  "fr_requests (setSession parse token s) = fr_requests s" "fr_requests (clear_session s) = fr_requests s"
  "fr_requests (refreshOnce s) = fr_requests s" "fr_requests (end_restore s) = fr_requests s"
  by (auto simp: sends_def front_defs refreshOnce_def end_restore_def fun_eq_iff split: option.splits)

lemma sends_upd:
  "sends (s\<lparr>fr_posts := ps\<rparr>) = sends s" "sends (s\<lparr>fr_refreshPromise := pr\<rparr>) = sends s" "sends (s\<lparr>fr_restoring := b\<rparr>) = sends s"
  "sends (s\<lparr>fr_socket := b\<rparr>) = sends s" "sends (s\<lparr>fr_cache := c\<rparr>) = sends s" "sends (s\<lparr>fr_requests := rs\<rparr>) = sends s"
  by (simp_all add: sends_def fun_eq_iff)

lemma requests_frame:
  "requests_ok (setSession parse token s) = requests_ok s" "requests_ok (clear_session s) = requests_ok s"
  "requests_ok (refreshOnce s) = requests_ok s" "requests_ok (end_restore s) = requests_ok s"
  "requests_ok (s\<lparr>fr_posts := ps\<rparr>) = requests_ok s" "requests_ok (s\<lparr>fr_refreshPromise := pr\<rparr>) = requests_ok s"
  "requests_ok (s\<lparr>fr_restoring := b\<rparr>) = requests_ok s" "requests_ok (s\<lparr>fr_socket := b\<rparr>) = requests_ok s"
  "requests_ok (s\<lparr>fr_cache := c\<rparr>) = requests_ok s"
  by (simp_all add: requests_ok_def sends_frame sends_upd)

text \<open>A request changes place, and goes out \<open>k\<close> more times.\<close>

lemma requests_update:
  assumes "requests_ok s" "fr_requests s' = (fr_requests s)(n \<mapsto> r)" "\<And>m. sends s' m = sends s m + (if m = n then k else 0)"
    "rc_phase r = AwaitingRefresh \<Longrightarrow> rc_retried r" "allowance (fr_requests s n) + k \<le> allowance (Some r)"
  shows "requests_ok s'"
  unfolding requests_ok_def
proof (intro conjI allI impI)
  fix m q assume "fr_requests s' m = Some q" "rc_phase q = AwaitingRefresh"
  with assms(1,2,4) show "rc_retried q" by (auto simp: requests_ok_def split: if_splits)
next
  fix m
  have "sends s m \<le> allowance (fr_requests s m)" using assms(1) by (simp add: requests_ok_def)
  with assms(2,3,5) show "sends s' m \<le> allowance (fr_requests s' m)" by (cases "m = n") auto
qed

lemma sends_fly: "sends (fly n r s) m = sends s m + (if m = n then 1 else 0)"
  by (simp add: sends_def fly_def)

lemma fly_requests: "fr_requests (fly n r s) = (fr_requests s)(n \<mapsto> r\<lparr>rc_phase := Flying\<rparr>)"
  by (simp add: fly_def)

lemma requests_replay: "requests_ok s \<Longrightarrow> requests_ok (replay n s)"
proof (cases "fr_requests s n")
  case (Some r)
  assume ok: "requests_ok s"
  show ?thesis
  proof (cases "rc_phase r = AwaitingRefresh")
    case True
    with ok Some have "rc_retried r" by (simp add: requests_ok_def)
    with Some True have "requests_ok (fly n r s)"
      by (intro requests_update [OF ok fly_requests sends_fly]) (simp_all add: allowance_def)
    with Some True show ?thesis by (simp add: replay_def)
  qed (use ok Some in \<open>simp add: replay_def\<close>)
qed (simp add: replay_def)

lemma requests_settle:
  assumes "requests_ok s" "fr_requests s n = Some r" "p \<noteq> AwaitingRefresh"
  shows "requests_ok (settle n p s)"
proof (rule requests_update [OF assms(1), of _ n "r\<lparr>rc_phase := p\<rparr>" 0])
  show "fr_requests (settle n p s) = (fr_requests s)(n \<mapsto> r\<lparr>rc_phase := p\<rparr>)" using assms(2) by (simp add: settle_def)
qed (use assms in \<open>simp_all add: sends_frame allowance_def\<close>)

lemma requests_give_up: "requests_ok s \<Longrightarrow> requests_ok (give_up n s)"
  by (auto simp: give_up_def requests_frame intro: requests_settle split: option.splits)

lemma requests_fold: "requests_ok s \<Longrightarrow> requests_ok (fold replay ns s)" "requests_ok s \<Longrightarrow> requests_ok (fold give_up ns s)"
  by (induction ns arbitrary: s) (simp_all add: requests_replay requests_give_up)

lemma requests_on_response:
  assumes "requests_ok s"
  shows "requests_ok (on_response n status s)"
proof (cases "fr_requests s n")
  case (Some r)
  let ?r = "r\<lparr>rc_retried := True, rc_phase := AwaitingRefresh\<rparr>"
  have "requests_ok (s\<lparr>fr_requests := (fr_requests s)(n \<mapsto> ?r)\<rparr>)" if "\<not> rc_retried r" "rc_phase r = Flying"
  proof (rule requests_update [OF assms, of _ n ?r 0])
    show "fr_requests (s\<lparr>fr_requests := (fr_requests s)(n \<mapsto> ?r)\<rparr>) = (fr_requests s)(n \<mapsto> ?r)" by simp
  qed (use Some that in \<open>simp_all add: allowance_def sends_upd\<close>)
  with assms Some show ?thesis by (auto simp: on_response_def requests_frame intro: requests_settle)
qed (use assms in \<open>simp add: on_response_def\<close>)

lemma requests_step:
  assumes "front_step parse s s'" "requests_ok s"
  shows "requests_ok s'"
  using assms(1)
proof cases
  case (send n url)
  then show ?thesis unfolding send_request_def
    by (simp only:) (rule requests_update [OF assms(2) fly_requests sends_fly]; simp add: allowance_def)
next
  case (login resp)
  then show ?thesis using assms(2) by (auto simp: login_done_def requests_frame split: login_response.splits)
qed (use assms(2) in \<open>simp_all add: restore_session_def refresh_resolved_def refresh_rejected_def Let_def cache_put_def
      verifyTwoFactor_done_def logout_done_def resetChatSocket_def getChatSocket_def requests_frame requests_fold requests_on_response\<close>)

text \<open>Refresh.\<close>

lemma flight_fields_session:
  "fr_posts (setSession parse token s) = fr_posts s" "fr_posts (clear_session s) = fr_posts s"
  "fr_refreshPromise (setSession parse token s) = fr_refreshPromise s" "fr_refreshPromise (clear_session s) = fr_refreshPromise s"
  "fr_restoring (setSession parse token s) = fr_restoring s" "fr_restoring (clear_session s) = fr_restoring s"
  by (simp_all add: front_defs)

lemma flight_fields_replay:
  "fr_posts (replay n s) = fr_posts s" "fr_refreshPromise (replay n s) = fr_refreshPromise s" "fr_restoring (replay n s) = fr_restoring s"
  "fr_user (replay n s) = fr_user s" "fr_cache (replay n s) = fr_cache s" "fr_token (replay n s) = fr_token s"
  by (simp_all add: replay_def fly_def split: option.splits)

lemma flight_fields_give_up:
  "fr_posts (give_up n s) = fr_posts s" "fr_refreshPromise (give_up n s) = fr_refreshPromise s" "fr_restoring (give_up n s) = fr_restoring s"
  by (simp_all add: give_up_def settle_def flight_fields_session split: option.splits)

lemma flight_fields_fold:
  "fr_posts (fold replay ns s) = fr_posts s" "fr_refreshPromise (fold replay ns s) = fr_refreshPromise s"
  "fr_restoring (fold replay ns s) = fr_restoring s" "fr_user (fold replay ns s) = fr_user s" "fr_cache (fold replay ns s) = fr_cache s"
  "fr_token (fold replay ns s) = fr_token s"
  "fr_posts (fold give_up ns s) = fr_posts s" "fr_refreshPromise (fold give_up ns s) = fr_refreshPromise s"
  "fr_restoring (fold give_up ns s) = fr_restoring s"
  by (induction ns arbitrary: s) (simp_all add: flight_fields_replay flight_fields_give_up)

lemma waiting_cong: "fr_requests s' = fr_requests s \<Longrightarrow> waiting s' = waiting s"
  by (simp add: waiting_def)

lemma waiting_upd:
  "fr_requests s' = (fr_requests s)(n \<mapsto> r) \<Longrightarrow> rc_phase r \<noteq> AwaitingRefresh \<Longrightarrow> waiting s' = waiting s - {n}"
  by (auto simp: waiting_def)

lemma waiting_settle: "p \<noteq> AwaitingRefresh \<Longrightarrow> waiting (settle n p s) = waiting s - {n}"
  by (cases "fr_requests s n") (auto simp: waiting_def settle_def)

lemma waiting_frame:
  "waiting (setSession parse token s) = waiting s" "waiting (clear_session s) = waiting s"
  "waiting (refreshOnce s) = waiting s" "waiting (end_restore s) = waiting s"
  "waiting (s\<lparr>fr_posts := ps\<rparr>) = waiting s" "waiting (s\<lparr>fr_refreshPromise := pr\<rparr>) = waiting s"
  "waiting (s\<lparr>fr_restoring := b\<rparr>) = waiting s" "waiting (s\<lparr>fr_socket := b\<rparr>) = waiting s" "waiting (s\<lparr>fr_cache := c\<rparr>) = waiting s"
  by (simp_all add: waiting_def sends_frame)

lemma waiting_replay: "waiting (replay n s) = waiting s - {n}"
proof (cases "\<exists>r. fr_requests s n = Some r \<and> rc_phase r = AwaitingRefresh")
  case True
  then obtain r where r: "fr_requests s n = Some r" "rc_phase r = AwaitingRefresh" by blast
  have "waiting (fly n r s) = waiting s - {n}" by (rule waiting_upd [OF fly_requests]) simp
  with r show ?thesis by (simp add: replay_def)
next
  case False
  then have "replay n s = s" by (auto simp: replay_def split: option.splits)
  with False show ?thesis by (auto simp: waiting_def)
qed

lemma waiting_give_up: "waiting (give_up n s) = waiting s - {n}"
proof (cases "\<exists>r. fr_requests s n = Some r \<and> rc_phase r = AwaitingRefresh")
  case True
  then show ?thesis by (auto simp: give_up_def waiting_frame waiting_settle)
next
  case False
  then have "give_up n s = s" by (auto simp: give_up_def split: option.splits)
  with False show ?thesis by (auto simp: waiting_def)
qed

lemma waiting_fold: "waiting (fold replay ns s) = waiting s - set ns" "waiting (fold give_up ns s) = waiting s - set ns"
  by (induction ns arbitrary: s) (auto simp: waiting_replay waiting_give_up)

lemma refresh_resolved_flight:
  "fr_posts (refresh_resolved parse ns i token s) = remove1 i (fr_posts s)"
  "fr_refreshPromise (refresh_resolved parse ns i token s) = None" "\<not> fr_restoring (refresh_resolved parse ns i token s)"
  "waiting (refresh_resolved parse ns i token s) = waiting s - set ns"
  by (simp_all add: refresh_resolved_def waiting_frame waiting_fold)
    (simp_all add: end_restore_def flight_fields_fold flight_fields_session)

lemma refresh_rejected_flight:
  "fr_posts (refresh_rejected ns i s) = remove1 i (fr_posts s)"
  "fr_refreshPromise (refresh_rejected ns i s) = None" "\<not> fr_restoring (refresh_rejected ns i s)"
  "waiting (refresh_rejected ns i s) = waiting s - set ns"
  by (simp_all add: refresh_rejected_def waiting_frame waiting_fold Let_def)
    (simp_all add: end_restore_def flight_fields_fold flight_fields_session)

lemma flight_refreshOnce:
  "flight_ok s \<Longrightarrow> flight_ok (refreshOnce s)" "flight_ok s \<Longrightarrow> fr_refreshPromise (refreshOnce s) \<noteq> None"
  by (auto simp: flight_ok_def waiting_frame) (auto simp: refreshOnce_def split: option.splits)

lemma flight_frame:
  "flight_ok (setSession parse token s) = flight_ok s" "flight_ok (clear_session s) = flight_ok s"
  "flight_ok (s\<lparr>fr_socket := b\<rparr>) = flight_ok s" "flight_ok (s\<lparr>fr_cache := c\<rparr>) = flight_ok s"
  by (simp_all add: flight_ok_def waiting_frame flight_fields_session)

lemma flight_less:
  assumes "flight_ok s" "fr_posts s' = fr_posts s" "fr_refreshPromise s' = fr_refreshPromise s" "fr_restoring s' = fr_restoring s"
    "waiting s' \<subseteq> waiting s"
  shows "flight_ok s'"
  using assms by (auto simp: flight_ok_def)

lemma flight_settle: "flight_ok s \<Longrightarrow> p \<noteq> AwaitingRefresh \<Longrightarrow> flight_ok (settle n p s)"
  by (rule flight_less, assumption) (auto simp: waiting_settle, auto simp: settle_def)

lemma flight_on_response:
  assumes "flight_ok s"
  shows "flight_ok (on_response n status s)"
proof (cases "fr_requests s n")
  case (Some r)
  let ?s = "s\<lparr>fr_requests := (fr_requests s)(n \<mapsto> r\<lparr>rc_retried := True, rc_phase := AwaitingRefresh\<rparr>)\<rparr>"
  have "fr_posts ?s = (case fr_refreshPromise ?s of None \<Rightarrow> [] | Some i \<Rightarrow> [i])" using assms by (simp add: flight_ok_def)
  then have "flight_ok (refreshOnce ?s)" by (auto simp: flight_ok_def refreshOnce_def split: option.splits)
  with assms Some show ?thesis by (auto simp: on_response_def flight_frame intro: flight_settle)
qed (use assms in \<open>simp add: on_response_def\<close>)

lemma flight_step:
  assumes "front_step parse s s'" "flight_ok s"
  shows "flight_ok s'"
  using assms(1)
proof cases
  case mount
  then show ?thesis using flight_refreshOnce [OF assms(2)]
    by (simp add: restore_session_def flight_ok_def waiting_frame)
next
  case (send n url)
  then show ?thesis unfolding send_request_def
    by (simp only:) (rule flight_less [OF assms(2)], simp_all add: fly_def, auto simp: waiting_def split: if_splits)
next
  case (resolved i ns token)
  then show ?thesis using assms(2) by (auto simp: flight_ok_def refresh_resolved_flight split: option.splits)
next
  case (rejected i ns)
  then show ?thesis using assms(2) by (auto simp: flight_ok_def refresh_rejected_flight split: option.splits)
next
  case (login resp)
  then show ?thesis using assms(2) by (auto simp: login_done_def flight_frame split: login_response.splits)
qed (use assms(2) in \<open>simp_all add: cache_put_def verifyTwoFactor_done_def logout_done_def resetChatSocket_def getChatSocket_def
      flight_frame flight_on_response\<close>)

lemma front0_ok: "front_ok front0"
  by (simp add: front_ok_def identity_ok_def requests_ok_def flight_ok_def sends_def front0_def allowance_def waiting_def)

lemma front_step_ok: "front_step parse s s' \<Longrightarrow> front_ok s \<Longrightarrow> front_ok s'"
  unfolding front_ok_def using identity_step requests_step flight_step by blast

lemma front_reachable_ok: "(front_step parse)\<^sup>*\<^sup>* front0 s \<Longrightarrow> front_ok s"
  by (induction rule: rtranclp_induct) (auto intro: front0_ok front_step_ok)

section \<open>What a settled refresh does\<close>

lemma replayed_sent:
  assumes "n \<in> waiting s" "n \<in> set ns"
  shows "(n, bearer_header s) \<in> set (fr_sent (fold replay ns s))"
  using assms
proof (induction ns arbitrary: s)
  case (Cons m ns)
  have mono: "set (fr_sent s) \<subseteq> set (fr_sent (fold replay ks s))" for ks s
    by (induction ks arbitrary: s) (fastforce simp: replay_def fly_def split: option.splits if_splits)+
  have b: "bearer_header (replay m s) = bearer_header s" by (simp only: bearer_header_def flight_fields_replay)
  show ?case
  proof (cases "m = n")
    case True
    with Cons.prems have "(n, bearer_header s) \<in> set (fr_sent (replay m s))"
      by (auto simp: replay_def fly_def waiting_def)
    with mono show ?thesis by (simp add: subset_iff)
  next
    case False
    with Cons.prems have "n \<in> waiting (replay m s)" "n \<in> set ns" by (auto simp: waiting_replay)
    from Cons.IH [OF this] b show ?thesis by simp
  qed
qed simp

lemma front_session_fields:
  "fr_token (setSession parse token s) = Some token" "fr_user (setSession parse token s) = decodeAccessToken parse token"
  "fr_token (clear_session s) = None" "fr_user (clear_session s) = None"
  by (simp_all add: front_defs)

lemma resolved_session:
  "fr_token (refresh_resolved parse ns i token s) = Some token"
  "fr_user (refresh_resolved parse ns i token s) = decodeAccessToken parse token"
  by (simp_all add: refresh_resolved_def end_restore_def flight_fields_fold front_session_fields)

lemma resolved_replays:
  assumes "n \<in> waiting s" "set ns = waiting s" "token \<noteq> []"
  shows "(n, Some (''Bearer '' @ token)) \<in> set (fr_sent (refresh_resolved parse ns i token s))"
proof -
  let ?s = "(setSession parse token (s\<lparr>fr_posts := remove1 i (fr_posts s)\<rparr>))\<lparr>fr_refreshPromise := None\<rparr>"
  have "waiting ?s = waiting s" by (simp add: waiting_frame)
  moreover have "bearer_header ?s = Some (''Bearer '' @ token)"
    using assms(3) by (simp add: bearer_header_def front_session_fields truthy_str_def)
  ultimately have "(n, Some (''Bearer '' @ token)) \<in> set (fr_sent (fold replay ns ?s))"
    using replayed_sent [of n ?s ns] assms(1,2) by simp
  then show ?thesis by (simp add: refresh_resolved_def end_restore_def)
qed

lemma give_up_session:
  "waiting s \<inter> set ns \<noteq> {} \<or> fr_token s = None \<and> fr_user s = None \<Longrightarrow>
     fr_token (fold give_up ns s) = None \<and> fr_user (fold give_up ns s) = None"
proof (induction ns arbitrary: s)
  case (Cons m ns)
  show ?case
  proof (cases "m \<in> waiting s")
    case True
    then have "fr_token (give_up m s) = None \<and> fr_user (give_up m s) = None"
      by (auto simp: give_up_def waiting_def front_session_fields)
    with Cons.IH [of "give_up m s"] show ?thesis by simp
  next
    case False
    then have "give_up m s = s" by (auto simp: give_up_def waiting_def split: option.splits)
    with Cons False show ?thesis by auto
  qed
qed simp

lemma rejected_session:
  assumes "waiting s \<noteq> {} \<or> fr_restoring s" "set ns = waiting s"
  shows "fr_token (refresh_rejected ns i s) = None \<and> fr_user (refresh_rejected ns i s) = None"
proof -
  let ?s = "s\<lparr>fr_posts := remove1 i (fr_posts s), fr_refreshPromise := None\<rparr>"
  have w: "waiting ?s = waiting s" by (simp add: waiting_frame)
  show ?thesis
  proof (cases "fr_restoring s")
    case True
    then show ?thesis by (simp add: refresh_rejected_def Let_def end_restore_def flight_fields_fold front_session_fields)
  next
    case False
    then have "waiting ?s \<inter> set ns \<noteq> {}" using assms w by auto
    with give_up_session [of ?s ns] False show ?thesis
      by (simp add: refresh_rejected_def Let_def end_restore_def flight_fields_fold)
  qed
qed

text \<open>A replay that fails for any reason, not only its authorisation, ends the session.\<close>

lemma replay_failure_ends_session:
  assumes "fr_requests s n = Some r" "rc_phase r = Flying" "rc_retried r" "c \<ge> 300"
  shows "fr_token (on_response n (Some c) s) = None" "fr_user (on_response n (Some c) s) = None"
  using assms by (simp_all add: on_response_def front_session_fields)

text \<open>A refresh on the wire when the user logs out opens the session again when it resolves.\<close>

lemma late_refresh_reopens_session:
  assumes "i \<in> set (fr_posts s)" "set ns = waiting s" "distinct ns"
  shows "\<exists>s'. front_step parse (logout_done s) s' \<and> fr_token s' = Some token \<and> fr_user s' = decodeAccessToken parse token"
proof -
  have "i \<in> set (fr_posts (logout_done s))" "set ns = waiting (logout_done s)"
    using assms by (simp_all add: logout_done_def resetChatSocket_def flight_fields_session waiting_frame)
  from front_step.resolved [OF this assms(3)] resolved_session show ?thesis by blast
qed

text \<open>The cache is purged when the identity changes, and only then.\<close>

lemma cache_identity_changes:
  assumes "identity_ok s"
  shows "fr_cache (setSession parse token s) =
      (if map_option au_userId (decodeAccessToken parse token) = map_option au_userId (fr_user s) then fr_cache s else [])"
    "fr_cache (clear_session s) = (if fr_user s = None then fr_cache s else [])"
  using assms by (auto simp: identity_ok_def setSession_def clear_session_def emit_def Let_def)

lemma cache_resolved:
  assumes "identity_ok s"
  shows "fr_cache (refresh_resolved parse ns i token s) =
      (if map_option au_userId (decodeAccessToken parse token) = map_option au_userId (fr_user s) then fr_cache s else [])"
  using cache_identity_changes(1) [of "s\<lparr>fr_posts := remove1 i (fr_posts s)\<rparr>" parse token] assms
  by (simp add: refresh_resolved_def end_restore_def flight_fields_fold identity_frame)

text \<open>A visit: the session is restored, a list is fetched and its token has expired.\<close>

definition visit :: "payload_parser \<Rightarrow> front" where
  "visit parse = on_response 0 (Some 401) (send_request 0 ''/api/v1/gear/me'' (cache_put ''gear''
     (refresh_resolved parse [] 0 ''a.b.c'' (restore_session front0))))"

definition one_user :: payload_parser where
  "one_user _ = Some (Some ''u1'', Some ''a@b.fr'', Some ''FREELANCE'')"

lemma visit_restored:
  fixes parse tok
  defines "s \<equiv> refresh_resolved parse [] 0 tok (restore_session front0)"
  shows "(front_step parse)\<^sup>*\<^sup>* front0 s" "fr_requests s = Map.empty" "fr_token s = Some tok" "fr_posts s = []"
    "fr_refreshPromise s = None" "fr_next s = 1"
proof -
  let ?r = "restore_session front0"
  have r: "fr_posts ?r = [0]" "fr_requests ?r = Map.empty" "fr_next ?r = 1"
    by (simp_all add: restore_session_def refreshOnce_def front0_def)
  have p: "0 \<in> set (fr_posts ?r)" "set [] = waiting ?r" using r by (simp_all add: waiting_def)
  show "(front_step parse)\<^sup>*\<^sup>* front0 s" unfolding s_def
    by (rule rtranclp.rtrancl_into_rtrancl [OF r_into_rtranclp [of "front_step parse", OF front_step.mount] front_step.resolved [OF p]])
      simp
  show "fr_requests s = Map.empty" "fr_token s = Some tok" "fr_posts s = []" "fr_refreshPromise s = None"
    using r by (simp_all add: s_def refresh_resolved_flight resolved_session) (simp add: refresh_resolved_def sends_frame)
  have n: "fr_next (setSession parse tok x) = fr_next x" for x by (simp add: front_defs)
  show "fr_next s = 1" using r n by (simp add: s_def refresh_resolved_def end_restore_def)
qed

lemma visit_ok: "(front_step parse)\<^sup>*\<^sup>* front0 (visit parse)" "waiting (visit parse) = {0}" "fr_posts (visit parse) = [1]"
proof -
  let ?s = "refresh_resolved parse [] 0 ''a.b.c'' (restore_session front0)" and ?u = "''/api/v1/gear/me''"
  let ?q = "send_request 0 ?u (cache_put ''gear'' ?s)"
  note s = visit_restored [of parse "''a.b.c''"]
  have "fr_requests (cache_put ''gear'' ?s) 0 = None" using s(2) by (simp add: cache_put_def)
  then have "(front_step parse)\<^sup>*\<^sup>* front0 ?q"
    by (intro rtranclp.rtrancl_into_rtrancl [OF rtranclp.rtrancl_into_rtrancl [OF s(1) front_step.query] front_step.send])
  then show "(front_step parse)\<^sup>*\<^sup>* front0 (visit parse)"
    unfolding visit_def by (rule rtranclp.rtrancl_into_rtrancl [of "front_step parse" front0 ?q, OF _ front_step.response])
  have u: "?u \<noteq> REFRESH_ENDPOINT" by (simp add: REFRESH_ENDPOINT_def)
  have q: "fr_requests ?q = [0 \<mapsto> \<lparr>rc_url = ?u, rc_retried = False, rc_phase = Flying\<rparr>]" "fr_token ?q = Some ''a.b.c''"
    "fr_posts ?q = []" "fr_refreshPromise ?q = None" "fr_next ?q = 1"
    using s by (simp_all add: send_request_def fly_def cache_put_def)
  show "waiting (visit parse) = {0}" "fr_posts (visit parse) = [1]"
    unfolding visit_def on_response_def using q u by (auto simp: waiting_def refreshOnce_def)
qed

section \<open>Properties\<close>

text \<open>
  C33. Single flight. In every state the client can reach there is at most one refresh call on the wire, no request is
  sent more than twice, and a request that waits for a refresh, or a session that is being restored, has its refresh on
  the wire. When that call resolves nobody waits any more, restoration is over and every request
  that waited has been sent again with the new token; when it fails nobody waits either, and the session is empty
  if somebody did.
\<close>

theorem refresh_single_flight:
  assumes "(front_step parse)\<^sup>*\<^sup>* front0 s" "set ns = waiting s"
  shows "length (fr_posts s) \<le> 1 \<and> sends s n \<le> 2 \<and> (waiting s \<noteq> {} \<or> fr_restoring s \<longrightarrow> fr_posts s \<noteq> []) \<and>
    (\<forall>i \<in> set (fr_posts s). \<forall>token. token \<noteq> [] \<longrightarrow>
       (let s' = refresh_resolved parse ns i token s in
          waiting s' = {} \<and> fr_posts s' = [] \<and> \<not> fr_restoring s' \<and> fr_token s' = Some token \<and>
          (\<forall>m \<in> waiting s. (m, Some (''Bearer '' @ token)) \<in> set (fr_sent s'))) \<and>
       (let s' = refresh_rejected ns i s in
          waiting s' = {} \<and> fr_posts s' = [] \<and> \<not> fr_restoring s' \<and>
          (waiting s \<noteq> {} \<or> fr_restoring s \<longrightarrow> fr_token s' = None \<and> fr_user s' = None)))"
proof -
  have ok: "requests_ok s" "flight_ok s" using front_reachable_ok [OF assms(1)] by (simp_all add: front_ok_def)
  have "sends s n \<le> allowance (fr_requests s n)" using ok(1) by (simp add: requests_ok_def)
  moreover have "allowance r \<le> 2" for r by (simp add: allowance_def split: option.splits)
  ultimately have "sends s n \<le> 2" using order_trans by blast
  moreover have "length (fr_posts s) \<le> 1" "waiting s \<noteq> {} \<or> fr_restoring s \<longrightarrow> fr_posts s \<noteq> []"
    "\<And>i. i \<in> set (fr_posts s) \<Longrightarrow> remove1 i (fr_posts s) = []"
    using ok(2) by (auto simp: flight_ok_def split: option.splits)
  ultimately show ?thesis
    using assms(2) by (auto simp: Let_def refresh_resolved_flight refresh_rejected_flight resolved_session resolved_replays rejected_session
        simp del: append_Cons)
qed

theorem refresh_single_flight_witness:
  "(front_step one_user)\<^sup>*\<^sup>* front0 (visit one_user) \<and> sends (visit one_user) 0 \<le> 2 \<and>
   waiting (refresh_resolved one_user [0] 1 ''d.e.f'' (visit one_user)) = {} \<and>
   (0, Some ''Bearer d.e.f'') \<in> set (fr_sent (refresh_resolved one_user [0] 1 ''d.e.f'' (visit one_user)))"
proof -
  note v = visit_ok [of one_user]
  have "set [0] = waiting (visit one_user)" using v(2) by simp
  from refresh_single_flight [OF v(1) this, of 0] v show ?thesis by (simp add: Let_def)
qed

text \<open>
  C34. One identity in the cache. In every state the client can reach, every entry of the query cache was fetched
  under the identity of the current user, or under none when nobody is logged in. A refresh that renews the same user keeps the cache;
  logging out, or in as somebody else, empties it.
\<close>

theorem cache_single_identity:
  assumes "(front_step parse)\<^sup>*\<^sup>* front0 s"
  shows "(\<forall>e \<in> set (fr_cache s). snd e = map_option au_userId (fr_user s)) \<and>
    fr_cache (refresh_resolved parse ns i token s) =
      (if map_option au_userId (decodeAccessToken parse token) = map_option au_userId (fr_user s) then fr_cache s else []) \<and>
    (fr_user s \<noteq> None \<longrightarrow> fr_cache (logout_done s) = []) \<and>
    (map_option au_userId (decodeAccessToken parse token) \<noteq> map_option au_userId (fr_user s) \<longrightarrow>
       fr_cache (snd (login_done parse (TokenPair token) s)) = [] \<and> fr_cache (verifyTwoFactor_done parse token s) = [])"
proof -
  have ok: "identity_ok s" using front_reachable_ok [OF assms] by (simp add: front_ok_def)
  then have "\<forall>e \<in> set (fr_cache s). snd e = map_option au_userId (fr_user s)" by (simp add: identity_ok_def)
  with ok show ?thesis
    by (simp add: cache_resolved cache_identity_changes logout_done_def resetChatSocket_def login_done_def verifyTwoFactor_done_def)
qed

theorem cache_single_identity_witness:
  "fr_user (visit one_user) = Some \<lparr>au_userId = ''u1'', au_email = ''a@b.fr'', au_role = ''FREELANCE''\<rparr> \<and>
   fr_cache (visit one_user) = [(''gear'', Some ''u1'')] \<and> fr_cache (logout_done (visit one_user)) = []"
proof -
  have "fr_user (visit one_user) = Some \<lparr>au_userId = ''u1'', au_email = ''a@b.fr'', au_role = ''FREELANCE''\<rparr> \<and>
      fr_cache (visit one_user) = [(''gear'', Some ''u1'')]"
    by code_simp
  with cache_single_identity [OF visit_ok(1) [of one_user], of "[]" 0 "''a.b.c''"] show ?thesis by simp
qed

end
