(* ===== verification/TwoFactorCrypto.thy ===== *)
theory TwoFactorCrypto
  imports Guards
begin

text \<open>
  \<open>auth/two-factor-crypto.ts\<close>: the encryption of the TOTP secrets at rest. The cipher
  (\<open>aes-256-gcm\<close> of Node's OpenSSL) is a parameter; its key handling and the stored format
  \<open>iv.ciphertext.tag\<close> are the program's. The module keeps one variable, the ephemeral key.
\<close>

text \<open>
  \<open>gcm_encrypt key iv plaintext\<close> is the ciphertext and its tag; \<open>gcm_decrypt\<close> is \<open>None\<close>
  where the cipher throws (a forged text, a malformed part).
\<close>

record gcm =
  gcm_encrypt :: "bytes \<Rightarrow> bytes \<Rightarrow> bytes \<Rightarrow> bytes \<times> bytes"
  gcm_decrypt :: "bytes \<Rightarrow> bytes \<Rightarrow> bytes \<Rightarrow> bytes \<Rightarrow> bytes option"

locale gcm_cipher =
  fixes C :: gcm
  assumes decrypt_encrypt: "gcm_encrypt C k iv p = (ct, tag) \<Longrightarrow> gcm_decrypt C k iv ct tag = Some p"

definition loadTwoFactorKey :: "string option \<Rightarrow> bytes \<Rightarrow> (bytes option, bytes) proc" where
  "loadTwoFactorKey env random32 = (\<lambda>ephemeralKey.
     if truthy_str env
     then (let key = b64_decode (js_trim (the env)) in
       if length key \<noteq> 32 then (Inl LibraryError, ephemeralKey) else (Inr key, ephemeralKey))
     else (case ephemeralKey of
         None \<Rightarrow> (Inr random32, Some random32)
       | Some key \<Rightarrow> (Inr key, Some key)))"

definition seal :: "bytes \<Rightarrow> bytes \<Rightarrow> bytes \<Rightarrow> string" where
  "seal iv ciphertext tag = js_join ''.'' (map b64_encode [iv, ciphertext, tag])"

definition encryptTwoFactorSecret ::
    "gcm \<Rightarrow> string option \<Rightarrow> bytes \<Rightarrow> bytes \<Rightarrow> string \<Rightarrow> (bytes option, string) proc" where
  "encryptTwoFactorSecret C env random32 iv plaintext =
     bindP (loadTwoFactorKey env random32) (\<lambda>key.
     case gcm_encrypt C key iv (utf8_encode plaintext) of
       (ciphertext, tag) \<Rightarrow> returnP (seal iv ciphertext tag))"

text \<open>A missing part is \<open>undefined\<close>, on which the cipher throws; further parts are ignored.\<close>

definition decryptTwoFactorSecret ::
    "gcm \<Rightarrow> string option \<Rightarrow> bytes \<Rightarrow> string \<Rightarrow> (bytes option, string) proc" where
  "decryptTwoFactorSecret C env random32 payload =
     bindP (loadTwoFactorKey env random32) (\<lambda>key.
     case map b64_decode (js_split CHR ''.'' payload) of
       iv # ciphertext # tag # _ \<Rightarrow>
         (case gcm_decrypt C key iv ciphertext tag of
            None \<Rightarrow> throwP LibraryError
          | Some plain \<Rightarrow> returnP (utf8_decode plain))
     | _ \<Rightarrow> throwP LibraryError)"

text \<open>Once a key was loaded, the same one is loaded again, whatever random bytes are at hand.\<close>

lemma loadTwoFactorKey_stable:
  "loadTwoFactorKey env r s = (Inr key, s') \<Longrightarrow> loadTwoFactorKey env r' s' = (Inr key, s')"
  by (auto simp: loadTwoFactorKey_def Let_def split: if_splits option.splits)

lemma loadTwoFactorKey_length:
  "loadTwoFactorKey env r s = (Inr key, s') \<Longrightarrow> length r = 32 \<Longrightarrow> (\<forall>k. s = Some k \<longrightarrow> length k = 32) \<Longrightarrow>
     length key = 32"
  by (auto simp: loadTwoFactorKey_def Let_def split: if_splits option.splits)

lemma split_seal: "map b64_decode (js_split CHR ''.'' (seal iv ct tag)) = [iv, ct, tag]"
proof -
  have "js_split CHR ''.'' (seal iv ct tag) = map b64_encode [iv, ct, tag]"
    unfolding seal_def by (rule js_split_join) (auto simp: b64_encode_no_dot)
  then show ?thesis by simp
qed

lemma encryptTwoFactorSecret_error:
  "encryptTwoFactorSecret C env r iv p s = (Inl e, s') \<Longrightarrow> e = LibraryError"
  by (auto simp: encryptTwoFactorSecret_def loadTwoFactorKey_def proc_iff Let_def
           split: if_splits option.splits prod.splits)

lemma loadTwoFactorKey_error: "loadTwoFactorKey env r s = (Inl e, s') \<Longrightarrow> e = LibraryError"
  by (auto simp: loadTwoFactorKey_def Let_def split: if_splits option.splits)

lemma decryptTwoFactorSecret_error:
  "decryptTwoFactorSecret C env r p s = (Inl e, s') \<Longrightarrow> e = LibraryError"
  by (auto simp: decryptTwoFactorSecret_def bindP_def throwP_def returnP_def loadTwoFactorKey_error
           split: list.splits option.splits prod.splits sum.splits)

context gcm_cipher
begin

lemma decrypt_encrypted:
  assumes "encryptTwoFactorSecret C env r iv secret s = (Inr sealed, s')"
  shows "decryptTwoFactorSecret C env r' sealed s' = (Inr secret, s')"
proof -
  obtain key where k: "loadTwoFactorKey env r s = (Inr key, s')"
    and f: "(case gcm_encrypt C key iv (utf8_encode secret) of
        (ciphertext, tag) \<Rightarrow> returnP (seal iv ciphertext tag)) s' = (Inr sealed, s')"
    using assms by (auto simp: encryptTwoFactorSecret_def proc_iff split_def)
  obtain ct tag where e: "gcm_encrypt C key iv (utf8_encode secret) = (ct, tag)" by fastforce
  with f have p: "sealed = seal iv ct tag" by simp
  show ?thesis
    using loadTwoFactorKey_stable [OF k, of r'] decrypt_encrypt [OF e]
    by (simp add: decryptTwoFactorSecret_def bindP_def p split_seal liftE_def returnP_def)
qed

end

text \<open>A cipher for runs: the identity, with an empty tag.\<close>

definition plain_gcm :: gcm where
  "plain_gcm = \<lparr>gcm_encrypt = (\<lambda>k iv p. (p, [])), gcm_decrypt = (\<lambda>k iv ct tag. Some ct)\<rparr>"

interpretation plain_gcm: gcm_cipher plain_gcm
  by unfold_locales (auto simp: plain_gcm_def)

end
