(* ===== verification/TokenStore.thy ===== *)
theory TokenStore
  imports Stores
begin

text \<open>
  \<open>auth/token-store.service.ts\<close>: the registry of valid refresh tokens in Redis, one key
  \<open>refresh:{jti}\<close> per token and an index set \<open>user:{userId}:jtis\<close> per user.

  The interface \<open>token_registry\<close> is what \<open>AuthService\<close> relies on; the methods of
  \<open>TokenStore\<close> provide it on every lawful Redis server (\<open>sublocale\<close> below). The second half
  is about the index: it covers every live token of its user, so that
  \<open>revokeAllForUser\<close> leaves none.
\<close>

section \<open>The methods\<close>

definition refresh_key :: "string \<Rightarrow> string" where
  "refresh_key jti = ''refresh:'' @ jti"

definition user_jtis_key :: "string \<Rightarrow> string" where
  "user_jtis_key userId = ''user:'' @ userId @ '':jtis''"

definition TokenStore_save :: "'k redis \<Rightarrow> nat \<Rightarrow> string \<Rightarrow> string \<Rightarrow> nat \<Rightarrow> ('k, unit) proc" where
  "TokenStore_save RD now jti userId ttlSeconds =
     bindP (catchP (r_exec RD now
              [SET_EX (refresh_key jti) userId ttlSeconds,
               SADD (user_jtis_key userId) jti,
               EXPIRE (user_jtis_key userId) ttlSeconds])
            (\<lambda>_. throwP (ServiceUnavailable RedisDown)))
     (\<lambda>results. case results of
        None \<Rightarrow> throwP (ServiceUnavailable RedisDown)
      | Some errs \<Rightarrow>
          if \<exists>error \<in> set errs. error \<noteq> None then throwP (ServiceUnavailable RedisDown)
          else returnP ())"

definition TokenStore_isValid :: "'k redis \<Rightarrow> nat \<Rightarrow> string \<Rightarrow> string \<Rightarrow> ('k, bool) proc" where
  "TokenStore_isValid RD now jti userId =
     catchP (bindP (r_get RD now (refresh_key jti))
               (\<lambda>stored. returnP (stored \<noteq> None \<and> stored = Some (RStr userId))))
            (\<lambda>_. returnP False)"

definition TokenStore_revoke :: "'k redis \<Rightarrow> nat \<Rightarrow> string \<Rightarrow> ('k, unit) proc" where
  "TokenStore_revoke RD now jti =
     catchP (bindP (r_del RD now [refresh_key jti]) (\<lambda>_. returnP ()))
            (\<lambda>_. throwP (ServiceUnavailable RedisDown))"

definition TokenStore_revokeAllForUser :: "'k redis \<Rightarrow> nat \<Rightarrow> string \<Rightarrow> ('k, unit) proc" where
  "TokenStore_revokeAllForUser RD now userId =
     bindP (r_smembers RD now (user_jtis_key userId)) (\<lambda>jtis.
     bindP (if jtis \<noteq> [] then bindP (r_del RD now (map refresh_key jtis)) (\<lambda>_. returnP ())
            else returnP ()) (\<lambda>_.
     bindP (r_del RD now [user_jtis_key userId]) (\<lambda>_. returnP ())))"

text \<open>The injected service, as the record of the methods its clients call.\<close>

record 'k token_store =
  ts_save :: "nat \<Rightarrow> string \<Rightarrow> string \<Rightarrow> nat \<Rightarrow> ('k, unit) proc"
  ts_isValid :: "nat \<Rightarrow> string \<Rightarrow> string \<Rightarrow> ('k, bool) proc"
  ts_revoke :: "nat \<Rightarrow> string \<Rightarrow> ('k, unit) proc"

definition TokenStore :: "'k redis \<Rightarrow> 'k token_store" where
  "TokenStore RD = \<lparr>ts_save = TokenStore_save RD, ts_isValid = TokenStore_isValid RD,
                    ts_revoke = TokenStore_revoke RD\<rparr>"

lemma TokenStore_simps [simp]:
  "ts_save (TokenStore RD) = TokenStore_save RD"
  "ts_isValid (TokenStore RD) = TokenStore_isValid RD"
  "ts_revoke (TokenStore RD) = TokenStore_revoke RD"
  by (simp_all add: TokenStore_def)

section \<open>The contract of a token registry\<close>

text \<open>\<open>registered t s jti\<close> is the user the token \<open>jti\<close> is valid for at second \<open>t\<close>.\<close>

locale token_registry =
  fixes T :: "'k token_store"
    and registered :: "nat \<Rightarrow> 'k \<Rightarrow> string \<Rightarrow> string option"
  assumes isValid_sound: "ts_isValid T now j u s = (Inr True, s') \<Longrightarrow> registered now s j = Some u"
    and isValid_returns: "ts_isValid T now j u s = (Inl e, s') \<Longrightarrow> False"
    and isValid_frame: "ts_isValid T now j u s = (r, s') \<Longrightarrow> registered t s' = registered t s"
    and save_registers: "ts_save T now j u ttl s = (Inr x, s') \<Longrightarrow> now \<le> t \<Longrightarrow>
          registered t s' = (registered t s)(j := if t < now + ttl then Some u else None)"
    and save_fails: "ts_save T now j u ttl s = (Inl e, s') \<Longrightarrow> e = ServiceUnavailable RedisDown"
    and revoke_removes: "ts_revoke T now j s = (Inr x, s') \<Longrightarrow>
          registered t s' = (registered t s)(j := None)"
    and revoke_fails: "ts_revoke T now j s = (Inl e, s') \<Longrightarrow>
          e = ServiceUnavailable RedisDown \<and>
          (registered t s' = registered t s \<or> registered t s' = (registered t s)(j := None))"
    and save_other: "ts_save T now j u ttl s = (q, s') \<Longrightarrow> i \<noteq> j \<Longrightarrow> registered t s' i = registered t s i"
begin

text \<open>A token that is not registered is refused, and the check changes nothing.\<close>

lemma isValid_refuses:
  assumes "registered now s j \<noteq> Some u" "ts_isValid T now j u s = (r, s')"
  shows "r = Inr False"
proof (cases r)
  case (Inl e)
  then show ?thesis using assms(2) isValid_returns by blast
next
  case (Inr b)
  then show ?thesis using assms isValid_sound by (cases b) auto
qed

text \<open>After a revocation, whatever is saved under another identifier, the token stays refused.\<close>

lemma revoked_stays_refused:
  assumes "ts_revoke T now j s = (Inr x, s1)"
    and "ts_save T now j' u' ttl s1 = (Inr y, s2)" and "j' \<noteq> j" and "now \<le> t"
  shows "registered t s2 j = None"
  using assms by (simp add: revoke_removes save_registers)

end

section \<open>TokenStore provides it\<close>

definition registered_in :: "nat \<Rightarrow> redis_view \<Rightarrow> string \<Rightarrow> string option" where
  "registered_in t v jti = (case live t v (refresh_key jti) of Some (RStr u) \<Rightarrow> Some u | _ \<Rightarrow> None)"

lemma refresh_key_inj [simp]: "refresh_key a = refresh_key b \<longleftrightarrow> a = b"
  by (simp add: refresh_key_def)

lemma user_jtis_key_inj [simp]: "user_jtis_key a = user_jtis_key b \<longleftrightarrow> a = b"
  by (simp add: user_jtis_key_def)

lemma keys_disjoint [simp]: "refresh_key a \<noteq> user_jtis_key b" "user_jtis_key b \<noteq> refresh_key a"
  by (simp_all add: refresh_key_def user_jtis_key_def)

lemma TokenStore_save_Inr:
  "TokenStore_save RD now jti u ttl s = (Inr x, s') \<Longrightarrow>
     \<exists>errs. (\<forall>e \<in> set errs. e = None) \<and>
       r_exec RD now [SET_EX (refresh_key jti) u ttl, SADD (user_jtis_key u) jti,
                      EXPIRE (user_jtis_key u) ttl] s = (Inr (Some errs), s')"
  by (fastforce simp: TokenStore_save_def proc_iff split: option.splits if_splits)

lemma TokenStore_save_Inl:
  "TokenStore_save RD now jti u ttl s = (Inl e, s') \<Longrightarrow> e = ServiceUnavailable RedisDown"
  by (auto simp: TokenStore_save_def proc_iff split: option.splits if_splits)

lemma registered_save:
  "registered_in t (fold (apply_command now) [SET_EX (refresh_key j) u ttl, SADD (user_jtis_key u) j,
      EXPIRE (user_jtis_key u) ttl] v) = (registered_in t v)(j := if t < now + ttl then Some u else None)"
  (is "registered_in t (fold _ ?cs v) = _")
proof
  fix i
  let ?w = "fold (apply_command now) ?cs v"
  have "?w (refresh_key i) = (v(refresh_key j \<mapsto> (RStr u, Some (now + ttl)))) (refresh_key i)"
    by (simp add: apply_command_other del: apply_command.simps(2,3))
  then have "live t ?w (refresh_key i) = live t (v(refresh_key j \<mapsto> (RStr u, Some (now + ttl)))) (refresh_key i)"
    by (rule live_cong)
  then show "registered_in t ?w i = ((registered_in t v)(j := if t < now + ttl then Some u else None)) i"
    by (simp add: registered_in_def live_upd)
qed

lemma registered_del:
  "registered_in t (apply_command now (DEL ks) v) =
     (\<lambda>j. if refresh_key j \<in> set ks then None else registered_in t v j)"
  by (rule ext) (simp add: registered_in_def del: apply_command.simps)

lemma registered_del_one:
  "registered_in t (apply_command now (DEL [refresh_key j]) v) = (registered_in t v)(j := None)"
  by (auto simp: registered_del fun_eq_iff simp del: apply_command.simps)

lemma registered_del_index:
  "registered_in t (apply_command now (DEL [user_jtis_key u]) v) = registered_in t v"
  by (simp add: registered_del fun_eq_iff del: apply_command.simps)

sublocale redis_server \<subseteq> registry: token_registry "TokenStore RD" "\<lambda>t s. registered_in t (view s)"
proof (unfold_locales, goal_cases)
  case (1 now j u s s')
  then show ?case
    by (auto simp: TokenStore_isValid_def proc_iff registered_in_def dest!: get_ok [THEN sym])
next
  case (2 now j u s e s')
  then show ?case by (auto simp: TokenStore_isValid_def proc_iff)
next
  case (3 now j u s r s' t)
  then have "view s' = view s"
    by (cases r) (auto simp: TokenStore_isValid_def proc_iff dest!: get_frame)
  then show ?case by simp
next
  case (4 now j u ttl s x s' t)
  then obtain errs where "\<forall>e \<in> set errs. e = None"
    "r_exec RD now [SET_EX (refresh_key j) u ttl, SADD (user_jtis_key u) j,
       EXPIRE (user_jtis_key u) ttl] s = (Inr (Some errs), s')"
    using TokenStore_save_Inr by force
  then have "view s' = fold (apply_command now) [SET_EX (refresh_key j) u ttl,
      SADD (user_jtis_key u) j, EXPIRE (user_jtis_key u) ttl] (view s)"
    using exec_ok by blast
  then show ?case by (simp only: registered_save)
next
  case (5 now j u ttl s e s')
  then show ?case by (simp add: TokenStore_save_Inl)
next
  case (6 now j s x s' t)
  then obtain c where "r_del RD now [refresh_key j] s = (Inr c, s')"
    by (auto simp: TokenStore_revoke_def proc_iff)
  then have "view s' = apply_command now (DEL [refresh_key j]) (view s)" by (rule del_ok)
  then show ?case by (simp add: registered_del_one del: apply_command.simps)
next
  case (7 now j s e s' t)
  then obtain e' where e: "e = ServiceUnavailable RedisDown"
    and "r_del RD now [refresh_key j] s = (Inl e', s')"
    by (auto simp: TokenStore_revoke_def proc_iff)
  then have "may_apply now (DEL [refresh_key j]) (view s) (view s')" by (blast dest: del_fail)
  then have "registered_in t (view s') = registered_in t (view s) \<or>
      registered_in t (view s') = (registered_in t (view s))(j := None)"
    unfolding may_apply_def by (auto simp: registered_del_one simp del: apply_command.simps)
  with e show ?case by simp
next
  case (8 now j u ttl s r s' i t)
  let ?cs = "[SET_EX (refresh_key j) u ttl, SADD (user_jtis_key u) j, EXPIRE (user_jtis_key u) ttl]"
  obtain q where "r_exec RD now ?cs s = (q, s')"
    using 8(1) by (auto simp: TokenStore_save_def bindP_def catchP_def throwP_def returnP_def split: prod.splits sum.splits option.splits if_splits)
  then have "view s' (refresh_key i) = view s (refresh_key i)" by (rule exec_other) (use 8(2) in simp)
  then show ?case using live_cong [of "view s'" "refresh_key i" "view s" t] by (simp add: registered_in_def)
qed

section \<open>The index covers the live tokens\<close>

definition REFRESH_TTL_SECONDS :: nat where
  "REFRESH_TTL_SECONDS = 7 * 24 * 60 * 60"

text \<open>
  Every token that is live at \<open>now\<close> is in the index set of its user, and the set does not
  expire before the token; no token lives longer than the TTL.
\<close>

definition index_covers :: "nat \<Rightarrow> redis_view \<Rightarrow> bool" where
  "index_covers now v \<longleftrightarrow> (\<forall>j u. registered_in now v j = Some u \<longrightarrow>
     (\<exists>d. v (refresh_key j) = Some (RStr u, Some d) \<and> d \<le> now + REFRESH_TTL_SECONDS \<and>
        (\<exists>js d'. v (user_jtis_key u) = Some (RSet js, Some d') \<and> j \<in> set js \<and> d \<le> d')))"

text \<open>The index keys hold sets.\<close>

definition index_typed :: "redis_view \<Rightarrow> bool" where
  "index_typed v \<longleftrightarrow> (\<forall>u x d. v (user_jtis_key u) = Some (x, d) \<longrightarrow> (\<exists>js. x = RSet js))"

lemma registered_inD:
  "registered_in t v j = Some u \<Longrightarrow> \<exists>d. v (refresh_key j) = Some (RStr u, d) \<and> (\<forall>e. d = Some e \<longrightarrow> t < e)"
  by (auto simp: registered_in_def live_def split: option.splits redis_value.splits if_splits)

lemma registered_in_mono:
  "registered_in t' v j = Some u \<Longrightarrow> t \<le> t' \<Longrightarrow> registered_in t v j = Some u"
  by (auto simp: registered_in_def live_def split: option.splits redis_value.splits if_splits)

text \<open>Time only lets tokens expire.\<close>

lemma index_covers_later: "index_covers now v \<Longrightarrow> now \<le> t \<Longrightarrow> index_covers t v"
  unfolding index_covers_def by (meson add_le_mono1 order_trans registered_in_mono)

lemma index_after_save:
  fixes u j :: string and now :: nat
  assumes "index_typed v" "0 < ttl"
  defines "w \<equiv> fold (apply_command now) [SET_EX (refresh_key j) u ttl, SADD (user_jtis_key u) j,
      EXPIRE (user_jtis_key u) ttl] v"
  shows "\<exists>js. w (user_jtis_key u) = Some (RSet js, Some (now + ttl)) \<and> j \<in> set js \<and>
      (\<forall>js0 d. v (user_jtis_key u) = Some (RSet js0, Some d) \<longrightarrow> now < d \<longrightarrow> set js0 \<subseteq> set js)"
    and "k \<noteq> refresh_key j \<Longrightarrow> k \<noteq> user_jtis_key u \<Longrightarrow> w k = v k"
    and "w (refresh_key j) = Some (RStr u, Some (now + ttl))"
proof -
  have lv: "live now (v(refresh_key j \<mapsto> z)) (user_jtis_key u) = live now v (user_jtis_key u)" for z
    by (rule live_cong) simp
  show "\<exists>js. w (user_jtis_key u) = Some (RSet js, Some (now + ttl)) \<and> j \<in> set js \<and>
      (\<forall>js0 d. v (user_jtis_key u) = Some (RSet js0, Some d) \<longrightarrow> now < d \<longrightarrow> set js0 \<subseteq> set js)"
  proof (cases "live now v (user_jtis_key u)")
    case None
    then show ?thesis by (auto simp: w_def lv live_upd live_def split: if_splits)
  next
    case (Some x)
    then obtain d where d': "v (user_jtis_key u) = Some (x, d)"
      by (auto simp: live_def split: option.splits if_splits)
    with assms(1) obtain js where x: "x = RSet js" unfolding index_typed_def by blast
    with d' have d: "v (user_jtis_key u) = Some (RSet js, d)" by simp
    have "ttl_of now v (user_jtis_key u) = d" using Some d by (simp add: ttl_of_def)
    moreover have "ttl_of now (v(refresh_key j \<mapsto> z)) (user_jtis_key u) = ttl_of now v (user_jtis_key u)" for z
      by (simp add: ttl_of_def lv)
    moreover have "d = None \<or> (\<exists>e. d = Some e \<and> now < e)"
      using Some d by (auto simp: live_def split: option.splits if_splits)
    ultimately show ?thesis
      using Some x d by (auto simp: w_def lv live_upd)
  qed
  show "w k = v k" if "k \<noteq> refresh_key j" "k \<noteq> user_jtis_key u"
    using that by (simp add: w_def apply_command_other del: apply_command.simps)
  show "w (refresh_key j) = Some (RStr u, Some (now + ttl))"
    by (simp add: w_def apply_command_other del: apply_command.simps(2,3))
qed

lemma index_covers_save:
  fixes u j :: string and now :: nat
  assumes cov: "index_covers now v" and ty: "index_typed v"
  defines "w \<equiv> fold (apply_command now) [SET_EX (refresh_key j) u REFRESH_TTL_SECONDS,
      SADD (user_jtis_key u) j, EXPIRE (user_jtis_key u) REFRESH_TTL_SECONDS] v"
  shows "index_covers now w" "index_typed w"
proof -
  let ?d = "now + REFRESH_TTL_SECONDS"
  have ttl: "0 < REFRESH_TTL_SECONDS" by (simp add: REFRESH_TTL_SECONDS_def)
  note after = index_after_save [OF ty ttl, where u = u and j = j and now = now, folded w_def]
  obtain js where js: "w (user_jtis_key u) = Some (RSet js, Some ?d)" "j \<in> set js"
    and old: "\<And>js0 d. v (user_jtis_key u) = Some (RSet js0, Some d) \<Longrightarrow> now < d \<Longrightarrow> set js0 \<subseteq> set js"
    using after(1) by blast
  show "index_typed w"
    using ty js(1) after(2) unfolding index_typed_def
    by (metis Pair_inject keys_disjoint(1) option.inject user_jtis_key_inj)
  show "index_covers now w"
    unfolding index_covers_def
  proof (intro allI impI)
    fix i u' assume reg: "registered_in now w i = Some u'"
    show "\<exists>d. w (refresh_key i) = Some (RStr u', Some d) \<and> d \<le> now + REFRESH_TTL_SECONDS \<and>
        (\<exists>js d'. w (user_jtis_key u') = Some (RSet js, Some d') \<and> i \<in> set js \<and> d \<le> d')"
    proof (cases "i = j")
      case True
      with reg after(3) have "u' = u" by (auto dest!: registered_inD)
      with True after(3) js show ?thesis by auto
    next
      case False
      then have same: "w (refresh_key i) = v (refresh_key i)" by (simp add: after(2))
      then have "registered_in now v i = Some u'"
        using reg live_cong [of w "refresh_key i" v] by (simp add: registered_in_def)
      then obtain d js0 d' where d: "v (refresh_key i) = Some (RStr u', Some d)" "d \<le> ?d"
        and idx: "v (user_jtis_key u') = Some (RSet js0, Some d')" "i \<in> set js0" "d \<le> d'"
        using cov unfolding index_covers_def by blast
      have "now < d" using reg same d(1) by (auto dest!: registered_inD)
      then show ?thesis
      proof (cases "u' = u")
        case True
        then have "i \<in> set js" using old idx \<open>now < d\<close> by fastforce
        with True same d js(1) show ?thesis by auto
      next
        case False
        then have "w (user_jtis_key u') = v (user_jtis_key u')" by (simp add: after(2))
        with same d idx show ?thesis by auto
      qed
    qed
  qed
qed

lemma index_covers_del_refresh:
  assumes "index_covers now v" "index_typed v"
  shows "index_covers now (apply_command t (DEL (map refresh_key js)) v)"
    "index_typed (apply_command t (DEL (map refresh_key js)) v)"
proof -
  have keep: "apply_command t (DEL (map refresh_key js)) v (user_jtis_key u) = v (user_jtis_key u)" for u
    by auto
  show "index_typed (apply_command t (DEL (map refresh_key js)) v)"
    using assms(2) unfolding index_typed_def keep .
  show "index_covers now (apply_command t (DEL (map refresh_key js)) v)"
    using assms(1) unfolding index_covers_def keep registered_del by auto
qed

context redis_server
begin

lemma TokenStore_registry: "token_registry (TokenStore RD) (\<lambda>t s. registered_in t (view s))"
  by unfold_locales

lemma save_keeps_index:
  assumes "index_covers now (view s)" "index_typed (view s)"
    and "TokenStore_save RD now j u REFRESH_TTL_SECONDS s = (Inr x, s')"
  shows "index_covers now (view s') \<and> index_typed (view s')"
proof -
  obtain errs where "\<forall>e \<in> set errs. e = None"
    "r_exec RD now [SET_EX (refresh_key j) u REFRESH_TTL_SECONDS, SADD (user_jtis_key u) j,
       EXPIRE (user_jtis_key u) REFRESH_TTL_SECONDS] s = (Inr (Some errs), s')"
    using TokenStore_save_Inr [OF assms(3)] by blast
  then have "view s' = fold (apply_command now) [SET_EX (refresh_key j) u REFRESH_TTL_SECONDS,
      SADD (user_jtis_key u) j, EXPIRE (user_jtis_key u) REFRESH_TTL_SECONDS] (view s)"
    by (intro exec_ok)
  then show ?thesis using index_covers_save [OF assms(1,2), of j u] by simp
qed

lemma revoke_keeps_index:
  assumes "index_covers now (view s)" "index_typed (view s)"
    and run: "TokenStore_revoke RD now j s = (r, s')"
  shows "index_covers now (view s') \<and> index_typed (view s')"
proof -
  have "may_apply now (DEL [refresh_key j]) (view s) (view s')"
    using run by (cases r) (auto simp: TokenStore_revoke_def proc_iff may_apply_def
        simp del: apply_command.simps dest: del_ok del_fail)
  then show ?thesis
    using index_covers_del_refresh [OF assms(1,2), of now "[j]"] assms(1,2)
    unfolding may_apply_def by auto
qed

lemma revokeAll_complete:
  assumes cov: "index_covers now (view s)"
    and run: "TokenStore_revokeAllForUser RD now u s = (Inr x, s')" and t: "now \<le> t"
  shows "registered_in t (view s') j \<noteq> Some u"
proof -
  obtain js s1 s2 c where mem: "r_smembers RD now (user_jtis_key u) s = (Inr js, s1)"
    and del1: "s2 = s1 \<and> js = [] \<or> (\<exists>c1. r_del RD now (map refresh_key js) s1 = (Inr c1, s2))"
    and del2: "r_del RD now [user_jtis_key u] s2 = (Inr c, s')"
    using run by (auto simp: TokenStore_revokeAllForUser_def proc_iff split: if_splits)
  have v1: "view s1 = view s" by (rule smembers_frame [OF mem])
  have v2: "registered_in t (view s2) i = None \<or> (i \<notin> set js \<and> registered_in t (view s2) i = registered_in t (view s) i)" for i
    using del1
  proof (elim disjE exE)
    fix c1 assume "r_del RD now (map refresh_key js) s1 = (Inr c1, s2)"
    from del_ok [OF this] v1 show ?thesis by (auto simp: registered_del simp del: apply_command.simps)
  qed (simp add: v1)
  have v3: "registered_in t (view s') = registered_in t (view s2)"
    using del_ok [OF del2] by (simp add: registered_del_index del: apply_command.simps)
  show ?thesis
  proof
    assume "registered_in t (view s') j = Some u"
    with v2 [of j] v3 have nj: "j \<notin> set js" and reg: "registered_in t (view s) j = Some u" by auto
    have now: "registered_in now (view s) j = Some u" by (rule registered_in_mono [OF reg t])
    then obtain d ks d' where "view s (refresh_key j) = Some (RStr u, Some d)"
      and idx: "view s (user_jtis_key u) = Some (RSet ks, Some d')" "j \<in> set ks" "d \<le> d'"
      using cov unfolding index_covers_def by blast
    with now have "live now (view s) (user_jtis_key u) = Some (RSet ks)"
      by (auto simp: live_def dest!: registered_inD)
    with smembers_ok [OF mem] idx nj show False by simp
  qed
qed

end

end
