(* ===== verification/TwoFactor.thy ===== *)
theory TwoFactor
  imports TwoFactorCrypto TokenStore Schema
begin

text \<open>
  \<open>auth/two-factor.service.ts\<close> and \<open>auth/dto/two-factor.dto.ts\<close>: TOTP enrolment,
  verification with the brute-force counter in Redis, backup codes.

  The state is the users table, Redis and the ephemeral encryption key. Argon2, otplib and the
  cipher are parameters; random bytes and the current second are arguments of each call.
\<close>

section \<open>State and libraries\<close>

record ('u, 'k) auth_world =
  w_users :: 'u
  w_redis :: 'k
  w_key :: "bytes option"

definition onUsers :: "('u, 'a) proc \<Rightarrow> (('u, 'k) auth_world, 'a) proc" where
  "onUsers = liftP w_users (\<lambda>x w. w\<lparr>w_users := x\<rparr>)"

definition onRedis :: "('k, 'a) proc \<Rightarrow> (('u, 'k) auth_world, 'a) proc" where
  "onRedis = liftP w_redis (\<lambda>x w. w\<lparr>w_redis := x\<rparr>)"

definition onKey :: "(bytes option, 'a) proc \<Rightarrow> (('u, 'k) auth_world, 'a) proc" where
  "onKey = liftP w_key (\<lambda>x w. w\<lparr>w_key := x\<rparr>)"

lemma onUsers_iff [proc_iff]:
  "onUsers m w = (r, w') \<longleftrightarrow> (\<exists>x. m (w_users w) = (r, x) \<and> w' = w\<lparr>w_users := x\<rparr>)"
  by (simp add: onUsers_def liftP_iff)

lemma onRedis_iff [proc_iff]:
  "onRedis m w = (r, w') \<longleftrightarrow> (\<exists>x. m (w_redis w) = (r, x) \<and> w' = w\<lparr>w_redis := x\<rparr>)"
  by (simp add: onRedis_def liftP_iff)

lemma onKey_iff [proc_iff]:
  "onKey m w = (r, w') \<longleftrightarrow> (\<exists>x. m (w_key w) = (r, x) \<and> w' = w\<lparr>w_key := x\<rparr>)"
  by (simp add: onKey_def liftP_iff)

text \<open>What a step on one part keeps of the others.\<close>

lemma keeps_onRedis [keeps_intro]: "(\<And>w x. I w \<Longrightarrow> I (w\<lparr>w_redis := x\<rparr>)) \<Longrightarrow> keeps I (onRedis m)"
  by (auto simp: keeps_def onRedis_iff)

lemma keeps_onUsers: "(\<And>w x. I w \<Longrightarrow> I (w\<lparr>w_users := x\<rparr>)) \<Longrightarrow> keeps I (onUsers m)"
  by (auto simp: keeps_def onUsers_iff)

lemma keeps_onKey [keeps_intro]: "(\<And>w x. I w \<Longrightarrow> I (w\<lparr>w_key := x\<rparr>)) \<Longrightarrow> keeps I (onKey m)"
  by (auto simp: keeps_def onKey_iff)

lemmas world_eval = onUsers_def onRedis_def onKey_def

text \<open>
  \<open>a_hash salt p\<close> and \<open>a_verify\<close> are \<open>hash\<close> and \<open>verify\<close> of \<open>@node-rs/argon2\<close>;
  \<open>otp_verify now token secret\<close> and \<open>otp_keyuri\<close> are the \<open>authenticator\<close> of otplib.
  \<open>env_key\<close> is \<open>TWO_FACTOR_ENCRYPTION_KEY\<close>.
\<close>

record auth_libs =
  a_hash :: "bytes \<Rightarrow> string \<Rightarrow> string"
  a_verify :: "string \<Rightarrow> string \<Rightarrow> exn + bool"
  otp_verify :: "nat \<Rightarrow> string \<Rightarrow> string \<Rightarrow> exn + bool"
  otp_keyuri :: "string \<Rightarrow> string \<Rightarrow> string \<Rightarrow> string"
  lib_gcm :: gcm
  env_key :: "string option"

definition BACKUP_CODES_COUNT :: nat where "BACKUP_CODES_COUNT = 8"
definition MAX_FAILED_ATTEMPTS :: nat where "MAX_FAILED_ATTEMPTS = 5"
definition FAIL_WINDOW_SECONDS :: nat where "FAIL_WINDOW_SECONDS = 300"

section \<open>Helpers\<close>

definition requireUser :: "('u, user) repo \<Rightarrow> string \<Rightarrow> (('u, 'k) auth_world, user) proc" where
  "requireUser U userId = bindP (onUsers (repo_findOne U (\<lambda>u. u_id u = userId))) (\<lambda>user.
     case user of None \<Rightarrow> throwP (NotFound UserNotFound) | Some u \<Rightarrow> returnP u)"

definition backup_alphabet :: string where
  "backup_alphabet = ''ABCDEFGHJKMNPQRSTUVWXYZ23456789''"

definition backup_char :: "8 word \<Rightarrow> char" where
  "backup_char byte = backup_alphabet ! (unat byte mod length backup_alphabet)"

definition backup_code :: "bytes \<Rightarrow> string" where
  "backup_code random8 = (let chars = map backup_char random8
     in take 4 chars @ ''-'' @ drop 4 chars)"

text \<open>\<open>rnd i\<close> are the eight random bytes of the code number \<open>i\<close>.\<close>

definition generateBackupCodes :: "(nat \<Rightarrow> bytes) \<Rightarrow> string list" where
  "generateBackupCodes rnd = map (\<lambda>i. backup_code (rnd i)) [0..<BACKUP_CODES_COUNT]"

definition safeArgonVerify :: "auth_libs \<Rightarrow> string \<Rightarrow> string \<Rightarrow> bool" where
  "safeArgonVerify L storedHash candidate = (case a_verify L storedHash candidate of
     Inl _ \<Rightarrow> False | Inr b \<Rightarrow> b)"

definition isValidTotp :: "auth_libs \<Rightarrow> nat \<Rightarrow> string \<Rightarrow> string \<Rightarrow> bool" where
  "isValidTotp L now secret code = (case otp_verify L now code secret of
     Inl _ \<Rightarrow> False | Inr b \<Rightarrow> b)"

section \<open>The brute-force counter\<close>

definition fail_key :: "string \<Rightarrow> string" where
  "fail_key userId = ''2fa:fail:'' @ userId"

text \<open>
  \<open>Number(\<dots> ?? 0)\<close>; the key is written by INCR only, any other value would read as \<open>NaN\<close>,
  which is not above the threshold.
\<close>

definition failures_of :: "redis_value option \<Rightarrow> nat" where
  "failures_of x = (case x of Some (RInt n) \<Rightarrow> n | _ \<Rightarrow> 0)"

definition assertNotLocked :: "'k redis \<Rightarrow> nat \<Rightarrow> string \<Rightarrow> (('u, 'k) auth_world, unit) proc" where
  "assertNotLocked RD now userId =
     bindP (catchP (onRedis (r_get RD now (fail_key userId)))
                   (\<lambda>_. throwP (ServiceUnavailable RedisDown))) (\<lambda>x.
     if failures_of x \<ge> MAX_FAILED_ATTEMPTS then throwP (TooManyRequests TooManyAttempts)
     else returnP ())"

definition registerFailure :: "'k redis \<Rightarrow> nat \<Rightarrow> string \<Rightarrow> (('u, 'k) auth_world, unit) proc" where
  "registerFailure RD now userId =
     catchP (bindP (onRedis (r_incr RD now (fail_key userId))) (\<lambda>failures.
             if failures = 1
             then bindP (onRedis (r_expire RD now (fail_key userId) FAIL_WINDOW_SECONDS)) (\<lambda>_. returnP ())
             else returnP ()))
            (\<lambda>_. returnP ())"

definition clearFailures :: "'k redis \<Rightarrow> nat \<Rightarrow> string \<Rightarrow> (('u, 'k) auth_world, unit) proc" where
  "clearFailures RD now userId =
     catchP (bindP (onRedis (r_del RD now [fail_key userId])) (\<lambda>_. returnP ())) (\<lambda>_. returnP ())"

section \<open>The operations\<close>

definition status_2fa :: "('u, user) repo \<Rightarrow> string \<Rightarrow> (('u, 'k) auth_world, bool) proc" where
  "status_2fa U userId = bindP (requireUser U userId) (\<lambda>user. returnP (u_twoFactorEnabled user))"

text \<open>\<open>secret\<close> is what \<open>generateSecret\<close> returns; \<open>random32\<close> and \<open>iv\<close> are random bytes.\<close>

definition enroll :: "('u, user) repo \<Rightarrow> auth_libs \<Rightarrow> string \<Rightarrow> bytes \<Rightarrow> bytes \<Rightarrow> string \<Rightarrow>
    (('u, 'k) auth_world, string \<times> string) proc" where
  "enroll U L secret random32 iv userId =
     bindP (requireUser U userId) (\<lambda>user.
     if u_twoFactorEnabled user then throwP (Conflict TwoFactorAlreadyEnabled) else
     bindP (onKey (encryptTwoFactorSecret (lib_gcm L) (env_key L) random32 iv secret)) (\<lambda>sealed.
     bindP (onUsers (repo_save U (user\<lparr>u_twoFactorSecretEncrypted := Some sealed\<rparr>))) (\<lambda>_.
     returnP (secret, otp_keyuri L (u_email user) ''SkillHunt'' secret))))"

definition confirm :: "('u, user) repo \<Rightarrow> auth_libs \<Rightarrow> (nat \<Rightarrow> bytes) \<Rightarrow> (nat \<Rightarrow> bytes) \<Rightarrow> bytes \<Rightarrow> nat \<Rightarrow>
    string \<Rightarrow> string \<Rightarrow> (('u, 'k) auth_world, string list) proc" where
  "confirm U L rnd salt random32 now userId code =
     bindP (requireUser U userId) (\<lambda>user.
     if \<not> truthy_str (u_twoFactorSecretEncrypted user) then throwP (Unauthorized NoPendingEnrolment) else
     bindP (onKey (decryptTwoFactorSecret (lib_gcm L) (env_key L) random32
                     (the (u_twoFactorSecretEncrypted user)))) (\<lambda>secret.
     if \<not> isValidTotp L now secret code then throwP (Unauthorized InvalidVerificationCode) else
     let backupCodes = generateBackupCodes rnd in
     bindP (onUsers (repo_save U (user\<lparr>u_twoFactorEnabled := True,
        u_twoFactorBackupCodesHashed :=
          Some (map (\<lambda>i. a_hash L (salt i) (backupCodes ! i)) [0..<length backupCodes])\<rparr>))) (\<lambda>_.
     returnP backupCodes)))"

text \<open>The loop of \<open>verifyCode\<close> over the hashed codes: the index of the first that matches.\<close>

fun first_match :: "(string \<Rightarrow> bool) \<Rightarrow> nat \<Rightarrow> string list \<Rightarrow> nat option" where
  "first_match P i [] = None"
| "first_match P i (h # hs) = (if P h then Some i else first_match P (Suc i) hs)"

definition remove_index :: "nat \<Rightarrow> 'a list \<Rightarrow> 'a list" where
  "remove_index i xs = take i xs @ drop (Suc i) xs"

text \<open>The end of \<open>verifyCode\<close>, once the secret is decrypted: TOTP, backup codes, failure.\<close>

definition check_code :: "('u, user) repo \<Rightarrow> 'k redis \<Rightarrow> auth_libs \<Rightarrow> nat \<Rightarrow> user \<Rightarrow> string \<Rightarrow> string \<Rightarrow>
    (('u, 'k) auth_world, bool) proc" where
  "check_code U RD L now user secret code =
     (if isValidTotp L now secret code
      then bindP (clearFailures RD now (u_id user)) (\<lambda>_. returnP True)
      else
        let hashed = (case u_twoFactorBackupCodesHashed user of None \<Rightarrow> [] | Some hs \<Rightarrow> hs) in
        case first_match (\<lambda>h. safeArgonVerify L h code) 0 hashed of
          Some i \<Rightarrow>
            bindP (onUsers (repo_save U (user\<lparr>u_twoFactorBackupCodesHashed := Some (remove_index i hashed)\<rparr>))) (\<lambda>_.
            bindP (clearFailures RD now (u_id user)) (\<lambda>_. returnP True))
        | None \<Rightarrow> bindP (registerFailure RD now (u_id user)) (\<lambda>_. returnP False))"

definition verifyCode :: "('u, user) repo \<Rightarrow> 'k redis \<Rightarrow> auth_libs \<Rightarrow> bytes \<Rightarrow> nat \<Rightarrow> string \<Rightarrow> string \<Rightarrow>
    (('u, 'k) auth_world, bool) proc" where
  "verifyCode U RD L random32 now userId code =
     bindP (requireUser U userId) (\<lambda>user.
     if \<not> u_twoFactorEnabled user \<or> \<not> truthy_str (u_twoFactorSecretEncrypted user) then returnP False else
     bindP (assertNotLocked RD now (u_id user)) (\<lambda>_.
     bindP (onKey (decryptTwoFactorSecret (lib_gcm L) (env_key L) random32
                     (the (u_twoFactorSecretEncrypted user)))) (\<lambda>secret.
     check_code U RD L now user secret code)))"

definition disable :: "('u, user) repo \<Rightarrow> 'k redis \<Rightarrow> auth_libs \<Rightarrow> bytes \<Rightarrow> nat \<Rightarrow> string \<Rightarrow> string \<Rightarrow>
    (('u, 'k) auth_world, bool) proc" where
  "disable U RD L random32 now userId code =
     bindP (verifyCode U RD L random32 now userId code) (\<lambda>ok.
     if \<not> ok then throwP (Unauthorized InvalidVerificationCode) else
     bindP (requireUser U userId) (\<lambda>user.
     bindP (onUsers (repo_save U (user\<lparr>u_twoFactorEnabled := False,
        u_twoFactorSecretEncrypted := None, u_twoFactorBackupCodesHashed := None\<rparr>))) (\<lambda>_.
     returnP True)))"

definition regenerateBackupCodes :: "('u, user) repo \<Rightarrow> 'k redis \<Rightarrow> auth_libs \<Rightarrow> (nat \<Rightarrow> bytes) \<Rightarrow>
    (nat \<Rightarrow> bytes) \<Rightarrow> bytes \<Rightarrow> nat \<Rightarrow> string \<Rightarrow> string \<Rightarrow> (('u, 'k) auth_world, string list) proc" where
  "regenerateBackupCodes U RD L rnd salt random32 now userId code =
     bindP (verifyCode U RD L random32 now userId code) (\<lambda>ok.
     if \<not> ok then throwP (Unauthorized InvalidVerificationCode) else
     bindP (requireUser U userId) (\<lambda>user.
     let backupCodes = generateBackupCodes rnd in
     bindP (onUsers (repo_save U (user\<lparr>u_twoFactorBackupCodesHashed :=
          Some (map (\<lambda>i. a_hash L (salt i) (backupCodes ! i)) [0..<length backupCodes])\<rparr>))) (\<lambda>_.
     returnP backupCodes)))"

lemma first_match_None: "first_match P i hs = None \<longleftrightarrow> (\<forall>h \<in> set hs. \<not> P h)"
  by (induction hs arbitrary: i) auto

lemma first_match_Some:
  "first_match P i hs = Some n \<Longrightarrow> i \<le> n \<and> n - i < length hs \<and> P (hs ! (n - i))"
proof (induction hs arbitrary: i)
  case (Cons h hs)
  show ?case
  proof (cases "P h")
    case True
    with Cons.prems show ?thesis by simp
  next
    case False
    with Cons have "Suc i \<le> n \<and> n - Suc i < length hs \<and> P (hs ! (n - Suc i))" by simp
    moreover from this have "n - i = Suc (n - Suc i)" by linarith
    ultimately show ?thesis by simp
  qed
qed simp

lemma remove_first_match:
  assumes "first_match P 0 hs = Some n"
  shows "length (remove_index n hs) = length hs - 1"
    and "length (filter P (remove_index n hs)) = length (filter P hs) - 1"
proof -
  have n: "n < length hs" "P (hs ! n)" using first_match_Some [OF assms] by simp_all
  then have hs: "hs = take n hs @ hs ! n # drop (Suc n) hs" by (simp add: id_take_nth_drop)
  show "length (remove_index n hs) = length hs - 1" using n by (simp add: remove_index_def)
  have "length (filter P hs) = Suc (length (filter P (remove_index n hs)))"
    by (subst hs) (simp add: remove_index_def n)
  then show "length (filter P (remove_index n hs)) = length (filter P hs) - 1" by simp
qed

section \<open>The code format of the DTOs\<close>

definition is_digit :: "char \<Rightarrow> bool" where
  "is_digit c \<longleftrightarrow> CHR ''0'' \<le> c \<and> c \<le> CHR ''9''"

text \<open>\<open>[A-Z2-9]\<close> under the flag \<open>i\<close>.\<close>

definition is_backup_char :: "char \<Rightarrow> bool" where
  "is_backup_char c \<longleftrightarrow> (CHR ''A'' \<le> c \<and> c \<le> CHR ''Z'') \<or> (CHR ''a'' \<le> c \<and> c \<le> CHR ''z'') \<or>
     (CHR ''2'' \<le> c \<and> c \<le> CHR ''9'')"

definition CODE_PATTERN :: "string \<Rightarrow> bool" where
  "CODE_PATTERN s \<longleftrightarrow> (length s = 6 \<and> list_all is_digit s) \<or>
     (length s = 9 \<and> list_all is_backup_char (take 4 s) \<and> s ! 4 = CHR ''-'' \<and>
      list_all is_backup_char (drop 5 s))"

text \<open>The global validation pipe on \<open>TwoFactorCodeDto\<close> and \<open>VerifyTwoFactorDto\<close>.\<close>

definition validate_TwoFactorCodeDto :: "string \<Rightarrow> exn + string" where
  "validate_TwoFactorCodeDto code = (if CODE_PATTERN code then Inr code else Inl (BadRequest ValidationFailed))"

definition validate_VerifyTwoFactorDto :: "string \<Rightarrow> string \<Rightarrow> exn + (string \<times> string)" where
  "validate_VerifyTwoFactorDto twoFactorToken code =
     (if twoFactorToken \<noteq> [] \<and> CODE_PATTERN code then Inr (twoFactorToken, code)
      else Inl (BadRequest ValidationFailed))"

section \<open>The accounts: users table and counting Redis\<close>

locale account_store = U: repository U tbl u_id + RD: redis_server RD view
  for U :: "('u, user) repo" and tbl :: "'u \<Rightarrow> string \<rightharpoonup> user"
    and RD :: "'k redis" and view :: "'k \<Rightarrow> redis_view"
begin

lemma requireUser_Inr:
  assumes "requireUser U i w = (Inr u, w')"
  shows "tbl (w_users w) i = Some u \<and> u_id u = i \<and> tbl (w_users w') = tbl (w_users w) \<and> w_redis w' = w_redis w \<and> w_key w' = w_key w"
proof -
  obtain x where f: "repo_findOne U (\<lambda>u. u_id u = i) (w_users w) = (Inr (Some u), x)"
    and w': "w' = w\<lparr>w_users := x\<rparr>"
    using assms by (auto simp: requireUser_def proc_iff split: option.splits)
  show ?thesis
    using U.findOne_by_key [OF f] U.findOne_frame [OF f] U.findOne_Some [OF f] w' by simp
qed

lemma requireUser_Inl:
  assumes "requireUser U i w = (Inl e, w')"
  shows "tbl (w_users w') = tbl (w_users w) \<and> w_redis w' = w_redis w \<and> w_key w' = w_key w \<and>
    (e = LibraryError \<or> e = NotFound UserNotFound \<and> tbl (w_users w) i = None)"
proof -
  obtain r x where f: "repo_findOne U (\<lambda>u. u_id u = i) (w_users w) = (r, x)"
    and w': "w' = w\<lparr>w_users := x\<rparr>" and r: "r = Inl e \<or> (r = Inr None \<and> e = NotFound UserNotFound)"
    using assms by (auto simp: requireUser_def proc_iff split: option.splits)
  have "e = LibraryError \<or> e = NotFound UserNotFound \<and> tbl (w_users w) i = None"
    using r
  proof
    assume "r = Inl e" then show ?thesis using U.findOne_error f by blast
  next
    assume "r = Inr None \<and> e = NotFound UserNotFound"
    then show ?thesis using U.findOne_by_key [of i "w_users w" None x] f by simp
  qed
  with U.findOne_frame [OF f] w' show ?thesis by simp
qed

lemma assertNotLocked_Inr:
  assumes "assertNotLocked RD now i w = (Inr x, w')"
  shows "failures_of (live now (view (w_redis w)) (fail_key i)) < MAX_FAILED_ATTEMPTS \<and> tbl (w_users w') = tbl (w_users w) \<and> view (w_redis w') = view (w_redis w)"
proof -
  obtain v y where g: "r_get RD now (fail_key i) (w_redis w) = (Inr v, y)" and w': "w' = w\<lparr>w_redis := y\<rparr>"
    and v: "failures_of v < MAX_FAILED_ATTEMPTS"
    using assms by (auto simp: assertNotLocked_def proc_iff split: if_splits)
  show ?thesis using RD.get_ok [OF g] RD.get_frame [OF g] v w' by simp
qed

lemma assertNotLocked_Inl:
  assumes "assertNotLocked RD now i w = (Inl e, w')"
  shows "tbl (w_users w') = tbl (w_users w) \<and> view (w_redis w') = view (w_redis w) \<and>
    (e = ServiceUnavailable RedisDown \<or>
     e = TooManyRequests TooManyAttempts \<and> MAX_FAILED_ATTEMPTS \<le> failures_of (live now (view (w_redis w)) (fail_key i)))"
proof -
  obtain v y where g: "r_get RD now (fail_key i) (w_redis w) = (v, y)" and w': "w' = w\<lparr>w_redis := y\<rparr>"
    and e: "(\<exists>d. v = Inl d) \<and> e = ServiceUnavailable RedisDown \<or>
       (\<exists>z. v = Inr z \<and> MAX_FAILED_ATTEMPTS \<le> failures_of z) \<and> e = TooManyRequests TooManyAttempts"
    using assms by (auto simp: assertNotLocked_def proc_iff split: if_splits)
  show ?thesis using e RD.get_ok [of now "fail_key i" "w_redis w" _ y] RD.get_frame [OF g] g w'
    by auto
qed

lemma clearFailures_result:
  assumes "clearFailures RD now i w = (r, w')"
  shows "r = Inr ()" "tbl (w_users w') = tbl (w_users w)" "may_apply now (DEL [fail_key i]) (view (w_redis w)) (view (w_redis w'))"
proof -
  obtain v y where d: "r_del RD now [fail_key i] (w_redis w) = (v, y)" and w': "w' = w\<lparr>w_redis := y\<rparr>"
    and r: "r = Inr ()"
    using assms by (cases r) (auto simp: clearFailures_def proc_iff)
  show "r = Inr ()" "tbl (w_users w') = tbl (w_users w)" using r w' by simp_all
  show "may_apply now (DEL [fail_key i]) (view (w_redis w)) (view (w_redis w'))"
    using d w' RD.del_ok [of now "[fail_key i]"] RD.del_fail [of now "[fail_key i]"]
    by (cases v) (auto simp: may_apply_def simp del: apply_command.simps)
qed

lemma registerFailure_result:
  assumes "registerFailure RD now i w = (r, w')"
  shows "r = Inr ()" "w_users w' = w_users w"
proof -
  show "r = Inr ()"
    using assms by (cases r) (simp_all only: registerFailure_def catchP_Inl_iff returnP_iff, simp_all)
  have "keeps (\<lambda>v. w_users v = w_users w) (registerFailure RD now i)"
    unfolding registerFailure_def by (intro keeps_intro) simp_all
  then show "w_users w' = w_users w" using assms by (rule keepsD) simp
qed

lemma assertNotLocked_key: "assertNotLocked RD now i w = (r, w') \<Longrightarrow> w_key w' = w_key w"
proof -
  assume run: "assertNotLocked RD now i w = (r, w')"
  have "keeps (\<lambda>v. w_key v = w_key w) (assertNotLocked RD now i)"
    unfolding assertNotLocked_def by (intro keeps_intro) simp_all
  then show ?thesis using run by (rule keepsD) simp
qed

lemma onKey_frame: "onKey m w = (r, w') \<Longrightarrow> tbl (w_users w') = tbl (w_users w) \<and> view (w_redis w') = view (w_redis w) \<and> w_redis w' = w_redis w \<and> w_users w' = w_users w"
  by (auto simp: proc_iff)

text \<open>The ways \<open>check_code\<close> ends: TOTP code, backup code, wrong code, or a failed save.\<close>

lemma check_code_run:
  assumes run: "check_code U RD L now u secret code w = (r, w')"
  obtains (error) "r = Inl LibraryError" "tbl (w_users w') = tbl (w_users w)" "view (w_redis w') = view (w_redis w)"
  | (totp) "r = Inr True" "tbl (w_users w') = tbl (w_users w)" "isValidTotp L now secret code"
  | (backup) hs n where "r = Inr True" "u_twoFactorBackupCodesHashed u = Some hs"
      "first_match (\<lambda>h. safeArgonVerify L h code) 0 hs = Some n" "\<not> isValidTotp L now secret code"
      "tbl (w_users w') = (tbl (w_users w))(u_id u \<mapsto> u\<lparr>u_twoFactorBackupCodesHashed := Some (remove_index n hs)\<rparr>)"
  | (wrong) "r = Inr False" "tbl (w_users w') = tbl (w_users w)" "\<not> isValidTotp L now secret code"
      "first_match (\<lambda>h. safeArgonVerify L h code) 0 (case u_twoFactorBackupCodesHashed u of None \<Rightarrow> [] | Some hs \<Rightarrow> hs) = None"
      "registerFailure RD now (u_id u) w = (Inr (), w')"
proof -
  let ?hs = "case u_twoFactorBackupCodesHashed u of None \<Rightarrow> [] | Some hs \<Rightarrow> hs"
  consider "isValidTotp L now secret code"
    | "\<not> isValidTotp L now secret code" "first_match (\<lambda>h. safeArgonVerify L h code) 0 ?hs = None"
    | n where "\<not> isValidTotp L now secret code" "first_match (\<lambda>h. safeArgonVerify L h code) 0 ?hs = Some n"
    by fastforce
  then show thesis
  proof cases
    case 1
    obtain q w1 where q: "clearFailures RD now (u_id u) w = (q, w1)" by fastforce
    with clearFailures_result [OF q] 1 run show thesis
      by (intro totp) (simp_all add: check_code_def bindP_def returnP_def)
  next
    case 2
    obtain q w1 where q: "registerFailure RD now (u_id u) w = (q, w1)" by fastforce
    with registerFailure_result [OF q] 2 run show thesis
      by (intro wrong) (simp_all add: check_code_def bindP_def returnP_def Let_def)
  next
    case (3 n)
    then obtain hs where hs: "u_twoFactorBackupCodesHashed u = Some hs"
      by (cases "u_twoFactorBackupCodesHashed u") simp_all
    let ?u = "u\<lparr>u_twoFactorBackupCodesHashed := Some (remove_index n hs)\<rparr>"
    obtain q y where q: "repo_save U ?u (w_users w) = (q, y)" by fastforce
    then have q': "onUsers (repo_save U ?u) w = (q, w\<lparr>w_users := y\<rparr>)" by (simp add: onUsers_iff)
    show thesis
    proof (cases q)
      case (Inl e)
      with q q' 3 hs run show thesis
        by (intro error) (auto simp: check_code_def bindP_def Let_def dest: U.save_error U.save_frame)
    next
      case (Inr z)
      obtain q2 w2 where q2: "clearFailures RD now (u_id u) (w\<lparr>w_users := y\<rparr>) = (q2, w2)" by fastforce
      have row: "tbl (w_users w2) = (tbl (w_users w))(u_id u \<mapsto> ?u)"
        using clearFailures_result [OF q2] U.save_row [OF q [unfolded Inr]] by simp
      from Inr q' 3 hs run q2 clearFailures_result [OF q2] have "r = Inr True" "w' = w2"
        by (simp_all add: check_code_def bindP_def returnP_def Let_def)
      with row 3 hs show thesis by (intro backup) simp_all
    qed
  qed
qed

text \<open>How a verification gets to \<open>check_code\<close>, for an account with 2FA.\<close>

lemma verifyCode_start:
  assumes row: "tbl (w_users w) i = Some u" "u_twoFactorEnabled u" "u_twoFactorSecretEncrypted u = Some c" "c \<noteq> []"
    and run: "verifyCode U RD L r32 now i code w = (r, w')"
  obtains (error) e where "r = Inl e" "tbl (w_users w') = tbl (w_users w)"
      "view (w_redis w') = view (w_redis w)"
      "e = LibraryError \<or> e = ServiceUnavailable RedisDown \<or>
       e = TooManyRequests TooManyAttempts \<and> MAX_FAILED_ATTEMPTS \<le> failures_of (live now (view (w_redis w)) (fail_key i))"
  | (checked) secret key w1 where "tbl (w_users w1) = tbl (w_users w)" "view (w_redis w1) = view (w_redis w)"
      "decryptTwoFactorSecret (lib_gcm L) (env_key L) r32 c (w_key w) = (Inr secret, key)"
      "failures_of (live now (view (w_redis w)) (fail_key i)) < MAX_FAILED_ATTEMPTS"
      "check_code U RD L now u secret code w1 = (r, w')"
proof -
  have id: "u_id u = i" by (rule U.tbl_key [OF row(1)])
  obtain r1 w1 where q1: "requireUser U i w = (r1, w1)" by fastforce
  show thesis
  proof (cases r1)
    case (Inl e)
    with run q1 requireUser_Inl [OF q1 [unfolded Inl]] row(1) show thesis
      by (intro error [of e]) (auto simp: verifyCode_def bindP_def)
  next
    case r1: (Inr u1)
    have f1: "u1 = u" "tbl (w_users w1) = tbl (w_users w)" "w_redis w1 = w_redis w" "w_key w1 = w_key w"
      using requireUser_Inr [OF q1 [unfolded r1]] row(1) by auto
    obtain r2 w2 where q2: "assertNotLocked RD now i w1 = (r2, w2)" by fastforce
    show thesis
    proof (cases r2)
      case (Inl e)
      with run q1 r1 f1 q2 row id assertNotLocked_Inl [OF q2 [unfolded Inl]] show thesis
        by (intro error [of e]) (auto simp: verifyCode_def bindP_def truthy_str_def)
    next
      case r2: (Inr x)
      note f2 = assertNotLocked_Inr [OF q2 [unfolded r2]] assertNotLocked_key [OF q2]
      obtain r3 w3 where q3: "onKey (decryptTwoFactorSecret (lib_gcm L) (env_key L) r32 c) w2 = (r3, w3)"
        by fastforce
      obtain key where dec: "decryptTwoFactorSecret (lib_gcm L) (env_key L) r32 c (w_key w) = (r3, key)"
        using q3 f1 f2 by (auto simp: onKey_iff)
      note parts = run q1 r1 f1 q2 r2 q3 row id f2 onKey_frame [OF q3]
      show thesis
      proof (cases r3)
        case (Inl e)
        with parts decryptTwoFactorSecret_error dec show thesis
          by (intro error [of e]) (auto simp: verifyCode_def bindP_def truthy_str_def)
      next
        case (Inr secret)
        have "check_code U RD L now u secret code w3 = (r, w')"
          using parts Inr by (simp add: verifyCode_def bindP_def truthy_str_def)
        with parts dec Inr show thesis by (intro checked [of w3 secret key]) simp_all
      qed
    qed
  qed
qed

text \<open>
  The four ways a verification ends for an account with 2FA: an error, which leaves users and
  Redis as they were; a TOTP code; a backup code; a wrong code. Every property below is read off
  this rule.
\<close>

lemma verifyCode_run:
  assumes row: "tbl (w_users w) i = Some u" "u_twoFactorEnabled u" "u_twoFactorSecretEncrypted u = Some c" "c \<noteq> []"
    and run: "verifyCode U RD L r32 now i code w = (r, w')"
  obtains (error) e where "r = Inl e" "tbl (w_users w') = tbl (w_users w)"
      "view (w_redis w') = view (w_redis w)"
      "e = LibraryError \<or> e = ServiceUnavailable RedisDown \<or>
       e = TooManyRequests TooManyAttempts \<and> MAX_FAILED_ATTEMPTS \<le> failures_of (live now (view (w_redis w)) (fail_key i))"
  | (totp) secret key where "r = Inr True" "tbl (w_users w') = tbl (w_users w)"
      "decryptTwoFactorSecret (lib_gcm L) (env_key L) r32 c (w_key w) = (Inr secret, key)"
      "isValidTotp L now secret code"
      "failures_of (live now (view (w_redis w)) (fail_key i)) < MAX_FAILED_ATTEMPTS"
  | (backup) secret key hs n where "r = Inr True" "u_twoFactorBackupCodesHashed u = Some hs"
      "first_match (\<lambda>h. safeArgonVerify L h code) 0 hs = Some n"
      "tbl (w_users w') = (tbl (w_users w))(i \<mapsto> u\<lparr>u_twoFactorBackupCodesHashed := Some (remove_index n hs)\<rparr>)"
      "decryptTwoFactorSecret (lib_gcm L) (env_key L) r32 c (w_key w) = (Inr secret, key)"
      "\<not> isValidTotp L now secret code"
      "failures_of (live now (view (w_redis w)) (fail_key i)) < MAX_FAILED_ATTEMPTS"
  | (wrong) secret key w1 where "r = Inr False" "tbl (w_users w') = tbl (w_users w)"
      "decryptTwoFactorSecret (lib_gcm L) (env_key L) r32 c (w_key w) = (Inr secret, key)"
      "\<not> isValidTotp L now secret code"
      "first_match (\<lambda>h. safeArgonVerify L h code) 0 (case u_twoFactorBackupCodesHashed u of None \<Rightarrow> [] | Some hs \<Rightarrow> hs) = None"
      "failures_of (live now (view (w_redis w)) (fail_key i)) < MAX_FAILED_ATTEMPTS"
      "registerFailure RD now i w1 = (Inr (), w')" "view (w_redis w1) = view (w_redis w)"
proof -
  have id: "u_id u = i" by (rule U.tbl_key [OF row(1)])
  show thesis
    using row run
  proof (cases rule: verifyCode_start)
    case (error e)
    then show thesis by (rule that(1))
  next
    case (checked secret key w1)
    from checked(5) show thesis
    proof (cases rule: check_code_run)
      case error
      with checked show thesis by (intro that(1) [of LibraryError]) simp_all
    next
      case totp
      with checked show thesis by (intro that(2)) simp_all
    next
      case (backup hs n)
      with checked id show thesis by (intro that(3)) simp_all
    next
      case wrong
      with checked id show thesis by (intro that(4) [of secret key w1]) simp_all
    qed
  qed
qed

end

interpretation mem_accounts: account_store users_table "mem_tbl u_id" mem_redis "\<lambda>v. v" ..

section \<open>The brute-force bound\<close>

text \<open>Successive verifications of one account, each with its random bytes, second and code.\<close>

fun attempts :: "('u, user) repo \<Rightarrow> 'k redis \<Rightarrow> auth_libs \<Rightarrow> string \<Rightarrow> (bytes \<times> nat \<times> string) list \<Rightarrow>
    ('u, 'k) auth_world \<Rightarrow> (exn + bool) list \<times> ('u, 'k) auth_world" where
  "attempts U RD L i [] w = ([], w)"
| "attempts U RD L i ((r32, now, code) # as) w =
     (case verifyCode U RD L r32 now i code w of (r, w1) \<Rightarrow>
      case attempts U RD L i as w1 of (rs, w2) \<Rightarrow> (r # rs, w2))"

text \<open>The counter shows \<open>n\<close> at every second of the window.\<close>

definition counter_is :: "nat \<Rightarrow> nat \<Rightarrow> nat \<Rightarrow> redis_view \<Rightarrow> string \<Rightarrow> bool" where
  "counter_is t e n v i \<longleftrightarrow> (\<forall>t'. t \<le> t' \<longrightarrow> t' < e \<longrightarrow>
     live t' v (fail_key i) = (if n = 0 then None else Some (RInt n)))"

lemma counter_is_failures: "counter_is t e n v i \<Longrightarrow> t \<le> now \<Longrightarrow> now < e \<Longrightarrow>
    failures_of (live now v (fail_key i)) = n"
  by (simp add: counter_is_def failures_of_def)

lemma counter_is_later: "counter_is t e n v i \<Longrightarrow> t \<le> t' \<Longrightarrow> counter_is t' e n v i"
  by (auto simp: counter_is_def)

lemma live_int_expiry:
  "live t v k = Some x \<Longrightarrow> \<exists>d. v k = Some (x, d) \<and> (\<forall>e. d = Some e \<longrightarrow> t < e)"
  by (auto simp: live_def split: option.splits if_splits)

lemma counter_incr:
  assumes c: "counter_is now e n v i" and w: "now < e"
  shows "counter_is now e (Suc n) (apply_command now (INCR (fail_key i)) v) i"
proof (cases n)
  case 0
  with c w have "live now v (fail_key i) = None" by (simp add: counter_is_def)
  with 0 show ?thesis by (simp add: counter_is_def live_upd)
next
  case (Suc m)
  have "live now v (fail_key i) = Some (RInt n)" using c w Suc by (simp add: counter_is_def)
  then obtain d where d: "v (fail_key i) = Some (RInt n, d)" "live now v (fail_key i) = Some (RInt n)"
    using live_int_expiry by blast
  have "\<forall>t'. now \<le> t' \<longrightarrow> t' < e \<longrightarrow> (\<forall>b. d = Some b \<longrightarrow> t' < b)"
    using c d(1) Suc by (auto simp: counter_is_def live_def split: if_splits)
  then show ?thesis
    using d by (auto simp: counter_is_def live_upd ttl_of_def split: option.splits)
qed

lemma counter_expire:
  assumes "counter_is now e (Suc n) v i" "now < e" "e \<le> now + ttl"
  shows "counter_is now e (Suc n) (apply_command now (EXPIRE (fail_key i) ttl) v) i"
  using assms by (simp add: counter_is_def live_upd)

locale counting_accounts = account_store U tbl RD view + RD: counting_redis RD view
  for U :: "('u, user) repo" and tbl :: "'u \<Rightarrow> string \<rightharpoonup> user"
    and RD :: "'k redis" and view :: "'k \<Rightarrow> redis_view"
begin

lemma registerFailure_counts:
  assumes c: "counter_is now e n (view (w_redis w)) i" and t: "now < e" "e \<le> now + FAIL_WINDOW_SECONDS"
    and run: "registerFailure RD now i w = (r, w')"
  shows "counter_is now e (Suc n) (view (w_redis w')) i"
proof -
  have "live now (view (w_redis w)) (fail_key i) = (if n = 0 then None else Some (RInt n))"
    using c t by (simp add: counter_is_def)
  then obtain k y where k: "r_incr RD now (fail_key i) (w_redis w) = (Inr k, y)"
    using RD.incr_counts [of now "w_redis w" "fail_key i"] by (auto split: if_splits)
  obtain b z where b: "r_expire RD now (fail_key i) FAIL_WINDOW_SECONDS y = (Inr b, z)"
    using RD.expire_counts by blast
  have c1: "counter_is now e (Suc n) (view y) i"
    using counter_incr [OF c t(1)] RD.incr_ok [OF k] by simp
  then have c2: "counter_is now e (Suc n) (view z) i"
    using counter_expire t RD.expire_ok [OF b] by simp
  have "w' = w\<lparr>w_redis := (if k = 1 then z else y)\<rparr>"
    using run k b by (simp add: registerFailure_def bindP_def catchP_def onRedis_def liftP_def returnP_def
        split: if_splits)
  then show ?thesis using c1 c2 by simp
qed

lemma attempts_bounded:
  assumes row: "tbl (w_users w) i = Some u" "u_twoFactorEnabled u" "u_twoFactorSecretEncrypted u = Some c" "c \<noteq> []"
    and win: "sorted (map (fst \<circ> snd) as)" "\<forall>a \<in> set as. t \<le> fst (snd a) \<and> fst (snd a) < e" "e \<le> t + FAIL_WINDOW_SECONDS"
    and cnt: "counter_is t e n (view (w_redis w)) i" "n \<le> MAX_FAILED_ATTEMPTS"
    and run: "attempts U RD L i as w = (rs, w')" and none: "Inr True \<notin> set rs"
  shows "n + length (filter (\<lambda>r. r = Inr False) rs) \<le> MAX_FAILED_ATTEMPTS"
  using assms
proof (induction as arbitrary: w n rs t)
  case Nil
  then show ?case by simp
next
  case (Cons a as)
  obtain r32 now code where a: "a = (r32, now, code)" by (cases a) auto
  obtain r w1 where v: "verifyCode U RD L r32 now i code w = (r, w1)" by fastforce
  obtain rs' where rs: "rs = r # rs'" and as: "attempts U RD L i as w1 = (rs', w')"
    using Cons.prems(10) v unfolding a by (cases "attempts U RD L i as w1") auto
  have now: "t \<le> now" "now < e" using Cons.prems(6) a by simp_all
  have later: "sorted (map (fst \<circ> snd) as)" "\<forall>b \<in> set as. now \<le> fst (snd b) \<and> fst (snd b) < e"
      "e \<le> now + FAIL_WINDOW_SECONDS"
    using Cons.prems(5-7) a now by (auto simp: comp_def)
  have cn: "counter_is now e n (view (w_redis w)) i" using Cons.prems(8) now by (blast intro: counter_is_later)
  note fin = Cons.IH [OF _ Cons.prems(2-4) later _ _ as]
  from Cons.prems(1-4) v show ?case
  proof (cases rule: verifyCode_run)
    case (error d)
    with fin [of n] Cons.prems(1,9,11) cn rs show ?thesis by simp
  next
    case (totp s k)
    with Cons.prems(11) rs show ?thesis by simp
  next
    case (backup s k hs m)
    with Cons.prems(11) rs show ?thesis by simp
  next
    case (wrong s k w0)
    have "n < MAX_FAILED_ATTEMPTS" using wrong(6) counter_is_failures [OF cn] now by simp
    moreover have "counter_is now e (Suc n) (view (w_redis w1)) i"
      using registerFailure_counts [OF _ now(2) later(3) wrong(7)] cn wrong(8) by simp
    ultimately show ?thesis using fin [of "Suc n"] wrong(1,2) Cons.prems(1,11) rs by simp
  qed
qed

end

interpretation mem_accounts: counting_accounts users_table "mem_tbl u_id" mem_redis "\<lambda>v. v" ..

section \<open>Enrolment, confirmation, removal\<close>

lemma seal_not_Nil: "seal iv ct tag \<noteq> []"
  by (simp add: seal_def)

lemma requireUser_keeps_redis: "keeps (\<lambda>v. w_redis v = x) (requireUser U i)"
  unfolding requireUser_def by (intro keeps_intro keeps_onUsers) simp_all

lemma confirm_keeps_redis: "keeps (\<lambda>v. w_redis v = x) (confirm U L rnd salt r32 now i code)"
  unfolding confirm_def Let_def
  by (intro keeps_intro keeps_onUsers requireUser_keeps_redis) simp_all

context account_store
begin

lemma enroll_Inr:
  assumes run: "enroll U L secret r32 iv i w = (Inr (s, url), w')"
  obtains u sealed where "tbl (w_users w) i = Some u" "\<not> u_twoFactorEnabled u" "s = secret"
    "tbl (w_users w') = (tbl (w_users w))(i \<mapsto> u\<lparr>u_twoFactorSecretEncrypted := Some sealed\<rparr>)"
    "encryptTwoFactorSecret (lib_gcm L) (env_key L) r32 iv secret (w_key w) = (Inr sealed, w_key w')"
    "w_redis w' = w_redis w"
proof -
  obtain u w1 where q1: "requireUser U i w = (Inr u, w1)" and e: "\<not> u_twoFactorEnabled u"
    and rest: "bindP (onKey (encryptTwoFactorSecret (lib_gcm L) (env_key L) r32 iv secret)) (\<lambda>sealed.
       bindP (onUsers (repo_save U (u\<lparr>u_twoFactorSecretEncrypted := Some sealed\<rparr>))) (\<lambda>_.
       returnP (secret, otp_keyuri L (u_email u) ''SkillHunt'' secret))) w1 = (Inr (s, url), w')"
    using run unfolding enroll_def bindP_Inr_iff [of "requireUser U i"] by (auto split: if_splits)
  obtain sealed k where enc: "encryptTwoFactorSecret (lib_gcm L) (env_key L) r32 iv secret (w_key w1) = (Inr sealed, k)"
    and "bindP (onUsers (repo_save U (u\<lparr>u_twoFactorSecretEncrypted := Some sealed\<rparr>))) (\<lambda>_.
       returnP (secret, otp_keyuri L (u_email u) ''SkillHunt'' secret)) (w1\<lparr>w_key := k\<rparr>) = (Inr (s, url), w')"
    using rest unfolding bindP_Inr_iff onKey_iff by blast
  then obtain u' y where sv: "repo_save U (u\<lparr>u_twoFactorSecretEncrypted := Some sealed\<rparr>) (w_users w1) = (Inr u', y)"
    and w': "w' = w1\<lparr>w_key := k, w_users := y\<rparr>" and s: "s = secret"
    by (auto simp: bindP_Inr_iff onUsers_iff)
  show thesis
    using requireUser_Inr [OF q1] e s enc w' U.save_row [OF sv]
    by (intro that [of u sealed]) simp_all
qed

lemma confirm_Inr:
  assumes run: "confirm U L rnd salt r32 now i code w = (Inr codes, w')"
  obtains u c secret k where "tbl (w_users w) i = Some u" "u_twoFactorSecretEncrypted u = Some c" "c \<noteq> []"
    "decryptTwoFactorSecret (lib_gcm L) (env_key L) r32 c (w_key w) = (Inr secret, k)"
    "isValidTotp L now secret code" "codes = generateBackupCodes rnd"
    "tbl (w_users w') = (tbl (w_users w))(i \<mapsto> u\<lparr>u_twoFactorEnabled := True, u_twoFactorBackupCodesHashed :=
          Some (map (\<lambda>i. a_hash L (salt i) (codes ! i)) [0..<length codes])\<rparr>)"
    "w_redis w' = w_redis w"
proof -
  obtain u w1 where q1: "requireUser U i w = (Inr u, w1)"
    and c: "truthy_str (u_twoFactorSecretEncrypted u)"
    and rest: "bindP (onKey (decryptTwoFactorSecret (lib_gcm L) (env_key L) r32 (the (u_twoFactorSecretEncrypted u))))
       (\<lambda>secret. if \<not> isValidTotp L now secret code then throwP (Unauthorized InvalidVerificationCode)
        else let backupCodes = generateBackupCodes rnd in
          bindP (onUsers (repo_save U (u\<lparr>u_twoFactorEnabled := True, u_twoFactorBackupCodesHashed :=
            Some (map (\<lambda>i. a_hash L (salt i) (backupCodes ! i)) [0..<length backupCodes])\<rparr>)))
          (\<lambda>_. returnP backupCodes)) w1 = (Inr codes, w')"
    using run unfolding confirm_def bindP_Inr_iff [of "requireUser U i"] by (auto split: if_splits)
  obtain c' where c': "u_twoFactorSecretEncrypted u = Some c'" "c' \<noteq> []" using c by (auto simp: truthy_str_iff)
  obtain secret k where dec: "decryptTwoFactorSecret (lib_gcm L) (env_key L) r32 c' (w_key w1) = (Inr secret, k)"
    and ok: "isValidTotp L now secret code"
    and "bindP (onUsers (repo_save U (u\<lparr>u_twoFactorEnabled := True, u_twoFactorBackupCodesHashed :=
            Some (map (\<lambda>i. a_hash L (salt i) (generateBackupCodes rnd ! i)) [0..<length (generateBackupCodes rnd)])\<rparr>)))
          (\<lambda>_. returnP (generateBackupCodes rnd)) (w1\<lparr>w_key := k\<rparr>) = (Inr codes, w')"
    using rest unfolding bindP_Inr_iff [of "onKey m" for m] onKey_iff c'(1) Let_def by (auto split: if_splits)
  then obtain u' y where sv: "repo_save U (u\<lparr>u_twoFactorEnabled := True, u_twoFactorBackupCodesHashed :=
            Some (map (\<lambda>i. a_hash L (salt i) (codes ! i)) [0..<length codes])\<rparr>) (w_users w1) = (Inr u', y)"
    and w': "w' = w1\<lparr>w_key := k, w_users := y\<rparr>" and s: "codes = generateBackupCodes rnd"
    by (auto simp: bindP_Inr_iff onUsers_iff)
  show thesis
    using requireUser_Inr [OF q1] c' dec ok s w' U.save_row [OF sv]
    by (intro that [of u c' secret k]) simp_all
qed

end

lemma backup_alphabet_chars: "c \<in> set backup_alphabet \<Longrightarrow> is_backup_char c"
  by (auto simp: backup_alphabet_def is_backup_char_def)

lemma backup_char_in: "backup_char b \<in> set backup_alphabet"
  unfolding backup_char_def by (rule nth_mem) (simp add: backup_alphabet_def)

lemma backup_code_pattern: "length r = 8 \<Longrightarrow> CODE_PATTERN (backup_code r)"
  by (auto simp: CODE_PATTERN_def backup_code_def Let_def nth_append list_all_iff
      dest!: in_set_takeD in_set_dropD intro!: backup_alphabet_chars backup_char_in)

text \<open>Procedures that neither read nor write Redis: the result is the same on any Redis state.\<close>

definition redis_free :: "(('u, 'k) auth_world, 'a) proc \<Rightarrow> bool" where
  "redis_free m \<longleftrightarrow> (\<forall>w x. m (w\<lparr>w_redis := x\<rparr>) = (fst (m w), snd (m w)\<lparr>w_redis := x\<rparr>))"

lemma redis_free_returnP [keeps_intro]: "redis_free (returnP y)"
  by (simp add: redis_free_def returnP_def)

lemma redis_free_throwP [keeps_intro]: "redis_free (throwP e)"
  by (simp add: redis_free_def throwP_def)

lemma redis_free_bindP [keeps_intro]:
  assumes m: "redis_free m" and f: "\<And>y. redis_free (f y)"
  shows "redis_free (bindP m f)"
  unfolding redis_free_def
proof (intro allI)
  fix w x
  obtain q w1 where q: "m w = (q, w1)" by fastforce
  then have "m (w\<lparr>w_redis := x\<rparr>) = (q, w1\<lparr>w_redis := x\<rparr>)" using m by (simp add: redis_free_def)
  with q show "bindP m f (w\<lparr>w_redis := x\<rparr>) = (fst (bindP m f w), snd (bindP m f w)\<lparr>w_redis := x\<rparr>)"
    using f by (cases q) (simp_all add: bindP_def redis_free_def)
qed

lemma redis_free_onUsers [keeps_intro]: "redis_free (onUsers m)"
  by (simp add: redis_free_def onUsers_def liftP_def split: prod.splits)

lemma redis_free_onKey [keeps_intro]: "redis_free (onKey m)"
  by (simp add: redis_free_def onKey_def liftP_def split: prod.splits)

lemma redis_free_if [keeps_intro]: "redis_free m \<Longrightarrow> redis_free m' \<Longrightarrow> redis_free (if b then m else m')"
  by simp

lemma redis_free_option [keeps_intro]:
  "redis_free m \<Longrightarrow> (\<And>y. redis_free (f y)) \<Longrightarrow> redis_free (case x of None \<Rightarrow> m | Some y \<Rightarrow> f y)"
  by (cases x) simp_all

lemma confirm_redis_free: "redis_free (confirm U L rnd salt r32 now i code)"
  unfolding confirm_def requireUser_def Let_def by (intro keeps_intro)

context account_store
begin

lemma verifyCode_off:
  assumes row: "tbl (w_users w) i = Some u" "\<not> u_twoFactorEnabled u \<or> \<not> truthy_str (u_twoFactorSecretEncrypted u)"
    and run: "verifyCode U RD L r32 now i code w = (r, w')"
  shows "r = Inr False \<or> r = Inl LibraryError"
proof -
  obtain q w1 where q: "requireUser U i w = (q, w1)" by fastforce
  show ?thesis
  proof (cases q)
    case (Inl e)
    with q run requireUser_Inl [OF q [unfolded Inl]] row show ?thesis by (simp add: verifyCode_def bindP_def)
  next
    case (Inr v)
    with q run requireUser_Inr [OF q [unfolded Inr]] row show ?thesis
      by (auto simp: verifyCode_def bindP_def returnP_def)
  qed
qed

text \<open>A verification that succeeds changes at most the backup codes of the account.\<close>

lemma verifyCode_True:
  assumes row: "tbl (w_users w) i = Some u" and run: "verifyCode U RD L r32 now i code w = (Inr True, w')"
  obtains bc where "u_twoFactorEnabled u" "truthy_str (u_twoFactorSecretEncrypted u)"
    "tbl (w_users w') = (tbl (w_users w))(i \<mapsto> u\<lparr>u_twoFactorBackupCodesHashed := bc\<rparr>)"
proof -
  have on: "u_twoFactorEnabled u" "truthy_str (u_twoFactorSecretEncrypted u)"
    using verifyCode_off [OF row _ run] by auto
  then obtain c where c: "u_twoFactorSecretEncrypted u = Some c" "c \<noteq> []" by (auto simp: truthy_str_iff)
  from row on(1) c run show thesis
  proof (cases rule: verifyCode_run)
    case (totp s k)
    with row on show thesis by (intro that [of "u_twoFactorBackupCodesHashed u"]) (simp_all add: fun_upd_idem)
  next
    case (backup s k hs n)
    with on show thesis by (intro that [of "Some (remove_index n hs)"]) simp_all
  qed simp_all
qed

lemma disable_Inr:
  assumes row: "tbl (w_users w) i = Some u" and run: "disable U RD L r32 now i code w = (Inr ok, w')"
  shows "u_twoFactorEnabled u \<and> tbl (w_users w') = (tbl (w_users w))(i \<mapsto> u\<lparr>u_twoFactorEnabled := False,
        u_twoFactorSecretEncrypted := None, u_twoFactorBackupCodesHashed := None\<rparr>)"
proof -
  obtain w1 v w2 y z where v: "verifyCode U RD L r32 now i code w = (Inr True, w1)"
    and q: "requireUser U i w1 = (Inr v, w2)"
    and s: "repo_save U (v\<lparr>u_twoFactorEnabled := False, u_twoFactorSecretEncrypted := None,
        u_twoFactorBackupCodesHashed := None\<rparr>) (w_users w2) = (Inr y, z)" and w': "w' = w2\<lparr>w_users := z\<rparr>"
    using run by (auto simp: disable_def bindP_Inr_iff onUsers_iff split: if_splits)
  obtain bc where on: "u_twoFactorEnabled u"
    and w1: "tbl (w_users w1) = (tbl (w_users w))(i \<mapsto> u\<lparr>u_twoFactorBackupCodesHashed := bc\<rparr>)"
    using verifyCode_True [OF row v] by metis
  have "v = u\<lparr>u_twoFactorBackupCodesHashed := bc\<rparr>" "tbl (w_users w2) = tbl (w_users w1)" "u_id u = i"
    using requireUser_Inr [OF q] w1 by auto
  with on w1 w' U.save_row [OF s] show ?thesis by simp
qed

end

section \<open>Properties\<close>

text \<open>Values for the witnesses.\<close>

definition sample_libs :: auth_libs where
  "sample_libs = \<lparr>a_hash = (\<lambda>salt p. ''h:'' @ p), a_verify = (\<lambda>h p. Inr (h = ''h:'' @ p)),
     otp_verify = (\<lambda>now token secret. Inr (length token = 6 \<and> token = secret)), otp_keyuri = (\<lambda>e i s. s),
     lib_gcm = plain_gcm, env_key = None\<rparr>"

definition sample_user :: user where
  "sample_user = \<lparr>u_id = ''u1'', u_email = ''a@b.fr'', u_username = ''A'', u_passwordHash = ''h:secret12'',
     u_role = FREELANCE, u_location = Some \<lparr>coordinates = [1, 2]\<rparr>, u_twoFactorEnabled = True,
     u_twoFactorSecretEncrypted = Some (seal [] (utf8_encode ''123456'') []),
     u_twoFactorBackupCodesHashed = Some [''h:AAAA-BBBB'', ''h:CCCC-DDDD''], u_createdAt = 0\<rparr>"

definition sample_world :: "redis_view \<Rightarrow> (user list, redis_view) auth_world" where
  "sample_world v = \<lparr>w_users = [sample_user], w_redis = v, w_key = Some []\<rparr>"

lemma sample_row: "mem_tbl u_id (w_users (sample_world v)) ''u1'' = Some sample_user"
  by (simp add: sample_world_def sample_user_def mem_tbl_def)

lemma sample_fields [simp]:
  "u_twoFactorEnabled sample_user"
  "u_twoFactorSecretEncrypted sample_user = Some (seal [] (utf8_encode ''123456'') [])"
  "u_id sample_user = ''u1''"
  "w_redis (sample_world v) = v"
  "w_key (sample_world v) = Some []"
  "w_users (sample_world v) = [sample_user]"
  by (simp_all add: sample_user_def sample_world_def)

lemma sample_decrypt:
  "decryptTwoFactorSecret (lib_gcm sample_libs) (env_key sample_libs) r (seal [] (utf8_encode s) []) (Some []) =
     (Inr s, Some [])"
  by (simp add: decryptTwoFactorSecret_def loadTwoFactorKey_def truthy_str_def sample_libs_def split_seal
      plain_gcm_def bindP_def returnP_def)

lemma sample_otp [simp]: "isValidTotp sample_libs now secret code \<longleftrightarrow> length code = 6 \<and> code = secret"
  by (auto simp: isValidTotp_def sample_libs_def)

lemma sample_argon [simp]: "safeArgonVerify sample_libs h p \<longleftrightarrow> h = ''h:'' @ p"
  by (simp add: safeArgonVerify_def sample_libs_def)

text \<open>
  C1. Lock-out. For an account with 2FA whose failure counter in Redis is live and has reached
  the maximum, no code is accepted or even answered: every call of \<open>verifyCode\<close> ends in an
  error (429, or 503 and 500 when a store is down), and users and Redis keep their contents.
\<close>

theorem verifyCode_locked:
  assumes "repository U tbl u_id" "redis_server RD view"
    and "tbl (w_users w) i = Some u" "u_twoFactorEnabled u" "u_twoFactorSecretEncrypted u = Some c" "c \<noteq> []"
    and locked: "MAX_FAILED_ATTEMPTS \<le> failures_of (live now (view (w_redis w)) (fail_key i))"
    and run: "verifyCode U RD L r32 now i code w = (r, w')"
  shows "r \<in> {Inl (TooManyRequests TooManyAttempts), Inl (ServiceUnavailable RedisDown), Inl LibraryError} \<and>
    tbl (w_users w') = tbl (w_users w) \<and> view (w_redis w') = view (w_redis w)"
proof -
  have acc: "account_store U tbl RD view" using assms(1,2) by (rule account_store.intro)
  show ?thesis
    by (rule account_store.verifyCode_run [OF acc assms(3-6) run]) (use locked in auto)
qed

theorem verifyCode_locked_witness:
  "let w = sample_world [fail_key ''u1'' \<mapsto> (RInt 5, Some 300)];
       run = verifyCode users_table mem_redis sample_libs [] 10 ''u1'' ''123456'' w
   in fst run \<in> {Inl (TooManyRequests TooManyAttempts), Inl (ServiceUnavailable RedisDown), Inl LibraryError} \<and>
      mem_tbl u_id (w_users (snd run)) = mem_tbl u_id (w_users w) \<and> w_redis (snd run) = w_redis w"
  unfolding Let_def
  by (rule verifyCode_locked [OF users_tbl.repository_axioms mem_rd.redis_server_axioms sample_row _ _
      seal_not_Nil _ prod.collapse [symmetric]])
    (simp_all add: live_def failures_of_def MAX_FAILED_ATTEMPTS_def)


lemma sample_world_upd [simp]:
  "sample_world v\<lparr>w_users := [sample_user]\<rparr> = sample_world v"
  "sample_world v\<lparr>w_redis := v'\<rparr> = sample_world v'"
  "sample_world v\<lparr>w_key := Some []\<rparr> = sample_world v"
  by (simp_all add: sample_world_def)

lemma sample_requireUser [simp]:
  "requireUser users_table ''u1'' (sample_world v) = (Inr sample_user, sample_world v)"
proof -
  have "repo_findOne users_table (\<lambda>u. u_id u = ''u1'') [sample_user] = (Inr (Some sample_user), [sample_user])"
    by (simp add: users_table_def mem_repo_def mem_rows_def)
  then show ?thesis by (simp add: requireUser_def bindP_def onUsers_def liftP_def returnP_def)
qed

lemma sample_lock [simp]:
  "assertNotLocked mem_redis now ''u1'' (sample_world v) =
     (if MAX_FAILED_ATTEMPTS \<le> failures_of (live now v (fail_key ''u1''))
      then Inl (TooManyRequests TooManyAttempts) else Inr (), sample_world v)"
  by (simp add: assertNotLocked_def bindP_def catchP_def onRedis_def liftP_def mem_redis_def returnP_def throwP_def)

lemma sample_failure:
  "live now v (fail_key ''u1'') = None \<Longrightarrow> registerFailure mem_redis now ''u1'' (sample_world v) =
     (Inr (), sample_world (v(fail_key ''u1'' \<mapsto> (RInt 1, Some (now + FAIL_WINDOW_SECONDS)))))"
  "v (fail_key ''u1'') = Some (RInt (Suc n), Some d) \<Longrightarrow> now < d \<Longrightarrow>
   registerFailure mem_redis now ''u1'' (sample_world v) =
     (Inr (), sample_world (v(fail_key ''u1'' \<mapsto> (RInt (Suc (Suc n)), Some d))))"
  by (simp_all add: registerFailure_def bindP_def catchP_def onRedis_def liftP_def mem_redis_def returnP_def
      live_upd ttl_of_def live_def)

lemma sample_verify:
  "verifyCode users_table mem_redis sample_libs r32 now ''u1'' ''000000'' (sample_world v) =
    (if MAX_FAILED_ATTEMPTS \<le> failures_of (live now v (fail_key ''u1''))
     then (Inl (TooManyRequests TooManyAttempts), sample_world v)
     else (Inr False, snd (registerFailure mem_redis now ''u1'' (sample_world v))))"
proof -
  obtain x w where r: "registerFailure mem_redis now ''u1'' (sample_world v) = (x, w)" by fastforce
  have "x = Inr ()" by (rule mem_accounts.registerFailure_result(1) [OF r])
  with r show ?thesis
    by (simp add: verifyCode_def check_code_def bindP_def onKey_def liftP_def truthy_str_def seal_not_Nil
        sample_decrypt returnP_def throwP_def Let_def sample_user_def [THEN arg_cong, of u_twoFactorBackupCodesHashed])
qed


text \<open>
  C3. A backup code works once. If a code that is no TOTP code of the account, and that matches at
  most one of the stored hashes, is accepted, then the next verification of the same code, at
  any later point and on the state left behind, is not.
\<close>

theorem backup_code_single_use:
  assumes "repository U tbl u_id" "redis_server RD view"
    and "tbl (w_users w) i = Some u" "u_twoFactorEnabled u" "u_twoFactorSecretEncrypted u = Some c" "c \<noteq> []"
    and no_totp: "\<And>t secret. \<not> isValidTotp L t secret code"
    and once: "\<And>hs. u_twoFactorBackupCodesHashed u = Some hs \<Longrightarrow>
      length (filter (\<lambda>h. safeArgonVerify L h code) hs) \<le> 1"
    and run: "verifyCode U RD L r32 now i code w = (Inr True, w1)"
    and again: "verifyCode U RD L r32' now' i code w1 = (r, w2)"
  shows "r \<noteq> Inr True"
proof -
  have acc: "account_store U tbl RD view" using assms(1,2) by (rule account_store.intro)
  obtain hs n where hs: "u_twoFactorBackupCodesHashed u = Some hs"
    "first_match (\<lambda>h. safeArgonVerify L h code) 0 hs = Some n"
    and w1: "tbl (w_users w1) = (tbl (w_users w))(i \<mapsto> u\<lparr>u_twoFactorBackupCodesHashed := Some (remove_index n hs)\<rparr>)"
    by (rule account_store.verifyCode_run [OF acc assms(3-6) run]) (use no_totp in auto)
  have "length (filter (\<lambda>h. safeArgonVerify L h code) (remove_index n hs)) = 0"
    using remove_first_match(2) [OF hs(2)] once [OF hs(1)] by simp
  then have none: "first_match (\<lambda>h. safeArgonVerify L h code) 0 (remove_index n hs) = None"
    by (simp add: first_match_None filter_empty_conv)
  show ?thesis
    by (rule account_store.verifyCode_run [OF acc _ _ _ assms(6) again,
          where u = "u\<lparr>u_twoFactorBackupCodesHashed := Some (remove_index n hs)\<rparr>"])
      (use w1 none no_totp assms(4,5) in auto)
qed

lemma sample_backup:
  "verifyCode users_table mem_redis sample_libs r32 now ''u1'' ''AAAA-BBBB'' (sample_world Map.empty) =
    (Inr True, (sample_world Map.empty)\<lparr>w_users := [sample_user\<lparr>u_twoFactorBackupCodesHashed := Some [''h:CCCC-DDDD'']\<rparr>]\<rparr>)"
proof -
  let ?u = "sample_user\<lparr>u_twoFactorBackupCodesHashed := Some [''h:CCCC-DDDD'']\<rparr>"
  have s: "repo_save users_table ?u [sample_user] = (Inr ?u, [?u])"
    by (simp add: users_table_def mem_repo_def mem_write_def mem_rows_def mem_put_def UQ_users_email_def
        CHK_users_freelance_location_def sample_user_def)
  have b: "u_twoFactorBackupCodesHashed sample_user = Some [''h:AAAA-BBBB'', ''h:CCCC-DDDD'']"
    by (simp add: sample_user_def)
  have c: "clearFailures mem_redis now ''u1'' ((sample_world Map.empty)\<lparr>w_users := [?u]\<rparr>) =
      (Inr (), (sample_world Map.empty)\<lparr>w_users := [?u]\<rparr>)"
    by (simp add: clearFailures_def bindP_def catchP_def onRedis_def liftP_def mem_redis_def returnP_def fun_eq_iff
        sample_world_def)
  show ?thesis
    by (simp add: verifyCode_def check_code_def bindP_def onKey_def onUsers_def liftP_def truthy_str_def seal_not_Nil
        sample_decrypt returnP_def Let_def live_def failures_of_def MAX_FAILED_ATTEMPTS_def b c s remove_index_def)
qed

theorem backup_code_single_use_witness:
  "fst (verifyCode users_table mem_redis sample_libs [] 20 ''u1'' ''AAAA-BBBB''
     (snd (verifyCode users_table mem_redis sample_libs [] 10 ''u1'' ''AAAA-BBBB'' (sample_world Map.empty)))) \<noteq> Inr True"
proof -
  have b: "u_twoFactorBackupCodesHashed sample_user = Some [''h:AAAA-BBBB'', ''h:CCCC-DDDD'']"
    by (simp add: sample_user_def)
  have run: "verifyCode users_table mem_redis sample_libs [] 10 ''u1'' ''AAAA-BBBB'' (sample_world Map.empty) =
      (Inr True, snd (verifyCode users_table mem_redis sample_libs [] 10 ''u1'' ''AAAA-BBBB'' (sample_world Map.empty)))"
    by (simp add: sample_backup)
  show ?thesis
    by (rule backup_code_single_use [OF users_tbl.repository_axioms mem_rd.redis_server_axioms sample_row _ _
          seal_not_Nil _ _ run prod.collapse [symmetric]]) (simp_all add: b)
qed

text \<open>
  Enrolment leads to an active second factor. The secret \<open>enroll\<close> hands out is the one
  stored, encrypted, in the row, and a code that otplib accepts for it is never rejected by
  \<open>confirm\<close>: the account is then active and its eight backup codes are stored as hashes only.
\<close>

theorem enroll_then_confirm:
  assumes "repository U tbl u_id" "redis_server RD view" "gcm_cipher (lib_gcm L)"
    and enroll: "enroll U L secret r32 iv i w = (Inr (s, url), w1)"
    and code: "otp_verify L now code s = Inr True"
    and confirm: "confirm U L rnd salt r32' now i code w1 = (r, w2)"
  shows "r = Inl LibraryError \<or> (\<exists>u. r = Inr (generateBackupCodes rnd) \<and> tbl (w_users w2) i = Some u \<and>
     u_twoFactorEnabled u \<and> u_twoFactorBackupCodesHashed u =
       Some (map (\<lambda>i. a_hash L (salt i) (generateBackupCodes rnd ! i)) [0..<BACKUP_CODES_COUNT]))"
proof (cases r)
  case (Inr codes)
  have acc: "account_store U tbl RD view" using assms(1,2) by (rule account_store.intro)
  show ?thesis
    by (rule account_store.confirm_Inr [OF acc confirm [unfolded Inr]])
      (simp add: Inr generateBackupCodes_def)
next
  case (Inl e)
  have acc: "account_store U tbl RD view" using assms(1,2) by (rule account_store.intro)
  obtain u sealed where s: "s = secret" and row: "tbl (w_users w1) i = Some (u\<lparr>u_twoFactorSecretEncrypted := Some sealed\<rparr>)"
    and enc: "encryptTwoFactorSecret (lib_gcm L) (env_key L) r32 iv secret (w_key w) = (Inr sealed, w_key w1)"
    by (rule account_store.enroll_Inr [OF acc enroll]) auto
  have dec: "decryptTwoFactorSecret (lib_gcm L) (env_key L) r32' sealed (w_key w1) = (Inr secret, w_key w1)"
    by (rule gcm_cipher.decrypt_encrypted [OF assms(3) enc])
  have ne: "sealed \<noteq> []"
    using enc by (auto simp: encryptTwoFactorSecret_def proc_iff seal_not_Nil split_def)
  have ok: "isValidTotp L now secret code" using code s by (simp add: isValidTotp_def)
  obtain q w3 where q: "requireUser U i w1 = (q, w3)" by fastforce
  have "e = LibraryError"
  proof (cases q)
    case (Inl d)
    with q confirm \<open>r = Inl e\<close> account_store.requireUser_Inl [OF acc q [unfolded Inl]] row show ?thesis
      by (simp add: confirm_def bindP_def)
  next
    case (Inr v)
    note f = account_store.requireUser_Inr [OF acc q [unfolded Inr]]
    with q confirm \<open>r = Inl e\<close> Inr row ne dec ok show ?thesis
      by (auto simp: confirm_def bindP_def truthy_str_def onKey_def onUsers_def liftP_def Let_def returnP_def
          dest: repository.save_error [OF assms(1)] split: prod.splits sum.splits)
  qed
  with Inl show ?thesis by simp
qed

text \<open>An enrolment from scratch: the sample user without 2FA.\<close>

definition sample_plain :: "(user list, redis_view) auth_world" where
  "sample_plain = \<lparr>w_users = [sample_user\<lparr>u_twoFactorEnabled := False, u_twoFactorSecretEncrypted := None,
     u_twoFactorBackupCodesHashed := None\<rparr>], w_redis = Map.empty, w_key = Some []\<rparr>"

lemma sample_enroll:
  "fst (enroll users_table sample_libs ''123456'' [] [] ''u1'' sample_plain) = (Inr (''123456'', ''123456''))"
  by (simp add: enroll_def requireUser_def bindP_def onUsers_def onKey_def liftP_def sample_plain_def users_table_def
      mem_repo_def mem_rows_def mem_write_def mem_put_def sample_user_def UQ_users_email_def CHK_users_freelance_location_def
      encryptTwoFactorSecret_def loadTwoFactorKey_def truthy_str_def sample_libs_def plain_gcm_def returnP_def)

theorem enroll_then_confirm_witness:
  "let w1 = snd (enroll users_table sample_libs ''123456'' [] [] ''u1'' sample_plain);
       run = confirm users_table sample_libs (\<lambda>i. replicate 8 (of_nat i)) (\<lambda>i. []) [] 10 ''u1'' ''123456'' w1
   in fst run = Inl LibraryError \<or> (\<exists>u. fst run = Inr (generateBackupCodes (\<lambda>i. replicate 8 (of_nat i))) \<and>
        mem_tbl u_id (w_users (snd run)) ''u1'' = Some u \<and> u_twoFactorEnabled u \<and> u_twoFactorBackupCodesHashed u =
        Some (map (\<lambda>i. a_hash sample_libs [] (generateBackupCodes (\<lambda>i. replicate 8 (of_nat i)) ! i)) [0..<BACKUP_CODES_COUNT]))"
proof -
  let ?w1 = "snd (enroll users_table sample_libs ''123456'' [] [] ''u1'' sample_plain)"
  have e: "enroll users_table sample_libs ''123456'' [] [] ''u1'' sample_plain = (Inr (''123456'', ''123456''), ?w1)"
    by (rule prod_eqI) (simp_all add: sample_enroll)
  have g: "gcm_cipher (lib_gcm sample_libs)" using plain_gcm.gcm_cipher_axioms by (simp add: sample_libs_def)
  have o: "otp_verify sample_libs 10 ''123456'' ''123456'' = Inr True" by (simp add: sample_libs_def)
  show ?thesis
    unfolding Let_def
    by (rule enroll_then_confirm [OF users_tbl.repository_axioms mem_rd.redis_server_axioms g e o prod.collapse [symmetric],
          where salt = "\<lambda>i. []"])
qed

text \<open>
  Disabling is final and guarded. When \<open>disable\<close> returns, the account had 2FA, and the only
  change to the users table is that its row has neither the flag nor the secret nor backup codes.
\<close>

lemma disable_purges:
  assumes "repository U tbl u_id" "redis_server RD view"
    and "tbl (w_users w) i = Some u" and "disable U RD L r32 now i code w = (Inr ok, w')"
  shows "u_twoFactorEnabled u \<and> tbl (w_users w') = (tbl (w_users w))(i \<mapsto> u\<lparr>u_twoFactorEnabled := False,
        u_twoFactorSecretEncrypted := None, u_twoFactorBackupCodesHashed := None\<rparr>)"
  by (rule account_store.disable_Inr [OF account_store.intro [OF assms(1,2)] assms(3,4)])

lemma disable_purges_sample:
  "let w' = snd (disable users_table mem_redis sample_libs [] 10 ''u1'' ''123456'' (sample_world Map.empty))
   in mem_tbl u_id (w_users w') = [''u1'' \<mapsto> sample_user\<lparr>u_twoFactorEnabled := False,
        u_twoFactorSecretEncrypted := None, u_twoFactorBackupCodesHashed := None\<rparr>]"
proof -
  let ?run = "disable users_table mem_redis sample_libs [] 10 ''u1'' ''123456'' (sample_world Map.empty)"
  have c: "clearFailures mem_redis 10 ''u1'' (sample_world Map.empty) = (Inr (), sample_world Map.empty)"
    by (simp add: clearFailures_def bindP_def catchP_def onRedis_def liftP_def mem_redis_def returnP_def fun_eq_iff
        sample_world_def)
  have v: "verifyCode users_table mem_redis sample_libs [] 10 ''u1'' ''123456'' (sample_world Map.empty) =
      (Inr True, sample_world Map.empty)"
    by (simp add: verifyCode_def check_code_def bindP_def onKey_def liftP_def truthy_str_def seal_not_Nil c
        sample_decrypt returnP_def live_def failures_of_def MAX_FAILED_ATTEMPTS_def)
  have "fst ?run = Inr True"
    by (simp add: disable_def bindP_def v onUsers_def liftP_def table_run table_rows returnP_def)
      (simp add: sample_user_def)
  then have run: "?run = (Inr True, snd ?run)" by (simp add: prod_eq_iff)
  have t0: "mem_tbl u_id (w_users (sample_world Map.empty)) = [''u1'' \<mapsto> sample_user]"
    by (simp add: mem_tbl_def sample_world_def sample_user_def)
  show ?thesis
    using disable_purges [OF users_tbl.repository_axioms mem_rd.redis_server_axioms sample_row run]
    by (auto simp: Let_def t0 [simplified] fun_eq_iff)
qed

text \<open>
  The confirmation step is outside the brute-force counter. \<open>confirm\<close> neither reads nor
  writes Redis: on any state of Redis, a locked account included, it gives the same answer, and
  leaves Redis as it was, also when the code is wrong.
\<close>

theorem confirm_uncounted:
  "confirm U L rnd salt r32 now i code (w\<lparr>w_redis := x\<rparr>) =
     (fst (confirm U L rnd salt r32 now i code w), snd (confirm U L rnd salt r32 now i code w)\<lparr>w_redis := x\<rparr>) \<and>
   w_redis (snd (confirm U L rnd salt r32 now i code w)) = w_redis w"
  using confirm_redis_free [unfolded redis_free_def, rule_format, of U L rnd salt r32 now i code]
    keepsD [OF confirm_keeps_redis prod.collapse [symmetric] refl] by auto

text \<open>
  The backup codes that \<open>confirm\<close> shows are usable. There are eight; each passes the
  pattern of the DTO; and on the state \<open>confirm\<close> left, a verification of one of them is never
  answered "wrong code", whatever the second (Argon2 accepting the password it hashed).
\<close>

theorem issued_backup_codes_usable:
  assumes "repository U tbl u_id" "redis_server RD view"
    and argon: "\<And>salt p. a_verify L (a_hash L salt p) p = Inr True" and rnd: "\<And>j. length (rnd j) = 8"
    and confirm: "confirm U L rnd salt r32 now i code w = (Inr codes, w1)"
    and k: "k < length codes"
    and verify: "verifyCode U RD L r32' now' i (codes ! k) w1 = (r, w2)"
  shows "length codes = 8 \<and> CODE_PATTERN (codes ! k) \<and> r \<noteq> Inr False"
proof -
  have acc: "account_store U tbl RD view" using assms(1,2) by (rule account_store.intro)
  obtain u c where codes: "codes = generateBackupCodes rnd"
    and c: "u_twoFactorSecretEncrypted u = Some c" "c \<noteq> []"
    and row: "tbl (w_users w1) i = Some (u\<lparr>u_twoFactorEnabled := True, u_twoFactorBackupCodesHashed :=
          Some (map (\<lambda>i. a_hash L (salt i) (codes ! i)) [0..<length codes])\<rparr>)"
    by (rule account_store.confirm_Inr [OF acc confirm]) (rule that, simp_all)
  let ?hs = "map (\<lambda>i. a_hash L (salt i) (codes ! i)) [0..<length codes]"
  have "a_hash L (salt k) (codes ! k) \<in> set ?hs" using k by simp
  then have "first_match (\<lambda>h. safeArgonVerify L h (codes ! k)) 0 ?hs \<noteq> None"
    using argon [of "salt k" "codes ! k"] unfolding first_match_None safeArgonVerify_def by fastforce
  then have "r \<noteq> Inr False"
    using c
    by (intro notI) (rule account_store.verifyCode_run [OF acc row _ _ _ verify, of c], auto simp: truthy_str_def)
  moreover have "length codes = 8" "CODE_PATTERN (codes ! k)"
    using k rnd by (simp_all add: codes generateBackupCodes_def BACKUP_CODES_COUNT_def backup_code_pattern)
  ultimately show ?thesis by simp
qed

lemma sample_confirm:
  "fst (confirm users_table sample_libs rnd salt [] 10 ''u1'' ''123456'' (sample_world v)) =
     Inr (generateBackupCodes rnd)"
  by (simp add: confirm_def bindP_def onUsers_def onKey_def liftP_def truthy_str_def seal_not_Nil sample_decrypt
      Let_def table_run table_rows returnP_def) (simp add: sample_user_def)

theorem issued_backup_codes_usable_witness:
  "let rnd = \<lambda>j. replicate 8 (of_nat j);
       w1 = snd (confirm users_table sample_libs rnd (\<lambda>i. []) [] 10 ''u1'' ''123456'' (sample_world Map.empty));
       codes = generateBackupCodes rnd
   in length codes = 8 \<and> CODE_PATTERN (codes ! 3) \<and>
      fst (verifyCode users_table mem_redis sample_libs [] 20 ''u1'' (codes ! 3) w1) \<noteq> Inr False"
proof -
  let ?rnd = "\<lambda>j. replicate 8 (of_nat j)"
  let ?run = "confirm users_table sample_libs ?rnd (\<lambda>i. []) [] 10 ''u1'' ''123456'' (sample_world Map.empty)"
  have run: "?run = (Inr (generateBackupCodes ?rnd), snd ?run)" by (simp add: prod_eq_iff sample_confirm)
  have a: "a_verify sample_libs (a_hash sample_libs salt p) p = Inr True" for salt p
    by (simp add: sample_libs_def)
  show ?thesis
    unfolding Let_def
    by (rule issued_backup_codes_usable [OF users_tbl.repository_axioms mem_rd.redis_server_axioms a _ run _
          prod.collapse [symmetric]]) (simp_all add: generateBackupCodes_def BACKUP_CODES_COUNT_def)
qed

end
