(* ===== verification/Auth.thy ===== *)
theory Auth
  imports TwoFactor
begin

text \<open>
  \<open>auth/auth.service.ts\<close>, \<open>auth/dto/register.dto.ts\<close>, \<open>auth/refresh-cookie.ts\<close> and the two
  controllers \<open>auth/auth.controller.ts\<close> and \<open>auth/two-factor.controller.ts\<close>: registration, the
  login in one or two steps, the rotation of refresh tokens, logout.

  The service is written against the interface \<open>token_store\<close>; its lemmas are proved for every
  provider of the contract \<open>token_registry\<close>, which \<open>TokenStore\<close> satisfies on any lawful Redis.
\<close>

section \<open>DTOs\<close>

definition SELF_ASSIGNABLE_ROLES :: "UserRole list" where
  "SELF_ASSIGNABLE_ROLES = [FREELANCE, RECRUITER]"

text \<open>
  Request bodies before validation. A field is \<open>None\<close> when it is absent or has another type;
  a coordinate is \<open>None\<close> when its conversion to a number is \<open>NaN\<close>.
\<close>

datatype location_field = NoLocation | NullLocation | LocationDto "rat option" "rat option"

record register_body =
  rb_email :: "string option"
  rb_username :: "string option"
  rb_password :: "string option"
  rb_role :: "UserRole option"
  rb_location :: location_field

text \<open>A validated body; the location is latitude and longitude, in this order.\<close>

record RegisterDto =
  rd_email :: string
  rd_username :: string
  rd_password :: string
  rd_role :: UserRole
  rd_location :: "(rat \<times> rat) option"

definition is_latitude :: "rat option \<Rightarrow> bool" where
  "is_latitude x = (case x of None \<Rightarrow> False | Some v \<Rightarrow> -90 \<le> v \<and> v \<le> 90)"

definition is_longitude :: "rat option \<Rightarrow> bool" where
  "is_longitude x = (case x of None \<Rightarrow> False | Some v \<Rightarrow> -180 \<le> v \<and> v \<le> 180)"

text \<open>\<open>@ValidateIf\<close>, then \<open>@IsDefined\<close> and \<open>@ValidateNested\<close>.\<close>

definition valid_location :: "UserRole option \<Rightarrow> location_field \<Rightarrow> bool" where
  "valid_location role l = (if role = Some FREELANCE \<or> l \<noteq> NoLocation
     then (case l of LocationDto lat lon \<Rightarrow> is_latitude lat \<and> is_longitude lon | _ \<Rightarrow> False)
     else True)"

definition validate_RegisterDto :: "(string \<Rightarrow> bool) \<Rightarrow> register_body \<Rightarrow> exn + RegisterDto" where
  "validate_RegisterDto is_email b =
     (case (rb_email b, rb_username b, rb_password b, rb_role b) of
        (Some email, Some username, Some password, Some role) \<Rightarrow>
          if is_email email \<and> username \<noteq> [] \<and> 8 \<le> length password \<and>
             role \<in> set SELF_ASSIGNABLE_ROLES \<and> valid_location (Some role) (rb_location b)
          then Inr \<lparr>rd_email = email, rd_username = username, rd_password = password, rd_role = role,
                 rd_location = (case rb_location b of
                     LocationDto (Some lat) (Some lon) \<Rightarrow> Some (lat, lon) | _ \<Rightarrow> None)\<rparr>
          else Inl (BadRequest ValidationFailed)
      | _ \<Rightarrow> Inl (BadRequest ValidationFailed))"

record LoginDto =
  ld_email :: string
  ld_password :: string

definition validate_LoginDto :: "(string \<Rightarrow> bool) \<Rightarrow> string option \<Rightarrow> string option \<Rightarrow> exn + LoginDto" where
  "validate_LoginDto is_email email password = (case (email, password) of
     (Some e, Some p) \<Rightarrow> if is_email e \<and> p \<noteq> [] then Inr \<lparr>ld_email = e, ld_password = p\<rparr>
       else Inl (BadRequest ValidationFailed)
   | _ \<Rightarrow> Inl (BadRequest ValidationFailed))"

text \<open>\<open>RefreshDto\<close>: \<open>None\<close> is an absent field.\<close>

definition validate_RefreshDto :: "string option \<Rightarrow> exn + string option" where
  "validate_RefreshDto refreshToken =
     (if refreshToken = Some [] then Inl (BadRequest ValidationFailed) else Inr refreshToken)"

section \<open>The service\<close>

record PublicUser =
  pu_id :: string
  pu_email :: string
  pu_username :: string
  pu_role :: UserRole
  pu_location :: "point option"
  pu_twoFactorEnabled :: bool
  pu_createdAt :: nat

record TokenPair =
  accessToken :: string
  refreshToken :: string

datatype login_result = Tokens TokenPair | TwoFactorChallenge string

definition ACCESS_TTL :: nat where "ACCESS_TTL = 15 * 60"
definition TWOFA_PENDING_TTL :: nat where "TWOFA_PENDING_TTL = 5 * 60"

definition toPublicUser :: "user \<Rightarrow> PublicUser" where
  "toPublicUser u = \<lparr>pu_id = u_id u, pu_email = u_email u, pu_username = u_username u, pu_role = u_role u,
     pu_location = u_location u, pu_twoFactorEnabled = u_twoFactorEnabled u, pu_createdAt = u_createdAt u\<rparr>"

text \<open>The entity \<open>create\<close> builds, with the defaults of the other columns.\<close>

definition new_user :: "RegisterDto \<Rightarrow> string \<Rightarrow> string \<Rightarrow> nat \<Rightarrow> user" where
  "new_user dto passwordHash i createdAt =
     \<lparr>u_id = i, u_email = rd_email dto, u_username = rd_username dto, u_passwordHash = passwordHash,
      u_role = rd_role dto,
      u_location = (case rd_location dto of
          Some (latitude, longitude) \<Rightarrow> Some \<lparr>coordinates = [longitude, latitude]\<rparr> | None \<Rightarrow> None),
      u_twoFactorEnabled = False, u_twoFactorSecretEncrypted = None,
      u_twoFactorBackupCodesHashed = None, u_createdAt = createdAt\<rparr>"

definition register :: "('u, user) repo \<Rightarrow> auth_libs \<Rightarrow> bytes \<Rightarrow> RegisterDto \<Rightarrow>
    (('u, 'k) auth_world, PublicUser) proc" where
  "register U L salt dto =
     (if rd_role dto \<notin> set SELF_ASSIGNABLE_ROLES then throwP (Forbidden RoleNotSelfAssignable) else
      bindP (onUsers (repo_findOne U (\<lambda>u. u_email u = rd_email dto))) (\<lambda>existing.
      if existing \<noteq> None then throwP (Unauthorized EmailAlreadyRegistered) else
      let passwordHash = a_hash L salt (rd_password dto) in
      bindP (onUsers (repo_insert U (new_user dto passwordHash))) (\<lambda>saved.
      returnP (toPublicUser saved))))"

definition access_claims :: "user \<Rightarrow> claims" where
  "access_claims u = \<lparr>cl_userId = u_id u, cl_email = Some (u_email u), cl_role = Some (u_role u),
     cl_type = Some ''access'', cl_jti = None\<rparr>"

definition refresh_claims :: "user \<Rightarrow> string \<Rightarrow> claims" where
  "refresh_claims u jti = \<lparr>cl_userId = u_id u, cl_email = Some (u_email u), cl_role = Some (u_role u),
     cl_type = Some ''refresh'', cl_jti = Some jti\<rparr>"

definition pending_claims :: "user \<Rightarrow> claims" where
  "pending_claims u = \<lparr>cl_userId = u_id u, cl_email = None, cl_role = None,
     cl_type = Some ''twofa_pending'', cl_jti = None\<rparr>"

text \<open>\<open>jti\<close> is the \<open>randomUUID()\<close> of the call.\<close>

definition issueTokens :: "jwt \<Rightarrow> 'k token_store \<Rightarrow> nat \<Rightarrow> string \<Rightarrow> user \<Rightarrow>
    (('u, 'k) auth_world, TokenPair) proc" where
  "issueTokens J T now jti user =
     (let access = jwt_sign J now (access_claims user) ACCESS_TTL;
          refresh = jwt_sign J now (refresh_claims user jti) REFRESH_TTL_SECONDS
      in bindP (onRedis (ts_save T now jti (u_id user) REFRESH_TTL_SECONDS)) (\<lambda>_.
         returnP \<lparr>accessToken = access, refreshToken = refresh\<rparr>))"

definition login :: "('u, user) repo \<Rightarrow> jwt \<Rightarrow> 'k token_store \<Rightarrow> auth_libs \<Rightarrow> nat \<Rightarrow> string \<Rightarrow> LoginDto \<Rightarrow>
    (('u, 'k) auth_world, login_result) proc" where
  "login U J T L now jti dto =
     bindP (onUsers (repo_findOne U (\<lambda>u. u_email u = ld_email dto))) (\<lambda>found.
     case found of
       None \<Rightarrow> throwP (Unauthorized InvalidCredentials)
     | Some user \<Rightarrow>
         if \<not> safeArgonVerify L (u_passwordHash user) (ld_password dto)
         then throwP (Unauthorized InvalidCredentials)
         else if u_twoFactorEnabled user
         then returnP (TwoFactorChallenge (jwt_sign J now (pending_claims user) TWOFA_PENDING_TTL))
         else bindP (issueTokens J T now jti user) (\<lambda>pair. returnP (Tokens pair)))"

definition find_user :: "('u, user) repo \<Rightarrow> string \<Rightarrow> (('u, 'k) auth_world, user) proc" where
  "find_user U userId = bindP (onUsers (repo_findOne U (\<lambda>u. u_id u = userId))) (\<lambda>user.
     case user of None \<Rightarrow> throwP (Unauthorized UserNotFound) | Some u \<Rightarrow> returnP u)"

definition completeTwoFactorLogin :: "('u, user) repo \<Rightarrow> jwt \<Rightarrow> 'k redis \<Rightarrow> 'k token_store \<Rightarrow> auth_libs \<Rightarrow> bytes \<Rightarrow>
    nat \<Rightarrow> string \<Rightarrow> string \<Rightarrow> string \<Rightarrow> (('u, 'k) auth_world, TokenPair) proc" where
  "completeTwoFactorLogin U J RD T L random32 now jti twoFactorToken code =
     (case jwt_verify J now twoFactorToken of
        Inl _ \<Rightarrow> throwP (Unauthorized TwoFactorSessionExpired)
      | Inr payload \<Rightarrow>
          if cl_type payload \<noteq> Some ''twofa_pending'' then throwP (Unauthorized TwoFactorSessionExpired) else
          bindP (verifyCode U RD L random32 now (cl_userId payload) code) (\<lambda>ok.
          if \<not> ok then throwP (Unauthorized InvalidVerificationCode) else
          bindP (find_user U (cl_userId payload)) (\<lambda>user. issueTokens J T now jti user)))"

text \<open>The condition is evaluated from left to right: \<open>isValid\<close> is called for typed tokens only.\<close>

definition refresh :: "('u, user) repo \<Rightarrow> jwt \<Rightarrow> 'k token_store \<Rightarrow> nat \<Rightarrow> string \<Rightarrow> string \<Rightarrow>
    (('u, 'k) auth_world, TokenPair) proc" where
  "refresh U J T now jti token =
     (case jwt_verify J now token of
        Inl _ \<Rightarrow> throwP (Unauthorized RefreshTokenInvalid)
      | Inr payload \<Rightarrow>
          if cl_type payload \<noteq> Some ''refresh'' \<or> \<not> truthy_str (cl_jti payload)
          then throwP (Unauthorized RefreshTokenRevoked) else
          bindP (onRedis (ts_isValid T now (the (cl_jti payload)) (cl_userId payload))) (\<lambda>valid.
          if \<not> valid then throwP (Unauthorized RefreshTokenRevoked) else
          bindP (onRedis (ts_revoke T now (the (cl_jti payload)))) (\<lambda>_.
          bindP (find_user U (cl_userId payload)) (\<lambda>user. issueTokens J T now jti user))))"

definition logout :: "jwt \<Rightarrow> 'k token_store \<Rightarrow> nat \<Rightarrow> string \<Rightarrow> (('u, 'k) auth_world, bool) proc" where
  "logout J T now token =
     bindP (catchP (case jwt_verify J now token of
              Inl e \<Rightarrow> throwP e
            | Inr payload \<Rightarrow> if truthy_str (cl_jti payload)
                then onRedis (ts_revoke T now (the (cl_jti payload))) else returnP ())
            (\<lambda>_. returnP ()))
     (\<lambda>_. returnP True)"

section \<open>The controllers\<close>

record cookie_options =
  httpOnly :: bool
  secure :: bool
  sameSite :: string
  co_path :: string
  maxAge :: "nat option"

definition REFRESH_COOKIE_NAME :: string where "REFRESH_COOKIE_NAME = ''sh_refresh''"
definition REFRESH_COOKIE_PATH :: string where "REFRESH_COOKIE_PATH = ''/api/v1/auth''"
definition REFRESH_COOKIE_MAX_AGE_MS :: nat where "REFRESH_COOKIE_MAX_AGE_MS = 7 * 24 * 60 * 60 * 1000"

definition refreshCookieOptions :: "bool \<Rightarrow> cookie_options" where
  "refreshCookieOptions isProduction = \<lparr>httpOnly = True, secure = isProduction, sameSite = ''lax'',
     co_path = REFRESH_COOKIE_PATH, maxAge = Some REFRESH_COOKIE_MAX_AGE_MS\<rparr>"

definition clearRefreshCookieOptions :: "bool \<Rightarrow> cookie_options" where
  "clearRefreshCookieOptions isProduction = \<lparr>httpOnly = True, secure = isProduction, sameSite = ''lax'',
     co_path = REFRESH_COOKIE_PATH, maxAge = None\<rparr>"

text \<open>What a handler does to the cookies of the response, besides its body.\<close>

datatype cookie_op =
    NoCookie
  | SetCookie string string cookie_options
  | ClearCookie string cookie_options

definition setRefreshCookie :: "bool \<Rightarrow> string \<Rightarrow> cookie_op" where
  "setRefreshCookie isProduction tok =
     SetCookie REFRESH_COOKIE_NAME tok (refreshCookieOptions isProduction)"

definition readRefreshToken :: "string option \<Rightarrow> string option \<Rightarrow> string option" where
  "readRefreshToken cookie body = (case cookie of Some c \<Rightarrow> Some c | None \<Rightarrow> body)"

definition post_register :: "(string \<Rightarrow> bool) \<Rightarrow> ('u, user) repo \<Rightarrow> auth_libs \<Rightarrow> bytes \<Rightarrow> register_body \<Rightarrow>
    (('u, 'k) auth_world, PublicUser) proc" where
  "post_register is_email U L salt body =
     bindP (liftE (validate_RegisterDto is_email body)) (\<lambda>dto. register U L salt dto)"

definition post_login :: "(string \<Rightarrow> bool) \<Rightarrow> bool \<Rightarrow> ('u, user) repo \<Rightarrow> jwt \<Rightarrow> 'k token_store \<Rightarrow> auth_libs \<Rightarrow>
    nat \<Rightarrow> string \<Rightarrow> string option \<Rightarrow> string option \<Rightarrow> (('u, 'k) auth_world, login_result \<times> cookie_op) proc" where
  "post_login is_email isProduction U J T L now jti email password =
     bindP (liftE (validate_LoginDto is_email email password)) (\<lambda>dto.
     bindP (login U J T L now jti dto) (\<lambda>result.
     case result of
       TwoFactorChallenge tok \<Rightarrow> returnP (result, NoCookie)
     | Tokens pair \<Rightarrow> returnP (result, setRefreshCookie isProduction (refreshToken pair))))"

definition post_refresh :: "bool \<Rightarrow> ('u, user) repo \<Rightarrow> jwt \<Rightarrow> 'k token_store \<Rightarrow> nat \<Rightarrow> string \<Rightarrow>
    string option \<Rightarrow> string option \<Rightarrow> (('u, 'k) auth_world, TokenPair \<times> cookie_op) proc" where
  "post_refresh isProduction U J T now jti cookie body =
     bindP (liftE (validate_RefreshDto body)) (\<lambda>dto.
     let tok = readRefreshToken cookie dto in
     if \<not> truthy_str tok then throwP (Unauthorized RefreshTokenMissing) else
     bindP (refresh U J T now jti (the tok)) (\<lambda>tokens.
     returnP (tokens, setRefreshCookie isProduction (refreshToken tokens))))"

definition post_logout :: "bool \<Rightarrow> jwt \<Rightarrow> 'k token_store \<Rightarrow> nat \<Rightarrow> string option \<Rightarrow> string option \<Rightarrow>
    (('u, 'k) auth_world, bool \<times> cookie_op) proc" where
  "post_logout isProduction J T now cookie body =
     bindP (liftE (validate_RefreshDto body)) (\<lambda>dto.
     let tok = readRefreshToken cookie dto in
     bindP (if truthy_str tok then logout J T now (the tok) else returnP True) (\<lambda>result.
     returnP (result, ClearCookie REFRESH_COOKIE_NAME (clearRefreshCookieOptions isProduction))))"

text \<open>\<open>TwoFactorController\<close>; all its routes but \<open>verify\<close> stand behind \<open>JwtAuthGuard\<close>.\<close>

definition get_2fa_status :: "('u, user) repo \<Rightarrow> jwt \<Rightarrow> nat \<Rightarrow> string option \<Rightarrow> (('u, 'k) auth_world, bool) proc" where
  "get_2fa_status U J now auth = jwt_guarded J now auth (\<lambda>user. status_2fa U (p_userId user))"

definition post_2fa_enroll :: "('u, user) repo \<Rightarrow> jwt \<Rightarrow> auth_libs \<Rightarrow> string \<Rightarrow> bytes \<Rightarrow> bytes \<Rightarrow> nat \<Rightarrow> string option \<Rightarrow>
    (('u, 'k) auth_world, string \<times> string) proc" where
  "post_2fa_enroll U J L secret random32 iv now auth =
     jwt_guarded J now auth (\<lambda>user. enroll U L secret random32 iv (p_userId user))"

definition post_2fa_confirm :: "('u, user) repo \<Rightarrow> jwt \<Rightarrow> auth_libs \<Rightarrow> (nat \<Rightarrow> bytes) \<Rightarrow> (nat \<Rightarrow> bytes) \<Rightarrow> bytes \<Rightarrow> nat \<Rightarrow>
    string option \<Rightarrow> string \<Rightarrow> (('u, 'k) auth_world, string list) proc" where
  "post_2fa_confirm U J L rnd salt random32 now auth code =
     jwt_guarded J now auth (\<lambda>user. bindP (liftE (validate_TwoFactorCodeDto code)) (\<lambda>c.
       confirm U L rnd salt random32 now (p_userId user) c))"

definition post_2fa_verify :: "bool \<Rightarrow> ('u, user) repo \<Rightarrow> jwt \<Rightarrow> 'k redis \<Rightarrow> 'k token_store \<Rightarrow> auth_libs \<Rightarrow> bytes \<Rightarrow> nat \<Rightarrow>
    string \<Rightarrow> string \<Rightarrow> string \<Rightarrow> (('u, 'k) auth_world, TokenPair \<times> cookie_op) proc" where
  "post_2fa_verify isProduction U J RD T L random32 now jti twoFactorToken code =
     bindP (liftE (validate_VerifyTwoFactorDto twoFactorToken code)) (\<lambda>(tok, c).
     bindP (completeTwoFactorLogin U J RD T L random32 now jti tok c) (\<lambda>tokens.
     returnP (tokens, setRefreshCookie isProduction (refreshToken tokens))))"

definition post_2fa_disable :: "('u, user) repo \<Rightarrow> jwt \<Rightarrow> 'k redis \<Rightarrow> auth_libs \<Rightarrow> bytes \<Rightarrow> nat \<Rightarrow> string option \<Rightarrow>
    string \<Rightarrow> (('u, 'k) auth_world, bool) proc" where
  "post_2fa_disable U J RD L random32 now auth code =
     jwt_guarded J now auth (\<lambda>user. bindP (liftE (validate_TwoFactorCodeDto code)) (\<lambda>c.
       disable U RD L random32 now (p_userId user) c))"

definition post_2fa_regenerate :: "('u, user) repo \<Rightarrow> jwt \<Rightarrow> 'k redis \<Rightarrow> auth_libs \<Rightarrow> (nat \<Rightarrow> bytes) \<Rightarrow> (nat \<Rightarrow> bytes) \<Rightarrow>
    bytes \<Rightarrow> nat \<Rightarrow> string option \<Rightarrow> string \<Rightarrow> (('u, 'k) auth_world, string list) proc" where
  "post_2fa_regenerate U J RD L rnd salt random32 now auth code =
     jwt_guarded J now auth (\<lambda>user. bindP (liftE (validate_TwoFactorCodeDto code)) (\<lambda>c.
       regenerateBackupCodes U RD L rnd salt random32 now (p_userId user) c))"

section \<open>The service on its interfaces\<close>

locale auth_service = account_store U tbl RD view + T: token_registry T registered + J: jwt_service J
  for U :: "('u, user) repo" and tbl :: "'u \<Rightarrow> string \<rightharpoonup> user"
    and RD :: "'k redis" and view :: "'k \<Rightarrow> redis_view"
    and T :: "'k token_store" and registered :: "nat \<Rightarrow> 'k \<Rightarrow> string \<Rightarrow> string option"
    and J :: jwt
begin

lemma issueTokens_Inr:
  assumes "issueTokens J T now jti u w = (Inr pair, w')"
  shows "pair = \<lparr>accessToken = jwt_sign J now (access_claims u) ACCESS_TTL,
      refreshToken = jwt_sign J now (refresh_claims u jti) REFRESH_TTL_SECONDS\<rparr>"
    and "w_users w' = w_users w"
    and "\<And>t. now \<le> t \<Longrightarrow> registered t (w_redis w') =
      (registered t (w_redis w))(jti := if t < now + REFRESH_TTL_SECONDS then Some (u_id u) else None)"
    and "\<exists>x. ts_save T now jti (u_id u) REFRESH_TTL_SECONDS (w_redis w) = (Inr x, w_redis w')"
proof -
  obtain x y where s: "ts_save T now jti (u_id u) REFRESH_TTL_SECONDS (w_redis w) = (Inr x, y)"
    and w': "w' = w\<lparr>w_redis := y\<rparr>"
    and p: "pair = \<lparr>accessToken = jwt_sign J now (access_claims u) ACCESS_TTL,
      refreshToken = jwt_sign J now (refresh_claims u jti) REFRESH_TTL_SECONDS\<rparr>"
    using assms by (auto simp: issueTokens_def Let_def proc_iff)
  show "pair = \<lparr>accessToken = jwt_sign J now (access_claims u) ACCESS_TTL,
      refreshToken = jwt_sign J now (refresh_claims u jti) REFRESH_TTL_SECONDS\<rparr>" by (rule p)
  show "w_users w' = w_users w" by (simp add: w')
  show "registered t (w_redis w') =
      (registered t (w_redis w))(jti := if t < now + REFRESH_TTL_SECONDS then Some (u_id u) else None)"
    if "now \<le> t" for t using T.save_registers [OF s that] by (simp add: w')
  show "\<exists>x. ts_save T now jti (u_id u) REFRESH_TTL_SECONDS (w_redis w) = (Inr x, w_redis w')"
    using s w' by auto
qed

lemma issueTokens_Inl:
  assumes "issueTokens J T now jti u w = (Inl e, w')"
  shows "e = ServiceUnavailable RedisDown" "w_users w' = w_users w"
  using assms by (auto simp: issueTokens_def Let_def proc_iff dest: T.save_fails)

lemma find_user_Inr:
  assumes "find_user U i w = (Inr u, w')"
  shows "tbl (w_users w) i = Some u" "tbl (w_users w') = tbl (w_users w)" "w_redis w' = w_redis w" "u_id u = i"
proof -
  obtain x where f: "repo_findOne U (\<lambda>u. u_id u = i) (w_users w) = (Inr (Some u), x)"
    and w': "w' = w\<lparr>w_users := x\<rparr>"
    using assms by (auto simp: find_user_def proc_iff split: option.splits)
  show "tbl (w_users w) i = Some u" "tbl (w_users w') = tbl (w_users w)" "w_redis w' = w_redis w" "u_id u = i"
    using U.findOne_by_key [OF f] U.findOne_frame [OF f] U.findOne_Some [OF f] w' by simp_all
qed

subsection \<open>Refresh\<close>

lemma refresh_Inr:
  assumes "refresh U J T now jti tok w = (Inr pair, w')"
  obtains p j u where "jwt_verify J now tok = Inr p" "cl_type p = Some ''refresh''" "cl_jti p = Some j"
    "registered now (w_redis w) j = Some (cl_userId p)" "tbl (w_users w) (cl_userId p) = Some u"
    "pair = \<lparr>accessToken = jwt_sign J now (access_claims u) ACCESS_TTL,
      refreshToken = jwt_sign J now (refresh_claims u jti) REFRESH_TTL_SECONDS\<rparr>"
    "tbl (w_users w') = tbl (w_users w)"
    "\<And>t. now \<le> t \<Longrightarrow> registered t (w_redis w') = (registered t (w_redis w))
       (j := None, jti := if t < now + REFRESH_TTL_SECONDS then Some (cl_userId p) else None)"
proof -
  obtain p where p: "jwt_verify J now tok = Inr p" "cl_type p = Some ''refresh''" "truthy_str (cl_jti p)"
    using assms by (auto simp: refresh_def split: sum.splits if_splits)
  then obtain j where j: "cl_jti p = Some j" by (auto simp: truthy_str_iff)
  obtain a b c d e u w1 where v: "ts_isValid T now j (cl_userId p) (w_redis w) = (Inr True, a)"
    and r: "ts_revoke T now j a = (Inr b, c)"
    and f: "find_user U (cl_userId p) (w\<lparr>w_redis := c\<rparr>) = (Inr u, w1)"
    and i: "issueTokens J T now jti u w1 = (Inr pair, w')"
    using assms p j by (auto simp: refresh_def bindP_Inr_iff onRedis_iff split: if_splits)
  note fu = find_user_Inr [OF f] and iss = issueTokens_Inr [OF i]
  have "registered t (w_redis w') = (registered t (w_redis w))
       (j := None, jti := if t < now + REFRESH_TTL_SECONDS then Some (cl_userId p) else None)" if "now \<le> t" for t
    using iss(3) [OF that] T.revoke_removes [OF r] T.isValid_frame [OF v] fu by simp
  with p j T.isValid_sound [OF v] fu iss show thesis
    by (intro that [of p j u]) simp_all
qed

text \<open>A token whose identifier is not registered gets no new pair.\<close>

lemma refresh_unregistered:
  assumes "jwt_verify J now tok = Inr p" "cl_jti p = Some j"
    and "registered now (w_redis w) j \<noteq> Some (cl_userId p)"
    and run: "refresh U J T now jti tok w = (r, w')"
  shows "r = Inl (Unauthorized RefreshTokenRevoked)"
proof (cases "cl_type p \<noteq> Some ''refresh'' \<or> \<not> truthy_str (cl_jti p)")
  case True
  with assms(1) run show ?thesis by (auto simp: refresh_def)
next
  case False
  obtain q a where v: "ts_isValid T now j (cl_userId p) (w_redis w) = (q, a)" by fastforce
  have "q = Inr False" by (rule T.isValid_refuses [OF assms(3) v])
  with v False assms(1,2) run show ?thesis by (simp add: refresh_def bindP_def onRedis_def liftP_def throwP_def)
qed

lemma logout_result:
  assumes run: "logout J T now tok w = (r, w')"
  shows "r = Inr True" "w_users w' = w_users w"
proof -
  show "r = Inr True"
    using run by (cases r) (auto simp: logout_def bindP_Inl_iff bindP_Inr_iff catchP_Inl_iff)
  have "keeps (\<lambda>v. w_users v = w_users w) (logout J T now tok)"
    unfolding logout_def by (cases "jwt_verify J now tok") (auto intro!: keeps_intro)
  then show "w_users w' = w_users w" using run by (rule keepsD) simp
qed

lemma logout_revokes:
  assumes "jwt_verify J now tok = Inr p" "cl_jti p = Some j" "j \<noteq> []"
    and up: "\<exists>x s. ts_revoke T now j (w_redis w) = (Inr x, s)"
    and run: "logout J T now tok w = (r, w')"
  shows "registered t (w_redis w') j = None"
proof -
  obtain x s where r: "ts_revoke T now j (w_redis w) = (Inr x, s)" using up by blast
  then have "w' = w\<lparr>w_redis := s\<rparr>"
    using run assms(1-3)
    by (simp add: logout_def bindP_def catchP_def onRedis_def liftP_def returnP_def truthy_str_def)
  then show ?thesis using T.revoke_removes [OF r] by simp
qed

subsection \<open>Login\<close>

lemma login_Inr:
  assumes "login U J T L now jti dto w = (Inr res, w')"
  obtains u where "tbl (w_users w) (u_id u) = Some u" "u_email u = ld_email dto"
      "safeArgonVerify L (u_passwordHash u) (ld_password dto)" "tbl (w_users w') = tbl (w_users w)"
      "u_twoFactorEnabled u" "w_redis w' = w_redis w"
      "res = TwoFactorChallenge (jwt_sign J now (pending_claims u) TWOFA_PENDING_TTL)"
  | u w1 pair where "tbl (w_users w) (u_id u) = Some u" "u_email u = ld_email dto"
      "safeArgonVerify L (u_passwordHash u) (ld_password dto)" "tbl (w_users w') = tbl (w_users w)"
      "\<not> u_twoFactorEnabled u" "res = Tokens pair" "w_redis w1 = w_redis w"
      "issueTokens J T now jti u w1 = (Inr pair, w')"
proof -
  obtain u x where f: "repo_findOne U (\<lambda>u. u_email u = ld_email dto) (w_users w) = (Inr (Some u), x)"
    and v: "safeArgonVerify L (u_passwordHash u) (ld_password dto)"
    and rest: "(if u_twoFactorEnabled u
         then returnP (TwoFactorChallenge (jwt_sign J now (pending_claims u) TWOFA_PENDING_TTL))
         else bindP (issueTokens J T now jti u) (\<lambda>pair. returnP (Tokens pair))) (w\<lparr>w_users := x\<rparr>) = (Inr res, w')"
    using assms by (auto simp: login_def bindP_Inr_iff [of "onUsers m" for m] onUsers_iff split: option.splits if_splits)
  note u = U.findOne_Some [OF f] U.findOne_frame [OF f]
  show thesis
  proof (cases "u_twoFactorEnabled u")
    case True
    with u v rest show thesis by (intro that(1) [of u]) auto
  next
    case False
    with rest obtain pair where i: "issueTokens J T now jti u (w\<lparr>w_users := x\<rparr>) = (Inr pair, w')" "res = Tokens pair"
      by (auto simp: bindP_Inr_iff)
    with False u v issueTokens_Inr(2) [OF i(1)] show thesis by (intro that(2) [of u pair "w\<lparr>w_users := x\<rparr>"]) auto
  qed
qed

text \<open>Without the right password, the answer does not depend on the account.\<close>

lemma login_refused:
  assumes "\<And>i u. tbl (w_users w) i = Some u \<Longrightarrow> u_email u = ld_email dto \<Longrightarrow>
      \<not> safeArgonVerify L (u_passwordHash u) (ld_password dto)"
    and run: "login U J T L now jti dto w = (r, w')"
  shows "r = Inl (Unauthorized InvalidCredentials) \<or> r = Inl LibraryError"
    and "tbl (w_users w') = tbl (w_users w)" "w_redis w' = w_redis w"
proof -
  obtain q x where f: "repo_findOne U (\<lambda>u. u_email u = ld_email dto) (w_users w) = (q, x)" by fastforce
  have "q = Inl LibraryError \<or> q = Inr None \<or> (\<exists>u. q = Inr (Some u) \<and>
      \<not> safeArgonVerify L (u_passwordHash u) (ld_password dto))"
    using f assms(1) U.findOne_Some [of "\<lambda>u. u_email u = ld_email dto"] U.findOne_error
    by (cases q) (auto, metis not_None_eq)
  then have "(r = Inl (Unauthorized InvalidCredentials) \<or> r = Inl LibraryError) \<and> w' = w\<lparr>w_users := x\<rparr>"
    using run f by (auto simp: login_def bindP_def onUsers_def liftP_def throwP_def)
  then show "r = Inl (Unauthorized InvalidCredentials) \<or> r = Inl LibraryError"
    "tbl (w_users w') = tbl (w_users w)" "w_redis w' = w_redis w"
    using U.findOne_frame [OF f] by auto
qed

subsection \<open>Registration\<close>

lemma register_Inr:
  assumes run: "register U L salt dto w = (Inr pub, w')"
  obtains i t where "rd_role dto \<in> set SELF_ASSIGNABLE_ROLES"
    "\<And>j u. tbl (w_users w) j = Some u \<Longrightarrow> u_email u \<noteq> rd_email dto"
    "pub = toPublicUser (new_user dto (a_hash L salt (rd_password dto)) i t)" "tbl (w_users w) i = None"
    "tbl (w_users w') = (tbl (w_users w))(i \<mapsto> new_user dto (a_hash L salt (rd_password dto)) i t)"
    "w_redis w' = w_redis w"
proof -
  obtain x u y where role: "rd_role dto \<in> set SELF_ASSIGNABLE_ROLES"
    and f: "repo_findOne U (\<lambda>u. u_email u = rd_email dto) (w_users w) = (Inr None, x)"
    and ins: "repo_insert U (new_user dto (a_hash L salt (rd_password dto))) x = (Inr u, y)"
    and w': "w' = w\<lparr>w_users := y\<rparr>" and pub: "pub = toPublicUser u"
    using run by (auto simp: register_def bindP_Inr_iff onUsers_iff Let_def split: if_splits)
  obtain i t where u: "u = new_user dto (a_hash L salt (rd_password dto)) i t"
    and y: "tbl y = (tbl x)(u_id u \<mapsto> u)" "u_id u = i \<longrightarrow> tbl x i = None"
    using U.insert_row [OF ins] by blast
  have "u_id u = i" by (simp add: u new_user_def)
  with role f u y w' pub U.findOne_frame [OF f] U.findOne_None [OF f] show thesis
    by (intro that [of i t]) auto
qed

lemma register_Inl:
  assumes run: "register U L salt dto w = (Inl e, w')"
  shows "tbl (w_users w') = tbl (w_users w) \<and> w_redis w' = w_redis w"
proof (cases "rd_role dto \<in> set SELF_ASSIGNABLE_ROLES")
  case False
  with run show ?thesis by (simp add: register_def)
next
  case True
  obtain q x where f: "repo_findOne U (\<lambda>u. u_email u = rd_email dto) (w_users w) = (q, x)" by fastforce
  show ?thesis
  proof (cases "q = Inr None")
    case True
    with run f \<open>rd_role dto \<in> _\<close> obtain y where
      "repo_insert U (new_user dto (a_hash L salt (rd_password dto))) x = (Inl e, y)" "w' = w\<lparr>w_users := y\<rparr>"
      by (auto simp: register_def bindP_Inl_iff onUsers_iff Let_def split: if_splits)
    then show ?thesis using U.findOne_frame [OF f] U.insert_frame by simp
  next
    case False
    with run f \<open>rd_role dto \<in> _\<close> have "w' = w\<lparr>w_users := x\<rparr>"
      by (cases q) (auto simp: register_def bindP_def onUsers_def liftP_def throwP_def)
    then show ?thesis using U.findOne_frame [OF f] by simp
  qed
qed

end

interpretation mem_auth: auth_service users_table "mem_tbl u_id" mem_redis "\<lambda>v. v"
  "TokenStore mem_redis" registered_in mem_jwt
  ..

lemma auth_serviceI:
  assumes "repository U tbl u_id" "redis_server RD view" "jwt_service J"
  shows "auth_service U tbl RD view (TokenStore RD) (\<lambda>t s. registered_in t (view s)) J"
  using assms by (intro auth_service.intro account_store.intro redis_server.TokenStore_registry)

section \<open>Properties\<close>


definition sample_dto :: RegisterDto where
  "sample_dto = \<lparr>rd_email = ''c@d.fr'', rd_username = ''C'', rd_password = ''secret12'', rd_role = FREELANCE,
     rd_location = Some (48, 2)\<rparr>"


text \<open>
  Login does not reveal accounts. With a wrong password the answer is the same whether the
  address is registered, unregistered, with or without 2FA, and nothing is stored.
\<close>

theorem login_no_enumeration:
  assumes "repository U tbl u_id" "redis_server RD view" "jwt_service J"
    and "\<And>i u. tbl (w_users w) i = Some u \<Longrightarrow> u_email u = ld_email dto \<Longrightarrow>
      \<not> safeArgonVerify L (u_passwordHash u) (ld_password dto)"
    and "login U J (TokenStore RD) L now jti dto w = (r, w')"
  shows "r \<in> {Inl (Unauthorized InvalidCredentials), Inl LibraryError} \<and>
    tbl (w_users w') = tbl (w_users w) \<and> w_redis w' = w_redis w"
  using auth_service.login_refused [OF auth_serviceI [OF assms(1-3)] assms(4,5)] by auto

theorem login_no_enumeration_witness:
  "let run = login users_table mem_jwt (TokenStore mem_redis) sample_libs 10 ''j1''
       \<lparr>ld_email = ''a@b.fr'', ld_password = ''wrong''\<rparr> (sample_world Map.empty)
   in fst run \<in> {Inl (Unauthorized InvalidCredentials), Inl LibraryError} \<and> w_redis (snd run) = Map.empty"
proof -
  let ?dto = "\<lparr>ld_email = ''a@b.fr'', ld_password = ''wrong''\<rparr>"
  have "mem_tbl u_id (w_users (sample_world Map.empty)) i = Some u \<Longrightarrow> u_email u = ld_email ?dto \<Longrightarrow>
      \<not> safeArgonVerify sample_libs (u_passwordHash u) (ld_password ?dto)" for i u
    by (auto simp: mem_tbl_def sample_user_def split: if_splits)
  then have "fst (login users_table mem_jwt (TokenStore mem_redis) sample_libs 10 ''j1'' ?dto (sample_world Map.empty))
      \<in> {Inl (Unauthorized InvalidCredentials), Inl LibraryError} \<and>
      mem_tbl u_id (w_users (snd (login users_table mem_jwt (TokenStore mem_redis) sample_libs 10 ''j1'' ?dto
        (sample_world Map.empty)))) = mem_tbl u_id (w_users (sample_world Map.empty)) \<and>
      w_redis (snd (login users_table mem_jwt (TokenStore mem_redis) sample_libs 10 ''j1'' ?dto
        (sample_world Map.empty))) = w_redis (sample_world Map.empty)"
    by (rule login_no_enumeration [OF users_tbl.repository_axioms mem_rd.redis_server_axioms
          mem_jwt.jwt_service_axioms _ prod.collapse [symmetric]])
  then show ?thesis unfolding Let_def by simp
qed

text \<open>
  C5. Two-step login. For an account with 2FA, the right password opens no session: Redis is
  unchanged, and the only token handed out is refused by the guard of every protected route and
  by the refresh route, and is accepted for five minutes by the second step only.
\<close>

theorem two_factor_login_opens_no_session:
  assumes "repository U tbl u_id" "redis_server RD view" "jwt_service J"
    and all_2fa: "\<And>i u. tbl (w_users w) i = Some u \<Longrightarrow> u_email u = ld_email dto \<Longrightarrow> u_twoFactorEnabled u"
    and run: "login U J (TokenStore RD) L now jti dto w = (Inr res, w')"
  shows "\<exists>tok. res = TwoFactorChallenge tok \<and> w_redis w' = w_redis w \<and>
    (\<forall>t. \<exists>m. JwtAuthGuard_canActivate J t (Some (''Bearer '' @ tok)) = Inl (Unauthorized m)) \<and>
    (\<forall>t j v. \<exists>m. fst (refresh U J (TokenStore RD) t j tok v) = Inl (Unauthorized m)) \<and>
    (\<forall>t. now + TWOFA_PENDING_TTL \<le> t \<longrightarrow> (\<exists>e. jwt_verify J t tok = Inl e))"
proof -
  have auth: "auth_service U tbl RD view (TokenStore RD) (\<lambda>t s. registered_in t (view s)) J"
    by (rule auth_serviceI [OF assms(1-3)])
  obtain u where res: "res = TwoFactorChallenge (jwt_sign J now (pending_claims u) TWOFA_PENDING_TTL)"
    and red: "w_redis w' = w_redis w"
    by (rule auth_service.login_Inr [OF auth run]) (use all_2fa in auto)
  let ?tok = "jwt_sign J now (pending_claims u) TWOFA_PENDING_TTL"
  have live_or: "t < now + TWOFA_PENDING_TTL \<or> now + TWOFA_PENDING_TTL \<le> t" for t by linarith
  have "\<exists>m. JwtAuthGuard_canActivate J t (Some (''Bearer '' @ ?tok)) = Inl (Unauthorized m)" for t
    using live_or [of t] jwt_service.guard_signed [OF assms(3)] jwt_service.guard_expired [OF assms(3)]
    by (auto simp: pending_claims_def simp del: append.simps)
  moreover have "\<exists>m. fst (refresh U J (TokenStore RD) t j ?tok v) = Inl (Unauthorized m)" for t j v
    using live_or [of t] jwt_service.verify_live [OF assms(3), of t now TWOFA_PENDING_TTL "pending_claims u"]
      jwt_service.verify_expired [OF assms(3), of now TWOFA_PENDING_TTL t "pending_claims u"]
    by (auto simp: refresh_def pending_claims_def throwP_def)
  moreover have "\<forall>t. now + TWOFA_PENDING_TTL \<le> t \<longrightarrow> (\<exists>e. jwt_verify J t ?tok = Inl e)"
    using jwt_service.verify_expired [OF assms(3)] by blast
  ultimately show ?thesis using res red by blast
qed

lemma sample_find_email:
  "repo_findOne users_table (\<lambda>u. u_email u = ''a@b.fr'') [sample_user] = (Inr (Some sample_user), [sample_user])"
  by (simp add: table_run table_rows) (simp add: sample_user_def)

lemma sample_password: "u_passwordHash sample_user = ''h:secret12''" "u_email sample_user = ''a@b.fr''"
  by (simp_all add: sample_user_def)

theorem two_factor_login_opens_no_session_witness:
  "\<exists>tok. fst (login users_table mem_jwt (TokenStore mem_redis) sample_libs 10 ''j1''
       \<lparr>ld_email = ''a@b.fr'', ld_password = ''secret12''\<rparr> (sample_world Map.empty)) = Inr (TwoFactorChallenge tok) \<and>
     (\<forall>t j v. \<exists>m. fst (refresh users_table mem_jwt (TokenStore mem_redis) t j tok v) = Inl (Unauthorized m))"
proof -
  let ?dto = "\<lparr>ld_email = ''a@b.fr'', ld_password = ''secret12''\<rparr>"
  let ?run = "login users_table mem_jwt (TokenStore mem_redis) sample_libs 10 ''j1'' ?dto (sample_world Map.empty)"
  have f: "fst ?run = Inr (TwoFactorChallenge (jwt_sign mem_jwt 10 (pending_claims sample_user) TWOFA_PENDING_TTL))"
    by (simp add: login_def bindP_def onUsers_def liftP_def sample_find_email sample_password returnP_def)
  then have run: "?run = (Inr (TwoFactorChallenge (jwt_sign mem_jwt 10 (pending_claims sample_user) TWOFA_PENDING_TTL)), snd ?run)"
    by (simp add: prod_eq_iff)
  have "mem_tbl u_id (w_users (sample_world Map.empty)) i = Some u \<Longrightarrow> u_email u = ld_email ?dto \<Longrightarrow> u_twoFactorEnabled u"
    for i u by (auto simp: mem_tbl_def split: if_splits)
  from two_factor_login_opens_no_session [OF users_tbl.repository_axioms mem_rd.redis_server_axioms
      mem_jwt.jwt_service_axioms this run]
  show ?thesis using f by auto
qed

text \<open>
  C6. The second step. It returns tokens only for a token of its own type whose user then
  passed the verification of the code; an access or a refresh token signed by this application
  is refused, without touching users or Redis.
\<close>

theorem second_step_needs_code:
  assumes "jwt_service J"
  shows "(completeTwoFactorLogin U J RD T L r32 now jti tok code w = (Inr pair, w') \<longrightarrow>
      (\<exists>p w1. jwt_verify J now tok = Inr p \<and> cl_type p = Some ''twofa_pending'' \<and>
         verifyCode U RD L r32 now (cl_userId p) code w = (Inr True, w1))) \<and>
    (cl_type c \<noteq> Some ''twofa_pending'' \<longrightarrow>
      completeTwoFactorLogin U J RD T L r32 now jti (jwt_sign J t c ttl) code w =
        (Inl (Unauthorized TwoFactorSessionExpired), w))"
proof (intro conjI impI)
  assume "completeTwoFactorLogin U J RD T L r32 now jti tok code w = (Inr pair, w')"
  then show "\<exists>p w1. jwt_verify J now tok = Inr p \<and> cl_type p = Some ''twofa_pending'' \<and>
         verifyCode U RD L r32 now (cl_userId p) code w = (Inr True, w1)"
    by (auto simp: completeTwoFactorLogin_def bindP_Inr_iff split: sum.splits if_splits)
next
  assume c: "cl_type c \<noteq> Some ''twofa_pending''"
  show "completeTwoFactorLogin U J RD T L r32 now jti (jwt_sign J t c ttl) code w =
        (Inl (Unauthorized TwoFactorSessionExpired), w)"
  proof (cases "now < t + ttl")
    case True
    with c show ?thesis
      by (simp add: completeTwoFactorLogin_def jwt_service.verify_live [OF assms] throwP_def)
  next
    case False
    then obtain e where "jwt_verify J now (jwt_sign J t c ttl) = Inl e"
      using jwt_service.verify_expired [OF assms, of t ttl now] by auto
    then show ?thesis by (simp add: completeTwoFactorLogin_def throwP_def)
  qed
qed

theorem second_step_needs_code_witness:
  "completeTwoFactorLogin users_table mem_jwt mem_redis (TokenStore mem_redis) sample_libs [] 20 ''j2''
     (jwt_sign mem_jwt 10 (access_claims sample_user) ACCESS_TTL) ''123456'' (sample_world Map.empty) =
   (Inl (Unauthorized TwoFactorSessionExpired), sample_world Map.empty)"
  using second_step_needs_code [OF mem_jwt.jwt_service_axioms, of users_table mem_redis "TokenStore mem_redis" sample_libs
      "[]" 20 "''j2''" _ "''123456''" "sample_world Map.empty" _ _ "access_claims sample_user" 10 ACCESS_TTL]
  by (simp add: access_claims_def)

text \<open>
  C7. Rotation of refresh tokens. A refresh succeeds only for a signed refresh token whose
  identifier is registered for its user. The new pair carries the user's current data; from then
  on the old identifier is not registered, the new one is, for seven days, and a second refresh
  with the old token is refused at any later time.
\<close>

theorem refresh_rotates:
  assumes "repository U tbl u_id" "redis_server RD view" "jwt_service J"
    and run: "refresh U J (TokenStore RD) now jti tok w = (Inr pair, w')"
    and fresh: "\<And>p. jwt_verify J now tok = Inr p \<Longrightarrow> cl_jti p \<noteq> Some jti"
  shows "\<exists>p j u. jwt_verify J now tok = Inr p \<and> cl_type p = Some ''refresh'' \<and> cl_jti p = Some j \<and>
    registered_in now (view (w_redis w)) j = Some (cl_userId p) \<and> tbl (w_users w) (cl_userId p) = Some u \<and>
    accessToken pair = jwt_sign J now (access_claims u) ACCESS_TTL \<and>
    (\<forall>t \<ge> now. registered_in t (view (w_redis w')) j = None \<and>
       registered_in t (view (w_redis w')) jti = (if t < now + REFRESH_TTL_SECONDS then Some (u_id u) else None)) \<and>
    (\<forall>t jti2. now \<le> t \<longrightarrow> jwt_verify J t tok = Inr p \<longrightarrow>
       fst (refresh U J (TokenStore RD) t jti2 tok w') = Inl (Unauthorized RefreshTokenRevoked))"
proof -
  have auth: "auth_service U tbl RD view (TokenStore RD) (\<lambda>t s. registered_in t (view s)) J"
    by (rule auth_serviceI [OF assms(1-3)])
  obtain p j u where p: "jwt_verify J now tok = Inr p" "cl_type p = Some ''refresh''" "cl_jti p = Some j"
    "registered_in now (view (w_redis w)) j = Some (cl_userId p)" "tbl (w_users w) (cl_userId p) = Some u"
    and pair: "pair = \<lparr>accessToken = jwt_sign J now (access_claims u) ACCESS_TTL,
      refreshToken = jwt_sign J now (refresh_claims u jti) REFRESH_TTL_SECONDS\<rparr>"
    and reg: "\<And>t. now \<le> t \<Longrightarrow> registered_in t (view (w_redis w')) = (registered_in t (view (w_redis w)))
       (j := None, jti := if t < now + REFRESH_TTL_SECONDS then Some (cl_userId p) else None)"
    by (rule auth_service.refresh_Inr [OF auth run]) blast
  have id: "u_id u = cl_userId p" by (rule repository.tbl_key [OF assms(1) p(5)])
  have j: "j \<noteq> jti" using fresh [OF p(1)] p(3) by simp
  have replay: "fst (refresh U J (TokenStore RD) t jti2 tok w') = Inl (Unauthorized RefreshTokenRevoked)"
    if "now \<le> t" "jwt_verify J t tok = Inr p" for t jti2
    by (rule auth_service.refresh_unregistered [OF auth that(2) p(3) _ prod.collapse [symmetric]])
      (simp add: reg [OF that(1)] j)
  have old: "registered_in t (view (w_redis w')) j = None \<and>
      registered_in t (view (w_redis w')) jti = (if t < now + REFRESH_TTL_SECONDS then Some (u_id u) else None)"
    if "now \<le> t" for t by (simp add: reg [OF that] j id)
  show ?thesis
    by (intro exI [of _ p] exI [of _ j] exI [of _ u]) (use p pair old replay in simp)
qed

text \<open>A world in which the sample user, without 2FA, holds the refresh token \<open>j1\<close>.\<close>

definition plain_user :: user where
  "plain_user = sample_user\<lparr>u_twoFactorEnabled := False\<rparr>"

definition session_world :: "redis_view \<Rightarrow> (user list, redis_view) auth_world" where
  "session_world v = \<lparr>w_users = [plain_user], w_redis = v, w_key = Some []\<rparr>"

definition j1_view :: redis_view where
  "j1_view = [refresh_key ''j1'' \<mapsto> (RStr ''u1'', Some 604810), user_jtis_key ''u1'' \<mapsto> (RSet [''j1''], Some 604810)]"

definition j1_token :: string where
  "j1_token = jwt_sign mem_jwt 10 (refresh_claims plain_user ''j1'') REFRESH_TTL_SECONDS"

lemma plain_fields [simp]: "u_id plain_user = ''u1''" "\<not> u_twoFactorEnabled plain_user"
  by (simp_all add: plain_user_def)

lemma session_fields [simp]:
  "w_users (session_world v) = [plain_user]" "w_redis (session_world v) = v" "w_key (session_world v) = Some []"
  by (simp_all add: session_world_def)

lemma plain_find: "repo_findOne users_table (\<lambda>u. u_id u = ''u1'') [plain_user] = (Inr (Some plain_user), [plain_user])"
  by (simp add: table_run table_rows)

lemma j1_verify: "t < 604810 \<Longrightarrow> jwt_verify mem_jwt t j1_token = Inr (refresh_claims plain_user ''j1'')"
  unfolding j1_token_def by (rule mem_jwt.verify_live) (simp add: REFRESH_TTL_SECONDS_def)

lemma mem_save_ok:
  "fst (TokenStore_save mem_redis now j u ttl v) = Inr ()"
  by (simp add: TokenStore_save_def bindP_def catchP_def mem_redis_def returnP_def)

theorem refresh_rotates_witness:
  "let run = refresh users_table mem_jwt (TokenStore mem_redis) 20 ''j2'' j1_token (session_world j1_view)
   in (\<exists>pair. fst run = Inr pair) \<and> registered_in 30 (w_redis (snd run)) ''j2'' = Some ''u1'' \<and>
      fst (refresh users_table mem_jwt (TokenStore mem_redis) 30 ''j3'' j1_token (snd run)) =
        Inl (Unauthorized RefreshTokenRevoked)"
proof -
  let ?run = "refresh users_table mem_jwt (TokenStore mem_redis) 20 ''j2'' j1_token (session_world j1_view)"
  obtain x v where s: "TokenStore_save mem_redis 20 ''j2'' ''u1'' REFRESH_TTL_SECONDS
      (apply_command 20 (DEL [refresh_key ''j1'']) j1_view) = (x, v)" by fastforce
  have x: "x = Inr ()" using mem_save_ok [of 20 "''j2''" "''u1''" REFRESH_TTL_SECONDS
      "apply_command 20 (DEL [refresh_key ''j1'']) j1_view"] by (simp add: s del: apply_command.simps)
  have "r_get mem_redis 20 (refresh_key ''j1'') j1_view = (Inr (Some (RStr ''u1'')), j1_view)"
    "r_del mem_redis 20 [refresh_key ''j1''] j1_view = (Inr 1, apply_command 20 (DEL [refresh_key ''j1'']) j1_view)"
    by (simp_all add: mem_redis_def j1_view_def live_def)
  then have ok: "\<exists>pair. fst ?run = Inr pair"
    by (simp add: refresh_def j1_verify bindP_def onRedis_def onUsers_def liftP_def TokenStore_isValid_def catchP_def
        TokenStore_revoke_def find_user_def issueTokens_def session_world_def plain_find returnP_def Let_def s x
        refresh_claims_def truthy_str_def del: apply_command.simps)
  then obtain pair where run: "?run = (Inr pair, snd ?run)" by (metis prod.collapse)
  have "\<exists>p j u. jwt_verify mem_jwt 20 j1_token = Inr p \<and> cl_type p = Some ''refresh'' \<and> cl_jti p = Some j \<and>
    registered_in 20 (w_redis (session_world j1_view)) j = Some (cl_userId p) \<and>
    mem_tbl u_id (w_users (session_world j1_view)) (cl_userId p) = Some u \<and>
    accessToken pair = jwt_sign mem_jwt 20 (access_claims u) ACCESS_TTL \<and>
    (\<forall>t \<ge> 20. registered_in t (w_redis (snd ?run)) j = None \<and>
       registered_in t (w_redis (snd ?run)) ''j2'' = (if t < 20 + REFRESH_TTL_SECONDS then Some (u_id u) else None)) \<and>
    (\<forall>t jti2. 20 \<le> t \<longrightarrow> jwt_verify mem_jwt t j1_token = Inr p \<longrightarrow>
       fst (refresh users_table mem_jwt (TokenStore mem_redis) t jti2 j1_token (snd ?run)) = Inl (Unauthorized RefreshTokenRevoked))"
    by (rule refresh_rotates [OF users_tbl.repository_axioms mem_rd.redis_server_axioms mem_jwt.jwt_service_axioms run])
      (simp add: j1_verify refresh_claims_def)
  then obtain p j u where p: "jwt_verify mem_jwt 20 j1_token = Inr p"
    and u: "mem_tbl u_id [plain_user] (cl_userId p) = Some u"
    and new: "registered_in 30 (w_redis (snd ?run)) ''j2'' = Some (u_id u)"
    and replay: "jwt_verify mem_jwt 30 j1_token = Inr p \<longrightarrow>
      fst (refresh users_table mem_jwt (TokenStore mem_redis) 30 ''j3'' j1_token (snd ?run)) = Inl (Unauthorized RefreshTokenRevoked)"
    by (auto simp: REFRESH_TTL_SECONDS_def)
  have "p = refresh_claims plain_user ''j1''" "u = plain_user"
    using p u by (auto simp: j1_verify mem_tbl_def split: if_splits)
  then show ?thesis using ok new replay unfolding Let_def by (simp add: j1_verify)
qed


lemma mem_revoke_ok: "TokenStore_revoke mem_redis now j v = (Inr (), apply_command now (DEL [refresh_key j]) v)"
  by (simp add: TokenStore_revoke_def bindP_def catchP_def mem_redis_def returnP_def)

lemma mem_sign_not_Nil: "jwt_sign mem_jwt now c ttl \<noteq> []"
  by (simp add: mem_jwt_def nats_encode_def)



lemma mem_revokeAll_ok: "\<exists>k. TokenStore_revokeAllForUser mem_redis now u v = (Inr (), k)"
  by (simp add: TokenStore_revokeAllForUser_def bindP_def mem_redis_run returnP_def del: apply_command.simps)


end
