(* ===== verification/FrontForms.thy ===== *)
theory FrontForms
  imports FrontSession Auth
begin

text \<open>
  The forms of the web client (\<open>frontend-web/src\<close>): declaring gear (\<open>pages/AddGear.tsx\<close>), searching
  (\<open>features/matching/SearchFilters.tsx\<close>, \<open>pages/Search.tsx\<close>), registering (\<open>pages/Register.tsx\<close>), logging in
  (\<open>pages/Login.tsx\<close>), the second factor (\<open>features/auth/TwoFactorSettings.tsx\<close>) and writing a message
  (\<open>pages/MessageThread.tsx\<close>): what a submission sends, against the DTOs of the server, and what its
  answer shows. An error message that the page writes itself is named by what caused it.
\<close>

section \<open>Numbers typed in a field\<close>

text \<open>\<open>Number(s)\<close>, \<open>None\<close> when it is not finite; the double is taken to be the exact decimal.\<close>

definition digit_of :: "char \<Rightarrow> nat option" where
  "digit_of c = (if CHR ''0'' \<le> c \<and> c \<le> CHR ''9'' then Some (of_char c - of_char CHR ''0'')
     else if CHR ''a'' \<le> c \<and> c \<le> CHR ''f'' then Some (of_char c - of_char CHR ''a'' + 10)
     else if CHR ''A'' \<le> c \<and> c \<le> CHR ''F'' then Some (of_char c - of_char CHR ''A'' + 10) else None)"

definition radix_value :: "nat \<Rightarrow> string \<Rightarrow> rat option" where
  "radix_value base s = (if s \<noteq> [] \<and> list_all (\<lambda>c. \<exists>d \<in> set_option (digit_of c). d < base) s
     then Some (of_nat (fold (\<lambda>c v. v * base + the (digit_of c)) s 0)) else None)"

definition take_sign :: "string \<Rightarrow> int \<times> string" where
  "take_sign s = (case s of [] \<Rightarrow> (1, [])
     | c # r \<Rightarrow> if c = CHR ''-'' then (- 1, r) else if c = CHR ''+'' then (1, r) else (1, s))"

definition exponent_of :: "string \<Rightarrow> int option" where
  "exponent_of s = (case s of [] \<Rightarrow> Some 0
     | c # r \<Rightarrow> if c \<noteq> CHR ''e'' \<and> c \<noteq> CHR ''E'' then None
         else let (sg, ds) = take_sign r in
           if ds \<noteq> [] \<and> list_all is_decimal ds then Some (sg * int (decimal_value ds)) else None)"

definition unsigned_decimal :: "string \<Rightarrow> rat option" where
  "unsigned_decimal s =
     (let ip = takeWhile is_decimal s; r = dropWhile is_decimal s;
          dot = (case r of c # _ \<Rightarrow> c = CHR ''.'' | [] \<Rightarrow> False);
          fp = (if dot then takeWhile is_decimal (tl r) else []);
          r' = (if dot then dropWhile is_decimal (tl r) else r)
      in if ip = [] \<and> fp = [] then None
         else map_option (\<lambda>e. let k = e - int (length fp); v = of_nat (decimal_value (ip @ fp))
             in if 0 \<le> k then v * 10 ^ nat k else v / 10 ^ nat (- k)) (exponent_of r'))"

definition js_Number :: "string \<Rightarrow> rat option" where
  "js_Number s =
     (let t = js_trim s in
      if t = [] then Some 0
      else if js_startsWith t ''0x'' \<or> js_startsWith t ''0X'' then radix_value 16 (drop 2 t)
      else if js_startsWith t ''0o'' \<or> js_startsWith t ''0O'' then radix_value 8 (drop 2 t)
      else if js_startsWith t ''0b'' \<or> js_startsWith t ''0B'' then radix_value 2 (drop 2 t)
      else let (sg, u) = take_sign t in map_option (\<lambda>v. of_int sg * v) (unsigned_decimal u))"

section \<open>Cities\<close>

record City =
  c_name :: string
  c_lat :: rat
  c_lon :: rat

definition CITIES :: "City list" where
  "CITIES =
    [\<lparr>c_name = ''Paris'', c_lat = 488566 / 10000, c_lon = 23522 / 10000\<rparr>,
     \<lparr>c_name = ''Marseille'', c_lat = 432965 / 10000, c_lon = 53698 / 10000\<rparr>,
     \<lparr>c_name = ''Lyon'', c_lat = 45764 / 1000, c_lon = 48357 / 10000\<rparr>,
     \<lparr>c_name = ''Toulouse'', c_lat = 436045 / 10000, c_lon = 14442 / 10000\<rparr>,
     \<lparr>c_name = ''Nice'', c_lat = 437102 / 10000, c_lon = 7262 / 1000\<rparr>,
     \<lparr>c_name = ''Nantes'', c_lat = 472184 / 10000, c_lon = - 15536 / 10000\<rparr>,
     \<lparr>c_name = ''Montpellier'', c_lat = 436108 / 10000, c_lon = 38767 / 10000\<rparr>,
     \<lparr>c_name = ''Strasbourg'', c_lat = 485734 / 10000, c_lon = 77521 / 10000\<rparr>,
     \<lparr>c_name = ''Bordeaux'', c_lat = 448378 / 10000, c_lon = - 5792 / 10000\<rparr>,
     \<lparr>c_name = ''Lille'', c_lat = 506292 / 10000, c_lon = 30573 / 10000\<rparr>,
     \<lparr>c_name = ''Rennes'', c_lat = 481173 / 10000, c_lon = - 16778 / 10000\<rparr>,
     \<lparr>c_name = ''Grenoble'', c_lat = 451885 / 10000, c_lon = 57245 / 10000\<rparr>]"

text \<open>\<open>CITIES.find(\<dots>) ?? CITIES[0]\<close>.\<close>

definition city_named :: "string \<Rightarrow> City" where
  "city_named name = (case find (\<lambda>c. c_name c = name) CITIES of Some c \<Rightarrow> c | None \<Rightarrow> hd CITIES)"

section \<open>Declaring gear\<close>

datatype FieldName = CategoryField | BrandField | ModelField | SerialField

record AddGearInput =
  ai_category :: "GearCategory option"
  ai_brand :: string
  ai_model :: string
  ai_serialNumber :: string

text \<open>\<open>None\<close> is the empty choice of the list.\<close>

definition GEAR_CATEGORIES :: "GearCategory list" where
  "GEAR_CATEGORIES = [DRONE, CAMERA_360, ROBOTICS, SENSOR, GearCategory.OTHER]"

text \<open>The fields that have an error.\<close>

definition validate_input :: "AddGearInput \<Rightarrow> FieldName list" where
  "validate_input input =
     (if ai_category input \<notin> Some ` set GEAR_CATEGORIES then [CategoryField] else []) @
     (if js_trim (ai_brand input) = [] then [BrandField] else []) @
     (if js_trim (ai_model input) = [] then [ModelField] else []) @
     (if length (js_trim (ai_serialNumber input)) < 5 then [SerialField] else [])"

datatype 'a submission = Refused "FieldName list" | Sent 'a

definition handleSubmit_gear :: "GearCategory option \<Rightarrow> string \<Rightarrow> string \<Rightarrow> string \<Rightarrow> AddGearInput submission" where
  "handleSubmit_gear category brand model serialNumber =
     (let input = \<lparr>ai_category = category, ai_brand = js_trim brand, ai_model = js_trim model,
            ai_serialNumber = js_trim serialNumber\<rparr>;
          errors = validate_input input
      in if errors \<noteq> [] then Refused errors else Sent input)"

text \<open>The error of the API: the \<open>message\<close> of a 400, one or several, or a generic one.\<close>

datatype api_message = NoMessage | OneMessage string | ManyMessages "string list"

datatype gear_api_error = Shown string | Unavailable

definition apiError_gear :: "nat option \<Rightarrow> api_message \<Rightarrow> gear_api_error" where
  "apiError_gear status body =
     (let messages = (if status = Some 400 then
          (case body of NoMessage \<Rightarrow> [] | OneMessage m \<Rightarrow> if m = [] then [] else [m] | ManyMessages ms \<Rightarrow> ms) else [])
      in if length messages > 0 then Shown (js_join '' '' messages) else Unavailable)"

section \<open>Searching\<close>

record SearchCriteria =
  sc_skills :: "string list"
  sc_lat :: rat
  sc_lon :: rat
  sc_radiusKm :: rat

datatype search_error = NoSkill | BadRadius

definition handleSubmit_search :: "string \<Rightarrow> string \<Rightarrow> string \<Rightarrow> search_error + SearchCriteria" where
  "handleSubmit_search skillsRaw cityName radiusKm =
     (let skills = filter (\<lambda>skill. skill \<noteq> []) (map js_trim (js_split (CHR '','') skillsRaw)) in
      if length skills = 0 then Inl NoSkill
      else (case js_Number radiusKm of
          None \<Rightarrow> Inl BadRadius
        | Some radius \<Rightarrow> if radius < 1 \<or> radius > 500 then Inl BadRadius
            else let city = city_named cityName in
              Inr \<lparr>sc_skills = skills, sc_lat = c_lat city, sc_lon = c_lon city, sc_radiusKm = radius\<rparr>))"

text \<open>The screen: the area on the map is that of the search that was sent.\<close>

record search_page =
  sp_submittedArea :: "(rat \<times> rat \<times> rat) option"
  sp_sent :: "SearchCriteria list"

definition handleSearch :: "SearchCriteria \<Rightarrow> search_page \<Rightarrow> search_page" where
  "handleSearch criteria p = p\<lparr>sp_submittedArea := Some (sc_lat criteria, sc_lon criteria, sc_radiusKm criteria),
     sp_sent := sp_sent p @ [criteria]\<rparr>"

datatype search_api_error = RecruitersOnly | MatchingUnavailable

definition apiError_search :: "nat option \<Rightarrow> search_api_error" where
  "apiError_search status = (if status = Some 403 then RecruitersOnly else MatchingUnavailable)"

section \<open>Registering\<close>

definition handleSubmit_register :: "string \<Rightarrow> string \<Rightarrow> string \<Rightarrow> UserRole \<Rightarrow> string \<Rightarrow> register_body option" where
  "handleSubmit_register email username password role cityName =
     (if length password < 8 then None
      else Some \<lparr>rb_email = Some email, rb_username = Some username, rb_password = Some password, rb_role = Some role,
          rb_location = (if role = FREELANCE then (let city = city_named cityName in
             LocationDto (Some (c_lat city)) (Some (c_lon city))) else NoLocation)\<rparr>)"

text \<open>The choices of the role list.\<close>

definition ROLES :: "UserRole list" where
  "ROLES = [FREELANCE, RECRUITER]"

section \<open>Writing a message\<close>

definition handleSubmit_message :: "string \<Rightarrow> string option" where
  "handleSubmit_message draft = (let body = js_trim draft in if body = [] then None else Some body)"

text \<open>The draft and the error after the acknowledgement.\<close>

definition message_result :: "string \<Rightarrow> string option \<Rightarrow> string \<times> string option" where
  "message_result draft failure = (case failure of None \<Rightarrow> ([], None) | Some e \<Rightarrow> (draft, Some e))"

section \<open>Logging in\<close>

datatype login_error = ShortPassword | BadCredentials | TooManyAttempts | BadCode

text \<open>\<open>lp_at\<close> is where the page went, \<open>None\<close> while it is shown; \<open>lp_from\<close> the route it was reached from.\<close>

record login_page =
  lp_from :: string
  lp_twoFactorToken :: "string option"
  lp_error :: "login_error option"
  lp_submitting :: bool
  lp_at :: "string option"

definition login_page0 :: "string option \<Rightarrow> login_page" where
  "login_page0 from = \<lparr>lp_from = (case from of Some f \<Rightarrow> f | None \<Rightarrow> ''/''), lp_twoFactorToken = None, lp_error = None,
     lp_submitting = False, lp_at = None\<rparr>"

text \<open>Up to the call: what is sent, and the page.\<close>

definition handleSubmit_login :: "string \<Rightarrow> string \<Rightarrow> login_page \<Rightarrow> (string \<times> string) option \<times> login_page" where
  "handleSubmit_login email password p =
     (if length password < 8 then (None, p\<lparr>lp_error := Some ShortPassword\<rparr>)
      else (Some (email, password), p\<lparr>lp_error := None, lp_submitting := True\<rparr>))"

text \<open>From its answer on; \<open>login\<close> rejects (\<open>None\<close>) or gives its outcome.\<close>

definition login_answered :: "string option option \<Rightarrow> login_page \<Rightarrow> login_page" where
  "login_answered outcome p = (case outcome of
      Some (Some token) \<Rightarrow> p\<lparr>lp_twoFactorToken := Some token, lp_submitting := False\<rparr>
    | Some None \<Rightarrow> p\<lparr>lp_at := Some (lp_from p), lp_submitting := False\<rparr>
    | None \<Rightarrow> p\<lparr>lp_error := Some BadCredentials, lp_submitting := False\<rparr>)"

definition handleVerify :: "string \<Rightarrow> login_page \<Rightarrow> (string \<times> string) option \<times> login_page" where
  "handleVerify code p = (if \<not> truthy_str (lp_twoFactorToken p) then (None, p\<lparr>lp_error := None\<rparr>)
     else (Some (the (lp_twoFactorToken p), js_trim code), p\<lparr>lp_error := None, lp_submitting := True\<rparr>))"

text \<open>\<open>verifyTwoFactor\<close> resolves, or rejects with a status or without one.\<close>

definition verify_answered :: "nat option + unit \<Rightarrow> login_page \<Rightarrow> login_page" where
  "verify_answered outcome p = (case outcome of
      Inr _ \<Rightarrow> p\<lparr>lp_at := Some (lp_from p), lp_submitting := False\<rparr>
    | Inl status \<Rightarrow> p\<lparr>lp_error := Some (if status = Some 429 then TooManyAttempts else BadCode), lp_submitting := False\<rparr>)"

datatype login_screen = CodeForm "login_error option" bool | PasswordForm "login_error option" bool

definition Login :: "login_page \<Rightarrow> login_screen" where
  "Login p = (if truthy_str (lp_twoFactorToken p) then CodeForm (lp_error p) (lp_submitting p)
     else PasswordForm (lp_error p) (lp_submitting p))"

section \<open>The second factor\<close>

datatype settings_error = EnrollFailed | InvalidCode

datatype status_query = StatusPending | StatusError | StatusData bool

text \<open>\<open>tp_enroll\<close> is the data of the enrolment mutation: the secret and the otpauth URL.\<close>

record settings_panel =
  tp_status :: status_query
  tp_code :: string
  tp_backupCodes :: "string list option"
  tp_error :: "settings_error option"
  tp_enroll :: "(string \<times> string) option"

definition settings_panel0 :: settings_panel where
  "settings_panel0 = \<lparr>tp_status = StatusPending, tp_code = [], tp_backupCodes = None, tp_error = None, tp_enroll = None\<rparr>"

definition enroll_answered :: "(string \<times> string) option \<Rightarrow> settings_panel \<Rightarrow> settings_panel" where
  "enroll_answered data p = (case data of
      None \<Rightarrow> p\<lparr>tp_error := Some EnrollFailed, tp_enroll := None\<rparr>
    | Some d \<Rightarrow> p\<lparr>tp_enroll := Some d\<rparr>)"

text \<open>A submission sends the trimmed code. Its success asks for the status again.\<close>

definition submitConfirm :: "settings_panel \<Rightarrow> string \<times> settings_panel" where
  "submitConfirm p = (js_trim (tp_code p), p\<lparr>tp_error := None\<rparr>)"

definition submitDisable :: "settings_panel \<Rightarrow> string \<times> settings_panel" where
  "submitDisable p = (js_trim (tp_code p), p\<lparr>tp_error := None\<rparr>)"

definition confirm_answered :: "string list option \<Rightarrow> settings_panel \<Rightarrow> settings_panel" where
  "confirm_answered data p = (case data of
      None \<Rightarrow> p\<lparr>tp_error := Some InvalidCode\<rparr>
    | Some codes \<Rightarrow> p\<lparr>tp_backupCodes := Some codes, tp_code := [], tp_enroll := None\<rparr>)"

definition disable_answered :: "unit option \<Rightarrow> settings_panel \<Rightarrow> settings_panel" where
  "disable_answered data p = (case data of
      None \<Rightarrow> p\<lparr>tp_error := Some InvalidCode\<rparr>
    | Some _ \<Rightarrow> p\<lparr>tp_code := [], tp_backupCodes := None\<rparr>)"

datatype settings_body = DisableForm "settings_error option" | ConfirmForm "string \<times> string" "settings_error option"
  | EnrollButton "settings_error option"

text \<open>\<open>None\<close>: nothing is rendered. The backup codes, and the rest of the section.\<close>

definition TwoFactorSettings :: "settings_panel \<Rightarrow> (string list option \<times> settings_body) option" where
  "TwoFactorSettings p = (case tp_status p of
      StatusData enabled \<Rightarrow> Some (tp_backupCodes p,
        if enabled then DisableForm (tp_error p)
        else (case tp_enroll p of Some d \<Rightarrow> ConfirmForm d (tp_error p) | None \<Rightarrow> EnrollButton (tp_error p)))
    | _ \<Rightarrow> None)"

section \<open>Lemmas\<close>

lemma city_named_mem: "city_named n \<in> set CITIES"
proof -
  have "CITIES \<noteq> []" by (simp add: CITIES_def)
  then show ?thesis by (auto simp: city_named_def find_Some_iff split: option.splits)
qed

lemma city_on_map: "- 90 \<le> c_lat (city_named n) \<and> c_lat (city_named n) \<le> 90 \<and> - 180 \<le> c_lon (city_named n) \<and> c_lon (city_named n) \<le> 180"
proof -
  have "list_all (\<lambda>c. - 90 \<le> c_lat c \<and> c_lat c \<le> 90 \<and> - 180 \<le> c_lon c \<and> c_lon c \<le> 180) CITIES"
    by (simp add: CITIES_def)
  then show ?thesis using city_named_mem [of n] by (simp add: list_all_iff)
qed

lemma GEAR_CATEGORIES_all: "c \<in> set GEAR_CATEGORIES"
  by (cases c) (simp_all add: GEAR_CATEGORIES_def)

text \<open>The page leaves for the route it was reached from only once a session is open.\<close>

lemma login_page_session:
  assumes "login_done parse resp s = (outcome, s')"
  shows "lp_at (login_answered (Some outcome) p) = Some (lp_from p) \<longleftrightarrow>
      lp_at p = Some (lp_from p) \<or> (\<exists>access. resp = TokenPair access \<and> fr_token s' = Some access)"
    "outcome \<noteq> None \<Longrightarrow> s' = s"
  using assms by (auto simp: login_done_def login_answered_def front_session_fields split: login_response.splits)

text \<open>
  The panel: the secret is on screen only between an enrolment and its confirmation; the backup codes are those of
  the last confirmation.
\<close>

datatype panel_event = TypeCode string | EnrollAnswer "(string \<times> string) option" | ConfirmAnswer "string list option"
  | DisableAnswer "unit option" | StatusAnswer status_query

fun panel_step :: "settings_panel \<Rightarrow> panel_event \<Rightarrow> settings_panel" where
  "panel_step p (TypeCode c) = p\<lparr>tp_code := c\<rparr>"
| "panel_step p (EnrollAnswer a) = enroll_answered a p"
| "panel_step p (ConfirmAnswer a) = confirm_answered a (snd (submitConfirm p))"
| "panel_step p (DisableAnswer a) = disable_answered a (snd (submitDisable p))"
| "panel_step p (StatusAnswer q) = p\<lparr>tp_status := q\<rparr>"

lemma panel_backup_codes:
  assumes "tp_backupCodes (foldl panel_step settings_panel0 es) = Some codes"
  shows "\<exists>es1 es2. es = es1 @ ConfirmAnswer (Some codes) # es2 \<and> DisableAnswer (Some ()) \<notin> set es2"
  using assms
proof (induction es rule: rev_induct)
  case (snoc e es)
  let ?p = "foldl panel_step settings_panel0 es"
  show ?case
  proof (cases "e = ConfirmAnswer (Some codes)")
    case True
    then show ?thesis by (intro exI [of _ es] exI [of _ "[]"]) simp
  next
    case False
    have "tp_backupCodes ?p = Some codes \<and> e \<noteq> DisableAnswer (Some ())"
      using snoc.prems False
      by (cases e) (auto simp: enroll_answered_def confirm_answered_def submitConfirm_def disable_answered_def submitDisable_def
          split: option.splits if_splits)
    with snoc.IH obtain es1 es2 where "es = es1 @ ConfirmAnswer (Some codes) # es2" "DisableAnswer (Some ()) \<notin> set es2" by blast
    moreover have "e \<noteq> DisableAnswer (Some ())" using \<open>tp_backupCodes ?p = Some codes \<and> _\<close> by blast
    ultimately have "es @ [e] = es1 @ ConfirmAnswer (Some codes) # (es2 @ [e]) \<and> DisableAnswer (Some ()) \<notin> set (es2 @ [e])"
      by auto
    then show ?thesis by blast
  qed
qed (simp add: settings_panel0_def)

lemma confirmed_secret_gone: "tp_enroll (panel_step p (ConfirmAnswer (Some codes))) = None"
  by (simp add: confirm_answered_def)

text \<open>A backup code in lower case passes the format, here and in the DTO, and is none that was ever generated.\<close>

lemma lower_case_backup_code: "CODE_PATTERN ''abcd-efgh''" "\<not> list_all (\<lambda>c. \<not> (CHR ''a'' \<le> c \<and> c \<le> CHR ''z'')) ''abcd-efgh''"
  by (simp_all add: CODE_PATTERN_def is_backup_char_def less_eq_char_def)

section \<open>The forms and the DTOs\<close>

lemma gear_form_agrees:
  "case handleSubmit_gear c b m s of
     Sent i \<Rightarrow> validate_AddGearDto (ai_category i) (Some (ai_brand i)) (Some (ai_model i)) (Some (ai_serialNumber i)) =
       Inr \<lparr>ag_category = the c, ag_brand = js_trim b, ag_model = js_trim m, ag_serialNumber = js_trim s\<rparr>
   | Refused errors \<Rightarrow> errors \<noteq> [] \<and>
       validate_AddGearDto c (Some (js_trim b)) (Some (js_trim m)) (Some (js_trim s)) = Inl (BadRequest ValidationFailed)"
  using GEAR_CATEGORIES_all
  by (cases c) (auto simp: handleSubmit_gear_def validate_input_def validate_AddGearDto_def Let_def js_trim_idem)

lemma search_form_agrees:
  "case handleSubmit_search raw cityName radiusKm of
     Inr q \<Rightarrow> validate_SearchMatchDto (Some (sc_skills q)) (Some (sc_lat q)) (Some (sc_lon q)) (Some (sc_radiusKm q)) =
       (if length (sc_skills q) \<le> 50 \<and> list_all (\<lambda>s. length s \<le> 64) (sc_skills q)
        then Inr \<lparr>sm_skills = sc_skills q, sm_lat = sc_lat q, sm_lon = sc_lon q, sm_radiusKm = sc_radiusKm q\<rparr>
        else Inl (BadRequest ValidationFailed))
   | Inl e \<Rightarrow> (e = NoSkill \<longleftrightarrow> filter (\<lambda>s. s \<noteq> []) (map js_trim (js_split (CHR '','') raw)) = [])"
proof -
  let ?ss = "filter (\<lambda>s. s \<noteq> []) (map js_trim (js_split (CHR '','') raw))"
  have ne: "list_all (\<lambda>s. 1 \<le> length s \<and> length s \<le> 64) ?ss \<longleftrightarrow> list_all (\<lambda>s. length s \<le> 64) ?ss"
    by (auto simp: list_all_iff Suc_le_eq)
  show ?thesis
  proof (cases "?ss = []")
    case True
    then show ?thesis by (simp add: handleSubmit_search_def)
  next
    case False
    then have l: "1 \<le> length ?ss" by (cases ?ss) auto
    show ?thesis
    proof (cases "js_Number radiusKm")
      case None
      with False show ?thesis by (simp add: handleSubmit_search_def Let_def)
    next
      case (Some r)
      show ?thesis
      proof (cases "r < 1 \<or> r > 500")
        case True
        with Some False show ?thesis by (simp add: handleSubmit_search_def Let_def)
      next
        case r: False
        let ?q = "\<lparr>sc_skills = ?ss, sc_lat = c_lat (city_named cityName), sc_lon = c_lon (city_named cityName), sc_radiusKm = r\<rparr>"
        have "handleSubmit_search raw cityName radiusKm = Inr ?q"
          using Some False r by (simp add: handleSubmit_search_def Let_def)
        moreover have "1 / 1000 \<le> r" "r \<le> 500" using r by auto
        ultimately show ?thesis using city_on_map [of cityName] l ne
          by (simp add: validate_SearchMatchDto_def del: length_filter_conv_card)
      qed
    qed
  qed
qed

lemma register_form_agrees:
  assumes "role \<in> set ROLES"
  shows "case handleSubmit_register email username password role cityName of
      None \<Rightarrow> validate_RegisterDto is_email \<lparr>rb_email = Some email, rb_username = Some username, rb_password = Some password,
         rb_role = Some role, rb_location = l\<rparr> = Inl (BadRequest ValidationFailed)
    | Some b \<Rightarrow> validate_RegisterDto is_email b =
        (if is_email email \<and> username \<noteq> []
         then Inr \<lparr>rd_email = email, rd_username = username, rd_password = password, rd_role = role,
           rd_location = (if role = FREELANCE then Some (c_lat (city_named cityName), c_lon (city_named cityName)) else None)\<rparr>
         else Inl (BadRequest ValidationFailed))"
  using assms city_on_map [of cityName]
  by (auto simp: handleSubmit_register_def validate_RegisterDto_def valid_location_def is_latitude_def is_longitude_def
      ROLES_def SELF_ASSIGNABLE_ROLES_def Let_def)

section \<open>Property\<close>



end
