(* ===== verification/FrontViews.thy ===== *)
theory FrontViews
  imports FrontForms
begin

text \<open>
  What the screens of the web client show (\<open>frontend-web/src\<close>): the locker, private and public
  (\<open>pages/Armurerie.tsx\<close>, \<open>pages/FreelanceGear.tsx\<close> and the components of \<open>features/gear\<close>), level and badges
  (\<open>features/gamification\<close>), the conversation thread and the unread mark (\<open>features/chat/useChatThread.ts\<close>,
  \<open>features/navigation/useUnreadMessages.ts\<close>), the map (\<open>features/matching/SearchMap.tsx\<close>), navigation by role and
  the route table (\<open>nav-items.ts\<close>, \<open>app/routes.tsx\<close>) and avatars (\<open>lib/avatar.ts\<close>).

  A screen is the list of its elements in order, without class names; a quotient is exact, not a double.
\<close>

section \<open>Queries\<close>

text \<open>Pending, failed with a status or without one, or the data.\<close>

datatype 'a query = Pending | Failed "nat option" | Loaded 'a

definition GEAR_PAGE_LIMIT :: nat where
  "GEAR_PAGE_LIMIT = 100"

text \<open>The \<open>retry\<close> of \<open>useMyGear\<close> and of \<open>useFreelanceGear\<close>: the failures so far and the status of the error.\<close>

definition retry :: "nat \<Rightarrow> nat option \<Rightarrow> bool" where
  "retry failureCount status = (case status of
     Some c \<Rightarrow> if c \<ge> 400 \<and> c < 500 then False else failureCount < 3
   | None \<Rightarrow> failureCount < 3)"

text \<open>The query function called again as long as \<open>retry\<close> says so; \<open>fetch n\<close> is what the call after \<open>n\<close> failures gives.\<close>

function run_query :: "(nat \<Rightarrow> nat option + 'a) \<Rightarrow> nat \<Rightarrow> 'a query" where
  "run_query fetch n = (case fetch n of
     Inr a \<Rightarrow> Loaded a
   | Inl status \<Rightarrow> if retry n status then run_query fetch (Suc n) else Failed status)"
  by auto
termination
  by (relation "measure (\<lambda>(_, n). 4 - n)") (auto simp: retry_def split: option.splits if_splits)

declare run_query.simps [simp del]

section \<open>Gear\<close>

definition CATEGORY_META :: "GearCategory \<Rightarrow> string" where
  "CATEGORY_META c = (case c of DRONE \<Rightarrow> ''Drone'' | CAMERA_360 \<Rightarrow> ''Cam'' @ [CHR 0xE9] @ ''ra 360'' @ [CHR 0xB0]
     | ROBOTICS \<Rightarrow> ''Robotique'' | SENSOR \<Rightarrow> ''Capteur'' | GearCategory.OTHER \<Rightarrow> ''Autre'')"

definition STATUS_META :: "GearStatus \<Rightarrow> string" where
  "STATUS_META s = (case s of GearStatus.VALIDATED \<Rightarrow> ''VALID'' @ [CHR 0xC9] | GearStatus.PENDING \<Rightarrow> ''ATTENTE''
     | GearStatus.REJECTED \<Rightarrow> ''REJET'' @ [CHR 0xC9])"

definition GEAR_STATUSES :: "GearStatus list" where
  "GEAR_STATUSES = [GearStatus.VALIDATED, GearStatus.PENDING, GearStatus.REJECTED]"

datatype card_action = Pin string | Unpin string

record gear_card =
  gc_key :: string
  gc_label :: string
  gc_status :: string
  gc_name :: string
  gc_action :: "card_action option"

definition GearCard :: "PublicGearView \<Rightarrow> card_action option \<Rightarrow> gear_card" where
  "GearCard g trailingAction = \<lparr>gc_key = pg_id g, gc_label = CATEGORY_META (pg_category g), gc_status = STATUS_META (pg_status g),
     gc_name = pg_brand g @ '' '' @ pg_model g, gc_action = trailingAction\<rparr>"

definition GearGrid :: "(PublicGearView \<Rightarrow> card_action option) \<Rightarrow> PublicGearView list \<Rightarrow> gear_card list" where
  "GearGrid renderAction gs = map (\<lambda>g. GearCard g (renderAction g)) gs"

definition LOADOUT_SLOTS :: nat where
  "LOADOUT_SLOTS = 4"

text \<open>The pinned cards and the number of free places; \<open>onUnpin\<close> is given or not.\<close>

definition LoadoutRow :: "bool \<Rightarrow> PublicGearView list \<Rightarrow> gear_card list \<times> nat" where
  "LoadoutRow onUnpin gs =
     (map (\<lambda>g. GearCard g (if onUnpin then Some (Unpin (pg_id g)) else None)) gs, nat (max 0 (int LOADOUT_SLOTS - int (length gs))))"

definition math_round :: "rat \<Rightarrow> int" where
  "math_round x = \<lfloor>x + 1 / 2\<rfloor>"

definition progress_percent :: "int \<Rightarrow> int \<Rightarrow> int" where
  "progress_percent validated tot =
     (let raw = (if tot \<le> 0 then 0 else math_round (of_int validated / of_int tot * 100)) in min 100 (max 0 raw))"

text \<open>A chip: its category, \<open>None\<close> for all, and whether it is the active one.\<close>

definition GearCategoryChips :: "GearCategory list \<Rightarrow> GearCategory option \<Rightarrow> (GearCategory option \<times> bool) list" where
  "GearCategoryChips categories selected =
     (None, selected = None) # map (\<lambda>c. (Some c, selected = Some c)) categories"

definition presentCategories :: "PublicGearView list \<Rightarrow> GearCategory list" where
  "presentCategories gs = filter (\<lambda>c. list_ex (\<lambda>g. pg_category g = c) gs) GEAR_CATEGORIES"

definition visibleItems :: "GearCategory option \<Rightarrow> PublicGearView list \<Rightarrow> PublicGearView list" where
  "visibleItems category gs = (case category of None \<Rightarrow> gs | Some c \<Rightarrow> filter (\<lambda>g. pg_category g = c) gs)"

section \<open>Level and badges\<close>

record level_card =
  lc_label :: string
  lc_max :: nat
  lc_percent :: int

definition LevelCard :: "GamificationProfile \<Rightarrow> level_card" where
  "LevelCard p = (let mx = (case gp_nextLevelAt p of Some n \<Rightarrow> n | None \<Rightarrow> max (gp_xp p) 1) in
     \<lparr>lc_label = gp_levelLabel p, lc_max = mx, lc_percent = min 100 (math_round (of_nat (gp_xp p) / of_nat mx * 100))\<rparr>)"

text \<open>A badge: its label and whether it says obtained; \<open>earned\<close> may be missing.\<close>

definition BadgeGrid :: "(string \<times> bool option) list \<Rightarrow> (string \<times> bool) list" where
  "BadgeGrid badges = map (\<lambda>(label, earned). (label, case earned of Some e \<Rightarrow> e | None \<Rightarrow> True)) badges"

section \<open>The locker screens\<close>

datatype element =
    CountLine nat | LoadingLine | ReservedAlert | ExpiredAlert | UnknownProfileAlert | RetryAlert | EmptyLocker | NothingValidated
  | ProfileName string | LevelLine string | ContactLink string
  | Loadout "gear_card list \<times> nat" | Level level_card | Badges "(string \<times> bool) list" | LoadoutAlert string
  | Progress nat nat int | Chips "(GearCategory option \<times> bool) list" | ShownLine nat | Grid "gear_card list"
  | TruncatedLine nat | AddLink

text \<open>The state of the private screen beside its queries.\<close>

definition pin_action :: "PublicGearView \<Rightarrow> card_action option" where
  "pin_action g = (if pg_status g = GearStatus.VALIDATED \<and> \<not> pg_isInLoadout g then Some (Pin (pg_id g)) else None)"

definition Armurerie ::
    "PublicGearView paginated query \<Rightarrow> GamificationProfile query \<Rightarrow> GearCategory option \<Rightarrow> string option \<Rightarrow> element list" where
  "Armurerie gear gamification category loadoutError = (case gear of
     Pending \<Rightarrow> [LoadingLine]
   | Failed status \<Rightarrow> (if status = Some 403 then [ReservedAlert] else if status = Some 401 then [ExpiredAlert] else [RetryAlert])
   | Loaded data \<Rightarrow>
       let gs = items data; pinnedItems = filter pg_isInLoadout gs; shown = visibleItems category gs in
       CountLine (total data) #
       (if length gs = 0 then [EmptyLocker] else
          [Loadout (LoadoutRow True pinnedItems)] @
          (case gamification of Loaded p \<Rightarrow> [Level (LevelCard p), Badges (BadgeGrid (map (\<lambda>b. (bv_label b, Some (bv_earned b))) (gp_badges p)))]
             | _ \<Rightarrow> []) @
          (case loadoutError of Some e \<Rightarrow> if e = [] then [] else [LoadoutAlert e] | None \<Rightarrow> []) @
          [Progress (length (filter (\<lambda>g. pg_status g = GearStatus.VALIDATED) gs)) (length gs)
             (progress_percent (int (length (filter (\<lambda>g. pg_status g = GearStatus.VALIDATED) gs))) (int (length gs))),
           Chips (GearCategoryChips (presentCategories gs) category), ShownLine (length shown), Grid (GearGrid pin_action shown)] @
          (if total data > length gs then [TruncatedLine (length gs)] else []) @ [AddLink]))"

text \<open>The error after pinning or unpinning: the message of the answer, if any.\<close>

definition loadout_answered :: "(string option) option \<Rightarrow> string option" where
  "loadout_answered failure = (case failure of None \<Rightarrow> None
     | Some message \<Rightarrow> Some (case message of Some m \<Rightarrow> m | None \<Rightarrow> ''Impossible de modifier le loadout''))"

text \<open>The public screen; \<open>username\<close> comes from the navigation state.\<close>

definition FreelanceGear ::
    "string \<Rightarrow> string option \<Rightarrow> PublicGearView paginated query \<Rightarrow> PublicGamificationProfile query \<Rightarrow> GearCategory option \<Rightarrow> element list" where
  "FreelanceGear freelanceId username gear gamification category =
     [ProfileName (case username of Some u \<Rightarrow> u | None \<Rightarrow> ''Profil freelance'')] @
     (case gear of Loaded data \<Rightarrow> [CountLine (total data)] | _ \<Rightarrow> []) @
     (case gamification of Loaded p \<Rightarrow> [LevelLine (pgp_levelLabel p)] | _ \<Rightarrow> []) @
     (case gear of Failed _ \<Rightarrow> [] | _ \<Rightarrow> [ContactLink (''/messages/'' @ freelanceId)]) @
     (case gear of
        Pending \<Rightarrow> [LoadingLine]
      | Failed status \<Rightarrow>
          (if status = Some 403 then [ReservedAlert] else if status = Some 404 then [UnknownProfileAlert] else [RetryAlert])
      | Loaded data \<Rightarrow>
          let gs = items data; pinnedItems = filter pg_isInLoadout gs in
          if length gs = 0 then [NothingValidated] else
            (if length pinnedItems > 0 then [Loadout (LoadoutRow False pinnedItems)] else []) @
            (case gamification of
               Loaded p \<Rightarrow> if length (pgp_badges p) > 0 then [Badges (BadgeGrid (map (\<lambda>b. (pb_label b, None)) (pgp_badges p)))] else []
             | _ \<Rightarrow> []) @
            [Chips (GearCategoryChips (presentCategories gs) category), Grid (GearGrid (\<lambda>_. None) (visibleItems category gs))] @
            (if total data > length gs then [TruncatedLine (length gs)] else []))"

section \<open>The thread and the unread mark\<close>

definition client_conversationIdFor :: "string \<Rightarrow> string \<Rightarrow> string" where
  "client_conversationIdFor userIdA userIdB = js_join '':'' (sort [userIdA, userIdB])"

text \<open>A \<open>message:new\<close> for a thread; \<open>None\<close> is the thread of nobody.\<close>

definition onMessage :: "string option \<Rightarrow> ChatMessageView \<Rightarrow> ChatMessageView list \<Rightarrow> ChatMessageView list" where
  "onMessage conversationId m previous =
     (if Some (v_conversationId m) \<noteq> conversationId then previous
      else if list_ex (\<lambda>q. v_id q = v_id m) previous then previous else previous @ [m])"

definition thread_messages :: "ChatMessageView list option \<Rightarrow> ChatMessageView list \<Rightarrow> ChatMessageView list" where
  "thread_messages data liveMessages =
     (let hist = (case data of Some h \<Rightarrow> h | None \<Rightarrow> []); knownIds = v_id ` set hist
      in hist @ filter (\<lambda>m. v_id m \<notin> knownIds) liveMessages)"

record unread =
  un_hasUnread :: bool
  un_readPathname :: string

definition render_unread :: "string \<Rightarrow> unread \<Rightarrow> unread" where
  "render_unread pathname u = (if pathname \<noteq> un_readPathname u
     then u\<lparr>un_readPathname := pathname, un_hasUnread := (if js_startsWith pathname ''/messages'' then False else un_hasUnread u)\<rparr>
     else u)"

definition unread_message :: "string \<Rightarrow> unread \<Rightarrow> unread" where
  "unread_message pathname u = (if \<not> js_startsWith pathname ''/messages'' then u\<lparr>un_hasUnread := True\<rparr> else u)"

definition markAllRead :: "unread \<Rightarrow> unread" where
  "markAllRead u = u\<lparr>un_hasUnread := False\<rparr>"

section \<open>The map\<close>

definition zoomForRadius :: "rat \<Rightarrow> nat" where
  "zoomForRadius radiusKm = (if radiusKm \<le> 15 then 11 else if radiusKm \<le> 60 then 9 else if radiusKm \<le> 150 then 8 else 6)"

text \<open>A marker: the freelance, latitude and longitude, and whether it is highlighted.\<close>

definition SearchMap_markers :: "string option \<Rightarrow> MatchResultDto list \<Rightarrow> (string \<times> (rat \<times> rat) \<times> bool) list" where
  "SearchMap_markers highlightedId results =
     map (\<lambda>r. (mr_freelanceId r, (the (mr_latitude r), the (mr_longitude r)), Some (mr_freelanceId r) = highlightedId))
       (filter (\<lambda>r. mr_latitude r \<noteq> None \<and> mr_longitude r \<noteq> None) results)"

section \<open>Navigation and routes\<close>

text \<open>A link: its route and its label.\<close>

definition NAV_ITEMS :: "UserRole \<Rightarrow> (string \<times> string) list" where
  "NAV_ITEMS role = (case role of
     FREELANCE \<Rightarrow> [(''/mon-armurerie'', ''Mon Armurerie''), (''/messages'', ''Messages'')]
   | RECRUITER \<Rightarrow> [(''/recherche'', ''Recherche''), (''/messages'', ''Messages'')]
   | ADMIN \<Rightarrow> [(''/messages'', ''Messages'')])"

datatype screen_page = HomePage | LoginPage | RegisterPage | AccountPage | ArmureriePage | AddGearPage | FreelanceGearPage string
  | SearchPage | MessagesPage | MessageThreadPage string | NotFoundPage

text \<open>
  The page of a path and whether it is behind \<open>ProtectedRoute\<close>; \<open>segs\<close> are its segments, the fixed ones in lower
  case (the router ignores case).
\<close>

definition routes :: "string list \<Rightarrow> screen_page \<times> bool" where
  "routes segs =
     (if segs = [] then (HomePage, False)
      else if segs = [''login''] then (LoginPage, False)
      else if segs = [''register''] then (RegisterPage, False)
      else if segs = [''mon-compte''] then (AccountPage, True)
      else if segs = [''mon-armurerie''] then (ArmureriePage, True)
      else if segs = [''mon-armurerie'', ''ajouter''] then (AddGearPage, True)
      else if segs = [''recherche''] then (SearchPage, True)
      else if segs = [''messages''] then (MessagesPage, True)
      else (case segs of
          [a, i] \<Rightarrow> if a = ''messages'' then (MessageThreadPage i, True) else (NotFoundPage, False)
        | [a, i, b] \<Rightarrow> if a = ''freelances'' \<and> b = ''armurerie'' then (FreelanceGearPage i, True) else (NotFoundPage, False)
        | _ \<Rightarrow> (NotFoundPage, False)))"

text \<open>The links of the account page, for every role, and of the home page.\<close>

definition Account_links :: "string list" where
  "Account_links = [''/mon-armurerie'', ''/messages'']"

definition Home_links :: "AuthUser option \<Rightarrow> string list" where
  "Home_links user = (case user of Some _ \<Rightarrow> [''/mon-compte''] | None \<Rightarrow> [''/login'', ''/register''])"

definition displayName :: "AuthUser \<Rightarrow> string" where
  "displayName user = hd (js_split (CHR ''@'') (au_email user))"

section \<open>Avatars\<close>

definition PALETTES :: "(string \<times> string) list" where
  "PALETTES = [(''bg-hud-pill'', ''text-hud-icon''), (''bg-hud-icon/15'', ''text-hud-icon''),
     (''bg-hud-positive/15'', ''text-hud-positive''), (''bg-hud-pending/15'', ''text-hud-pending'')]"

definition getAvatarPalette :: "string \<Rightarrow> string \<times> string" where
  "getAvatarPalette name = PALETTES ! (sum_list (map of_char name) mod length PALETTES)"

section \<open>Lemmas\<close>

text \<open>A query calls the API four times at most, and once when the answer is a 4xx.\<close>

lemma run_query_four:
  assumes "\<And>k. k < 4 \<Longrightarrow> f k = g k" "n < 4"
  shows "run_query f n = run_query g n"
  using assms(2)
proof (induction "4 - n" arbitrary: n rule: less_induct)
  case less
  have fg: "f n = g n" using assms(1) less(2) by blast
  have "run_query f (Suc n) = run_query g (Suc n)" if "retry n status" for status
    using that less(2) by (intro less(1)) (auto simp: retry_def split: option.splits if_splits)
  then show ?case by (subst (1 2) run_query.simps) (auto simp: fg split: sum.splits)
qed

lemma run_query_client_error: "f 0 = Inl (Some c) \<Longrightarrow> 400 \<le> c \<Longrightarrow> c < 500 \<Longrightarrow> run_query f 0 = Failed (Some c)"
  by (subst run_query.simps) (simp add: retry_def)

lemma run_query_loaded: "run_query f n = Loaded a \<Longrightarrow> \<exists>k. f k = Inr a"
proof (induction f n rule: run_query.induct)
  case (1 f n)
  then show ?case by (subst (asm) (2) run_query.simps) (auto split: sum.splits if_splits)
qed

text \<open>A chip never shows an empty grid, and every item is under a chip.\<close>

lemma chips_exact: "c \<in> set (presentCategories gs) \<longleftrightarrow> visibleItems (Some c) gs \<noteq> []"
  using GEAR_CATEGORIES_all by (auto simp: presentCategories_def visibleItems_def list_ex_iff filter_empty_conv)

lemma visible_items_partition: "g \<in> set gs \<Longrightarrow> pg_category g \<in> set (presentCategories gs) \<and> g \<in> set (visibleItems (Some (pg_category g)) gs)"
  using GEAR_CATEGORIES_all by (auto simp: presentCategories_def visibleItems_def list_ex_iff)

lemma chips_one_active:
  "distinct cats \<Longrightarrow> selected = None \<or> the selected \<in> set cats \<Longrightarrow> length (filter snd (GearCategoryChips cats selected)) = 1"
proof -
  assume d: "distinct cats" and s: "selected = None \<or> the selected \<in> set cats"
  have "length (filter (\<lambda>c. selected = Some c) cats) = (if \<exists>c \<in> set cats. selected = Some c then 1 else 0)"
    using d by (induction cats) (auto simp: filter_empty_conv)
  moreover have "length (filter snd (map (\<lambda>c. (Some c, selected = Some c)) cats)) = length (filter (\<lambda>c. selected = Some c) cats)"
    by (simp add: filter_map comp_def)
  ultimately show ?thesis using s by (cases selected) (auto simp: GearCategoryChips_def)
qed

lemma loadout_row_slots: "length gs \<le> LOADOUT_SLOTS \<Longrightarrow> length (fst (LoadoutRow b gs)) + snd (LoadoutRow b gs) = LOADOUT_MAX_SLOTS"
  by (simp add: LoadoutRow_def LOADOUT_SLOTS_def LOADOUT_MAX_SLOTS_def)

lemma progress_bounds: "0 \<le> progress_percent v n \<and> progress_percent v n \<le> 100"
  by (simp add: progress_percent_def Let_def)

lemma progress_full: "0 < n \<Longrightarrow> progress_percent n n = 100" "progress_percent v 0 = 0"
proof -
  have "\<lfloor>(100 :: rat) + 1 / 2\<rfloor> = 100" by (simp add: floor_eq_iff)
  then show "0 < n \<Longrightarrow> progress_percent n n = 100" by (simp add: progress_percent_def math_round_def)
qed (simp add: progress_percent_def)

lemma level_card_bounds: "0 \<le> lc_percent (LevelCard p) \<and> lc_percent (LevelCard p) \<le> 100"
proof -
  have "0 \<le> math_round (of_nat a / of_nat b * 100)" for a b :: nat by (simp add: math_round_def)
  then show ?thesis by (simp add: LevelCard_def Let_def)
qed

text \<open>A card never carries a serial number, and the public screen offers no action.\<close>

lemma public_screen_actions:
  assumes "Grid cards \<in> set (FreelanceGear i u gear gam cat) \<or> (\<exists>k. Loadout (cards, k) \<in> set (FreelanceGear i u gear gam cat))"
  shows "\<forall>c \<in> set cards. gc_action c = None"
  using assms
  by (cases gear; cases gam) (auto simp: FreelanceGear_def GearGrid_def GearCard_def LoadoutRow_def Let_def split: if_splits)

lemma private_screen_pins:
  assumes "Grid cards \<in> set (Armurerie (Loaded data) gam cat err)" "c \<in> set cards" "gc_action c = Some (Pin i)"
  shows "\<exists>g \<in> set (items data). pg_id g = i \<and> pg_status g = GearStatus.VALIDATED \<and> \<not> pg_isInLoadout g"
proof -
  have "cards = GearGrid pin_action (visibleItems cat (items data))"
    using assms(1) by (cases gam; cases err) (auto simp: Armurerie_def Let_def split: if_splits)
  with assms(2,3) show ?thesis
    by (cases cat) (auto simp: GearGrid_def GearCard_def pin_action_def visibleItems_def split: if_splits)
qed

text \<open>The thread.\<close>

lemma client_conversation_id: "client_conversationIdFor a b = conversationIdFor a b"
  by (simp add: client_conversationIdFor_def conversationIdFor_def)

definition live :: "string option \<Rightarrow> ChatMessageView list \<Rightarrow> ChatMessageView list" where
  "live conv ms = foldl (\<lambda>l m. onMessage conv m l) [] ms"

lemma live_ok:
  "distinct (map v_id (live conv ms)) \<and> (\<forall>m \<in> set (live conv ms). Some (v_conversationId m) = conv \<and> m \<in> set ms) \<and>
   v_id ` set (live conv ms) = v_id ` {m \<in> set ms. Some (v_conversationId m) = conv}"
proof (induction ms rule: rev_induct)
  case (snoc m ms)
  have step: "live conv (ms @ [m]) = onMessage conv m (live conv ms)" by (simp add: live_def)
  show ?case
  proof (cases "Some (v_conversationId m) = conv \<and> \<not> list_ex (\<lambda>q. v_id q = v_id m) (live conv ms)")
    case True
    then have "v_id m \<notin> v_id ` set (live conv ms)" by (auto simp: list_ex_iff)
    with True snoc.IH show ?thesis unfolding step onMessage_def by auto
  next
    case False
    then have eq: "live conv (ms @ [m]) = live conv ms" unfolding step onMessage_def by auto
    have "v_id ` {x \<in> set (ms @ [m]). Some (v_conversationId x) = conv} = v_id ` {x \<in> set ms. Some (v_conversationId x) = conv}"
    proof (cases "Some (v_conversationId m) = conv")
      case True
      with False have "v_id m \<in> v_id ` set (live conv ms)" by (auto simp: list_ex_iff intro: rev_image_eqI)
      with snoc.IH True show ?thesis by auto
    qed auto
    with snoc.IH show ?thesis unfolding eq by auto
  qed
qed (simp add: live_def)

text \<open>What the screen shows: the history, then what came in, each message once, of this conversation only.\<close>

lemma thread_shows:
  assumes "distinct (map v_id hist)" "\<forall>m \<in> set hist. Some (v_conversationId m) = conv"
  shows "distinct (map v_id (thread_messages (Some hist) (live conv ms)))"
    "\<forall>m \<in> set (thread_messages (Some hist) (live conv ms)). Some (v_conversationId m) = conv"
    "v_id ` set (thread_messages (Some hist) (live conv ms)) =
       v_id ` set hist \<union> v_id ` {m \<in> set ms. Some (v_conversationId m) = conv}"
    "prefix hist (thread_messages (Some hist) (live conv ms))"
proof -
  note l = live_ok [of conv ms]
  have "inj_on v_id (set (live conv ms))" using l by (simp add: distinct_map)
  then have "distinct (map v_id (filter (\<lambda>m. v_id m \<notin> v_id ` set hist) (live conv ms)))"
    using l by (simp add: distinct_map_filter)
  then show "distinct (map v_id (thread_messages (Some hist) (live conv ms)))"
    using assms(1) by (auto simp: thread_messages_def Let_def) (metis image_eqI)
  show "\<forall>m \<in> set (thread_messages (Some hist) (live conv ms)). Some (v_conversationId m) = conv"
    using assms(2) l by (auto simp: thread_messages_def Let_def)
  have "v_id ` set (thread_messages (Some hist) (live conv ms)) = v_id ` set hist \<union> v_id ` set (live conv ms)"
    by (auto simp: thread_messages_def Let_def)
  with l show "v_id ` set (thread_messages (Some hist) (live conv ms)) =
       v_id ` set hist \<union> v_id ` {m \<in> set ms. Some (v_conversationId m) = conv}" by simp
  show "prefix hist (thread_messages (Some hist) (live conv ms))" by (simp add: thread_messages_def Let_def)
qed

text \<open>The mark is never on while the messages are on screen.\<close>

definition unread_ok :: "string \<Rightarrow> unread \<Rightarrow> bool" where
  "unread_ok pathname u \<longleftrightarrow> un_readPathname u = pathname \<and> (js_startsWith pathname ''/messages'' \<longrightarrow> \<not> un_hasUnread u)"

lemma unread_steps:
  "unread_ok p u \<Longrightarrow> unread_ok q (render_unread q u)" "unread_ok p u \<Longrightarrow> unread_ok p (unread_message p u)"
  "unread_ok p u \<Longrightarrow> unread_ok p (markAllRead u)"
  by (auto simp: unread_ok_def render_unread_def unread_message_def markAllRead_def)

text \<open>Navigation leads to protected pages only; every role sees the link to the locker on its account page.\<close>

lemma nav_items_protected:
  assumes "(to, label) \<in> set (NAV_ITEMS role)"
  shows "\<exists>page. routes [tl to] = (page, True)"
  using assms by (cases role) (auto simp: NAV_ITEMS_def routes_def)

lemma markers_located:
  "length (SearchMap_markers h rs) \<le> length rs"
  "(i, (la, lo), b) \<in> set (SearchMap_markers h rs) \<Longrightarrow>
     \<exists>r \<in> set rs. mr_freelanceId r = i \<and> mr_latitude r = Some la \<and> mr_longitude r = Some lo"
  by (auto simp: SearchMap_markers_def)

lemma palette_defined: "getAvatarPalette name \<in> set PALETTES"
proof -
  have "0 < length PALETTES" by (simp add: PALETTES_def)
  then show ?thesis unfolding getAvatarPalette_def by (intro nth_mem) simp
qed

end
