(* ===== verification/FrontScreens.thy ===== *)
theory FrontScreens
  imports FrontViews
begin

text \<open>
  The pages of the web client as trees of elements (\<open>frontend-web/src/pages\<close>, \<open>features/navigation\<close>,
  \<open>features/matching\<close>, \<open>features/auth/TwoFactorSettings.tsx\<close>): what a page renders in each of its states, and for the two forms that
  create something (\<open>AddGear.tsx\<close>, \<open>Register.tsx\<close>) how a submission and its answer change the state. \<open>pages_wired\<close> is that what
  the elements refer to exists.

  A tree keeps the tag of an element, what identifies and names it, where a link goes, and the wording in so far as it depends on
  the state; elements that only carry classes or icons are left out.
\<close>

section \<open>Elements\<close>

datatype register_error = PasswordTooShort | RegisterFailed

datatype wording = Fixed | Value string | Number int | Kilometres rat | Clock nat | RoleName UserRole | Author bool | LoginMessage login_error
  | FieldMessage FieldName | GearMessage gear_api_error | RegisterMessage register_error | FilterMessage search_error
  | SearchMessage search_api_error | SettingsMessage settings_error

datatype tag = H1 | H2 | Para | Span | Label | Input string | Select | Choice | Textarea | Submit | Button | Anchor | Form | List | Item
  | Section | Log | Nav | MapView | Marker | Menu | MenuItem | QRCode

text \<open>\<open>el_named\<close>: an \<open>aria-label\<close>; \<open>el_to\<close>: the route of a link.\<close>

record attributes =
  el_id :: "string option"
  el_for :: "string option"
  el_role :: "string option"
  el_named :: bool
  el_describedby :: "string option"
  el_invalid :: bool
  el_required :: bool
  el_disabled :: bool
  el_value :: string
  el_to :: "string option"

definition plain :: attributes where
  "plain = \<lparr>el_id = None, el_for = None, el_role = None, el_named = False, el_describedby = None, el_invalid = False, el_required = False,
     el_disabled = False, el_value = [], el_to = None\<rparr>"

datatype node = Element tag attributes "node list" | Says wording

definition heading :: node where
  "heading = Element H1 plain [Says Fixed]"

definition para :: node where
  "para = Element Para plain [Says Fixed]"

definition status_line :: node where
  "status_line = Element Para (plain\<lparr>el_role := Some ''status''\<rparr>) [Says Fixed]"

definition alert :: "string option \<Rightarrow> wording \<Rightarrow> node" where
  "alert i w = Element Para (plain\<lparr>el_id := i, el_role := Some ''alert''\<rparr>) [Says w]"

definition label_for :: "string \<Rightarrow> node" where
  "label_for i = Element Label (plain\<lparr>el_for := Some i\<rparr>) [Says Fixed]"

definition link :: "string \<Rightarrow> node list \<Rightarrow> node" where
  "link to ns = Element Anchor (plain\<lparr>el_to := Some to\<rparr>) ns"

definition submit_button :: "bool \<Rightarrow> node" where
  "submit_button disabled = Element Submit (plain\<lparr>el_disabled := disabled\<rparr>) [Says Fixed]"

definition button :: node where
  "button = Element Button plain [Says Fixed]"

definition choices :: "string list \<Rightarrow> node list" where
  "choices vs = map (\<lambda>v. Element Choice (plain\<lparr>el_value := v\<rparr>) [Says (Value v)]) vs"

definition optional :: "'a option \<Rightarrow> ('a \<Rightarrow> node) \<Rightarrow> node list" where
  "optional x f = (case x of None \<Rightarrow> [] | Some a \<Rightarrow> [f a])"

section \<open>Declaring gear\<close>

text \<open>The state of the page; \<open>ag_to\<close> is where it went.\<close>

record add_gear_page =
  ag_category :: "GearCategory option"
  ag_brand :: string
  ag_model :: string
  ag_serialNumber :: string
  ag_errors :: "FieldName list"
  ag_apiError :: "gear_api_error option"
  ag_pending :: bool
  ag_to :: "string option"

definition submit_gear :: "add_gear_page \<Rightarrow> AddGearInput option \<times> add_gear_page" where
  "submit_gear p = (case handleSubmit_gear (ag_category p) (ag_brand p) (ag_model p) (ag_serialNumber p) of
     Refused errors \<Rightarrow> (None, p\<lparr>ag_errors := errors, ag_apiError := None\<rparr>)
   | Sent input \<Rightarrow> (Some input, p\<lparr>ag_errors := [], ag_apiError := None, ag_pending := True\<rparr>))"

text \<open>The mutation succeeds, or fails with the status and the body of the answer.\<close>

definition gear_answered :: "(nat option \<times> api_message) option \<Rightarrow> add_gear_page \<Rightarrow> add_gear_page" where
  "gear_answered failure p = (case failure of
     None \<Rightarrow> p\<lparr>ag_pending := False, ag_to := Some ''/mon-armurerie''\<rparr>
   | Some (status, body) \<Rightarrow> p\<lparr>ag_pending := False, ag_apiError := Some (apiError_gear status body)\<rparr>)"

definition field_name :: "FieldName \<Rightarrow> string" where
  "field_name f = (case f of CategoryField \<Rightarrow> ''category'' | BrandField \<Rightarrow> ''brand'' | ModelField \<Rightarrow> ''model'' | SerialField \<Rightarrow> ''serialNumber'')"

definition fieldError :: "FieldName list \<Rightarrow> FieldName \<Rightarrow> node list" where
  "fieldError errors f = (if f \<in> set errors then [alert (Some (field_name f @ ''-error'')) (FieldMessage f)] else [])"

text \<open>The attributes of a field; \<open>hint\<close> is what describes it when it has no error.\<close>

definition gear_field :: "FieldName list \<Rightarrow> FieldName \<Rightarrow> string option \<Rightarrow> string \<Rightarrow> attributes" where
  "gear_field errors f hint v = plain\<lparr>el_id := Some (field_name f), el_value := v, el_invalid := f \<in> set errors,
     el_describedby := (if f \<in> set errors then Some (field_name f @ ''-error'') else hint)\<rparr>"

definition category_choice :: "GearCategory option \<Rightarrow> string" where
  "category_choice c = (case c of None \<Rightarrow> [] | Some DRONE \<Rightarrow> ''DRONE'' | Some CAMERA_360 \<Rightarrow> ''CAMERA_360'' | Some ROBOTICS \<Rightarrow> ''ROBOTICS''
     | Some SENSOR \<Rightarrow> ''SENSOR'' | Some GearCategory.OTHER \<Rightarrow> ''OTHER'')"

definition AddGear :: "add_gear_page \<Rightarrow> node list" where
  "AddGear p = [heading, para,
     Element Form plain (
       [label_for ''category'',
        Element Select (gear_field (ag_errors p) CategoryField None (category_choice (ag_category p)))
          (Element Choice plain [Says Fixed] #
           map (\<lambda>c. Element Choice (plain\<lparr>el_value := category_choice (Some c)\<rparr>) [Says (Value (CATEGORY_META c))]) GEAR_CATEGORIES)] @
       fieldError (ag_errors p) CategoryField @
       [label_for ''brand'', Element (Input ''text'') (gear_field (ag_errors p) BrandField None (ag_brand p)) []] @
       fieldError (ag_errors p) BrandField @
       [label_for ''model'', Element (Input ''text'') (gear_field (ag_errors p) ModelField None (ag_model p)) []] @
       fieldError (ag_errors p) ModelField @
       [label_for ''serialNumber'',
        Element (Input ''text'') (gear_field (ag_errors p) SerialField (Some ''serialNumber-hint'') (ag_serialNumber p)) [],
        Element Para (plain\<lparr>el_id := Some ''serialNumber-hint''\<rparr>) [Says Fixed]] @
       fieldError (ag_errors p) SerialField @
       optional (if ag_apiError p = Some (Shown []) then None else ag_apiError p) (\<lambda>e. alert None (GearMessage e)) @
       [submit_button (ag_pending p), link ''/mon-armurerie'' [Says Fixed]])]"

section \<open>Registering\<close>

record register_page =
  rg_email :: string
  rg_username :: string
  rg_password :: string
  rg_role :: UserRole
  rg_cityName :: string
  rg_error :: "register_error option"
  rg_submitting :: bool
  rg_to :: "string option"

definition submit_register :: "register_page \<Rightarrow> register_body option \<times> register_page" where
  "submit_register p = (case handleSubmit_register (rg_email p) (rg_username p) (rg_password p) (rg_role p) (rg_cityName p) of
     None \<Rightarrow> (None, p\<lparr>rg_error := Some PasswordTooShort\<rparr>)
   | Some body \<Rightarrow> (Some body, p\<lparr>rg_error := None, rg_submitting := True\<rparr>))"

definition register_answered :: "bool \<Rightarrow> register_page \<Rightarrow> register_page" where
  "register_answered ok p = (if ok then p\<lparr>rg_to := Some ''/mon-compte'', rg_submitting := False\<rparr>
     else p\<lparr>rg_error := Some RegisterFailed, rg_submitting := False\<rparr>)"

definition register_field :: "register_error option \<Rightarrow> string \<Rightarrow> bool \<Rightarrow> string \<Rightarrow> attributes" where
  "register_field error i described v = plain\<lparr>el_id := Some i, el_required := True, el_value := v,
     el_describedby := (if described \<and> error \<noteq> None then Some ''register-error'' else None)\<rparr>"

definition Register :: "register_page \<Rightarrow> node list" where
  "Register p = [heading,
     Element Form plain (
       [label_for ''email'', Element (Input ''email'') (register_field (rg_error p) ''email'' True (rg_email p)) [],
        label_for ''username'', Element (Input ''text'') (register_field (rg_error p) ''username'' False (rg_username p)) [],
        label_for ''password'', Element (Input ''password'') (register_field (rg_error p) ''password'' True (rg_password p)) [],
        label_for ''role'', Element Select (plain\<lparr>el_id := Some ''role'', el_value := (if rg_role p = FREELANCE then ''FREELANCE'' else ''RECRUITER'')\<rparr>)
          (map (\<lambda>r. Element Choice (plain\<lparr>el_value := (if r = FREELANCE then ''FREELANCE'' else ''RECRUITER'')\<rparr>) [Says (RoleName r)]) ROLES)] @
       (if rg_role p = FREELANCE then
          [label_for ''city'', Element Select (plain\<lparr>el_id := Some ''city'', el_value := rg_cityName p, el_describedby := Some ''city-hint''\<rparr>)
             (choices (map c_name CITIES)),
           Element Para (plain\<lparr>el_id := Some ''city-hint''\<rparr>) [Says Fixed]] else []) @
       optional (rg_error p) (\<lambda>e. alert (Some ''register-error'') (RegisterMessage e)) @
       [submit_button (rg_submitting p)]),
     Element Para plain [Says Fixed, link ''/login'' [Says Fixed]]]"

section \<open>Logging in\<close>

definition Login_page :: "string \<Rightarrow> string \<Rightarrow> string \<Rightarrow> login_page \<Rightarrow> node list" where
  "Login_page email password code p =
     (let described = (if lp_error p \<noteq> None then Some ''login-error'' else None);
          error = optional (lp_error p) (\<lambda>e. alert (Some ''login-error'') (LoginMessage e)) in
      if truthy_str (lp_twoFactorToken p) then
        [heading, para,
         Element Form plain (
           [label_for ''twofa-code'', Element (Input ''text'') (plain\<lparr>el_id := Some ''twofa-code'', el_value := code, el_describedby := described\<rparr>) []] @
           error @ [submit_button (lp_submitting p)])]
      else
        [heading,
         Element Form plain (
           [label_for ''email'', Element (Input ''email'') (plain\<lparr>el_id := Some ''email'', el_required := True, el_value := email, el_describedby := described\<rparr>) [],
            label_for ''password'', Element (Input ''password'') (plain\<lparr>el_id := Some ''password'', el_required := True, el_value := password, el_describedby := described\<rparr>) []] @
           error @ [submit_button (lp_submitting p)]),
         Element Para plain [Says Fixed, link ''/register'' [Says Fixed]]])"

section \<open>Searching\<close>

text \<open>The state of the filters, and of the page: the search, what was sent and the card under the pointer.\<close>

record filters =
  fl_skillsRaw :: string
  fl_cityName :: string
  fl_radiusKm :: string
  fl_error :: "search_error option"

datatype search = Idle | Searching | SearchFailed "nat option" | Found "MatchResultDto list"

definition SearchFilters :: "filters \<Rightarrow> bool \<Rightarrow> search_api_error option \<Rightarrow> node" where
  "SearchFilters f isPending error = Element Form plain (
     [label_for ''skills'', Element (Input ''text'') (plain\<lparr>el_id := Some ''skills'', el_value := fl_skillsRaw f\<rparr>) [],
      label_for ''city'', Element Select (plain\<lparr>el_id := Some ''city'', el_value := fl_cityName f\<rparr>) (choices (map c_name CITIES)),
      label_for ''radius'', Element (Input ''number'') (plain\<lparr>el_id := Some ''radius'', el_value := fl_radiusKm f\<rparr>) []] @
     (case fl_error f of Some e \<Rightarrow> [alert None (FilterMessage e)] | None \<Rightarrow> optional error (\<lambda>e. alert None (SearchMessage e))) @
     [submit_button isPending])"

definition submit_filters :: "filters \<Rightarrow> SearchCriteria option \<times> filters" where
  "submit_filters f = (case handleSubmit_search (fl_skillsRaw f) (fl_cityName f) (fl_radiusKm f) of
     Inl e \<Rightarrow> (None, f\<lparr>fl_error := Some e\<rparr>) | Inr criteria \<Rightarrow> (Some criteria, f\<lparr>fl_error := None\<rparr>))"

definition shown_name :: "MatchResultDto \<Rightarrow> wording" where
  "shown_name r = (case mr_username r of Some u \<Rightarrow> Value u | None \<Rightarrow> Fixed)"

definition locker_link :: "MatchResultDto \<Rightarrow> node" where
  "locker_link r = link (''/freelances/'' @ mr_freelanceId r @ ''/armurerie'') [Says Fixed]"

text \<open>The id under the pointer after it entered (\<open>Some\<close>) or left a card; \<open>el_value\<close> of a card or of a marker says whether it is highlighted.\<close>

definition onHover :: "MatchResultDto option \<Rightarrow> string option" where
  "onHover entered = map_option mr_freelanceId entered"

definition highlight :: "bool \<Rightarrow> string" where
  "highlight isHighlighted = (if isHighlighted then ''highlighted'' else ''default'')"

definition SearchResultCard :: "string option \<Rightarrow> MatchResultDto \<Rightarrow> node" where
  "SearchResultCard highlightedId r = Element Item (plain\<lparr>el_value := highlight (highlightedId = Some (mr_freelanceId r))\<rparr>) [
     Element Span plain [Says (shown_name r)],
     Element Span plain [Says (Kilometres (mr_distanceKm r))],
     Element Span (plain\<lparr>el_named := True\<rparr>) [Says (Number (math_round (mr_score r * 100)))],
     locker_link r]"

definition SearchMap :: "string option \<Rightarrow> MatchResultDto list \<Rightarrow> node" where
  "SearchMap highlightedId results = Element MapView plain (
     map (\<lambda>r. Element Marker (plain\<lparr>el_value := highlight (Some (mr_freelanceId r) = highlightedId)\<rparr>)
         [Element Span plain [Says (shown_name r), Says (Number (math_round (mr_score r * 100)))], locker_link r])
       (filter (\<lambda>r. mr_latitude r \<noteq> None \<and> mr_longitude r \<noteq> None) results))"

definition Search :: "filters \<Rightarrow> search_page \<Rightarrow> search \<Rightarrow> string option \<Rightarrow> node list" where
  "Search f p s highlightedId =
     [heading, para,
      SearchFilters f (s = Searching) (case s of SearchFailed status \<Rightarrow> Some (apiError_search status) | _ \<Rightarrow> None)] @
     (case s of
        Searching \<Rightarrow> [status_line]
      | Found results \<Rightarrow> if length results = 0 then [para] else [Element List (plain\<lparr>el_named := True\<rparr>) (map (SearchResultCard highlightedId) results)]
      | _ \<Rightarrow> []) @
     optional (sp_submittedArea p) (\<lambda>_. SearchMap highlightedId (case s of Found results \<Rightarrow> results | _ \<Rightarrow> []))"

section \<open>Messages\<close>

definition retry_alert :: "node list" where
  "retry_alert = [alert None Fixed, button]"

definition Messages :: "ConversationSummary list query \<Rightarrow> node list" where
  "Messages q = heading # (case q of
     Pending \<Rightarrow> [status_line]
   | Failed _ \<Rightarrow> retry_alert
   | Loaded cs \<Rightarrow>
       if length cs = 0 then [para]
       else [Element List plain (map (\<lambda>c. Element Item plain [
          link (''/messages/'' @ peer_id (s_with c)) [
            Element Span plain [Says (Value (peer_username (s_with c)))],
            Element Span plain [Says (RoleName (if peer_role (s_with c) = FREELANCE then FREELANCE else RECRUITER))],
            Element Span plain [Says (Value (v_body (s_lastMessage c)))]]]) cs)])"

text \<open>\<open>me\<close> is the account of the session, if any; the thread is the history and what came since.\<close>

definition MessageThread :: "string option \<Rightarrow> ChatMessageView list query \<Rightarrow> ChatMessageView list \<Rightarrow> string \<Rightarrow> string option \<Rightarrow> node list" where
  "MessageThread me hist liveMessages draft sendError =
     [heading, link ''/messages'' [Says Fixed]] @
     (case hist of
        Pending \<Rightarrow> [status_line]
      | Failed _ \<Rightarrow> retry_alert
      | Loaded h \<Rightarrow>
          let messages = thread_messages (Some h) liveMessages in
          [Element Log (plain\<lparr>el_role := Some ''log'', el_named := True\<rparr>)
             (if length messages = 0 then [para]
              else [Element List plain (map (\<lambda>m. Element Item plain [
                 Element Span plain [Says (Author (Some (v_senderId m) = me))],
                 Element Span plain [Says (Value (v_body m))],
                 Element Span plain [Says (Clock (v_createdAt m))]]) messages)])] @
          optional (if sendError = Some [] then None else sendError) (\<lambda>e. alert None (Value e)) @
          [Element Form plain [Element Textarea (plain\<lparr>el_named := True, el_value := draft\<rparr>) [], submit_button False]])"

section \<open>The account\<close>

definition settings_form :: "string \<Rightarrow> string \<Rightarrow> settings_error option \<Rightarrow> bool \<Rightarrow> node" where
  "settings_form i code error pending = Element Form plain (
     [label_for i, Element (Input ''text'') (plain\<lparr>el_id := Some i, el_value := code\<rparr>) []] @
     optional error (\<lambda>e. alert None (SettingsMessage e)) @ [submit_button pending])"

text \<open>\<open>pending\<close> is whether the mutation of the button is running.\<close>

definition TwoFactorSettings_section :: "settings_panel \<Rightarrow> bool \<Rightarrow> node list" where
  "TwoFactorSettings_section p pending = (case TwoFactorSettings p of
     None \<Rightarrow> []
   | Some (backupCodes, body) \<Rightarrow> [Element Section plain (
       Element H2 plain [Says Fixed] #
       optional backupCodes (\<lambda>codes. Element Section plain [para, Element List plain (map (\<lambda>c. Element Item plain [Says (Value c)]) codes)]) @
       (case body of
          DisableForm error \<Rightarrow> [para, settings_form ''twofa-manage-code'' (tp_code p) error pending]
        | ConfirmForm (secret, otpauthUrl) error \<Rightarrow>
            [para, Element QRCode (plain\<lparr>el_value := otpauthUrl\<rparr>) [], Element Para plain [Says (Value secret)],
             settings_form ''twofa-confirm-code'' (tp_code p) error pending]
        | EnrollButton error \<Rightarrow>
            [para] @ optional error (\<lambda>e. alert None (SettingsMessage e)) @ [Element Button (plain\<lparr>el_disabled := pending\<rparr>) [Says Fixed]]))])"

definition Account :: "AuthUser option \<Rightarrow> settings_panel \<Rightarrow> bool \<Rightarrow> node list" where
  "Account user p pending =
     [heading,
      Element Para plain (optional user (\<lambda>u. Says (Value (au_email u)))),
      Element Para plain (optional user (\<lambda>u. Says (Value (au_role u))))] @
     map (\<lambda>to. link to [Says Fixed]) Account_links @
     [button, Element Section (plain\<lparr>el_id := Some ''deux-facteurs''\<rparr>) (TwoFactorSettings_section p pending)]"

section \<open>Home, the header, and a path without a page\<close>

definition Home :: "AuthUser option \<Rightarrow> node list" where
  "Home user = [heading, para] @ map (\<lambda>to. link to [Says Fixed]) (Home_links user)"

definition NotFound :: "node list" where
  "NotFound = [heading, para, link ''/'' [Says Fixed]]"

definition MainNav :: "UserRole \<Rightarrow> node" where
  "MainNav role = Element Nav (plain\<lparr>el_named := True\<rparr>) (map (\<lambda>(to, label). link to [Says (Value label)]) (NAV_ITEMS role))"

definition NotificationBell :: "bool \<Rightarrow> node" where
  "NotificationBell hasUnread = Element Anchor (plain\<lparr>el_to := Some ''/messages'', el_named := True,
     el_value := (if hasUnread then ''unread'' else ''none'')\<rparr>) (if hasUnread then [Element Span plain []] else [])"

definition AccountMenu :: "AuthUser option \<Rightarrow> node list" where
  "AccountMenu user = optional user (\<lambda>u. Element Menu (plain\<lparr>el_named := True\<rparr>)
     [Element Para plain [Says (Value (displayName u))], Element Para plain [Says (Value (au_email u))],
      Element MenuItem (plain\<lparr>el_to := Some ''/mon-compte''\<rparr>) [Says Fixed],
      Element MenuItem (plain\<lparr>el_to := Some ''/mon-compte#deux-facteurs''\<rparr>) [Says Fixed],
      Element MenuItem plain [Says Fixed]])"

text \<open>The account in the header and the role its navigation is for.\<close>

definition AppHeader :: "(AuthUser \<times> UserRole) option \<Rightarrow> bool \<Rightarrow> node list" where
  "AppHeader user hasUnread = link ''/'' [Element Span plain [Says Fixed]] #
     (case user of None \<Rightarrow> [] | Some (u, role) \<Rightarrow> [MainNav role, NotificationBell hasUnread] @ AccountMenu (Some u))"

definition AppLayout :: "(AuthUser \<times> UserRole) option \<Rightarrow> bool \<Rightarrow> node list \<Rightarrow> node list" where
  "AppLayout user hasUnread outlet = AppHeader user hasUnread @ outlet"

section \<open>What a page refers to\<close>

fun elements :: "node \<Rightarrow> (tag \<times> attributes) list" where
  "elements (Element tg a ns) = (tg, a) # concat (map elements ns)"
| "elements (Says w) = []"

definition gather :: "(tag \<times> attributes \<Rightarrow> 'a list) \<Rightarrow> node list \<Rightarrow> 'a list" where
  "gather f ns = concat (map f (concat (map elements ns)))"

definition option_list :: "'a option \<Rightarrow> 'a list" where
  "option_list x = (case x of None \<Rightarrow> [] | Some a \<Rightarrow> [a])"

fun is_control :: "tag \<Rightarrow> bool" where
  "is_control (Input ty) = True"
| "is_control Select = True"
| "is_control Textarea = True"
| "is_control tg = False"

definition ids :: "node list \<Rightarrow> string list" where
  "ids = gather (\<lambda>(tg, a). option_list (el_id a))"

definition label_targets :: "node list \<Rightarrow> string list" where
  "label_targets = gather (\<lambda>(tg, a). option_list (el_for a))"

definition control_ids :: "node list \<Rightarrow> string list" where
  "control_ids = gather (\<lambda>(tg, a). if is_control tg then option_list (el_id a) else [])"

definition unnamed_controls :: "node list \<Rightarrow> string option list" where
  "unnamed_controls = gather (\<lambda>(tg, a). if is_control tg \<and> \<not> el_named a then [el_id a] else [])"

definition descriptions :: "node list \<Rightarrow> string list" where
  "descriptions = gather (\<lambda>(tg, a). option_list (el_describedby a))"

definition links :: "node list \<Rightarrow> string list" where
  "links = gather (\<lambda>(tg, a). option_list (el_to a))"

definition titles :: "node list \<Rightarrow> unit list" where
  "titles = gather (\<lambda>(tg, a). if tg = H1 then [()] else [])"

text \<open>The segments of the path of a link, without its anchor.\<close>

definition segments :: "string \<Rightarrow> string list" where
  "segments to = filter (\<lambda>s. s \<noteq> []) (js_split (CHR ''/'') (takeWhile (\<lambda>c. c \<noteq> CHR ''#'') to))"

definition routed :: "string \<Rightarrow> bool" where
  "routed to \<longleftrightarrow> fst (routes (segments to)) \<noteq> NotFoundPage"

text \<open>
  Identifiers are unique; a label has its control and every control a name; a description exists; a link leads to a page; there is
  one title.
\<close>

definition wired :: "node list \<Rightarrow> bool" where
  "wired ns \<longleftrightarrow> distinct (ids ns) \<and> set (label_targets ns) \<subseteq> set (control_ids ns) \<and>
     set (unnamed_controls ns) \<subseteq> Some ` set (label_targets ns) \<and> set (descriptions ns) \<subseteq> set (ids ns) \<and>
     list_all routed (links ns) \<and> length (titles ns) = 1"

section \<open>Lemmas\<close>

lemma gather_simps [simp]:
  "gather f [] = []"
  "gather f (Element tg a ns # r) = f (tg, a) @ gather f ns @ gather f r"
  "gather f (Says w # r) = gather f r"
  "gather f (xs @ ys) = gather f xs @ gather f ys"
  by (simp_all add: gather_def)

lemma gather_map: "gather f (map g xs) = concat (map (\<lambda>x. gather f [g x]) xs)"
  by (simp add: gather_def o_def) (induction xs, simp_all)

lemma concat_map_Nil [simp]: "concat (map (\<lambda>x. []) xs) = []"
  by (induction xs) simp_all

lemmas wired_defs = wired_def ids_def label_targets_def control_ids_def unnamed_controls_def descriptions_def links_def titles_def
  option_list_def

lemmas element_defs = plain_def heading_def para_def status_line_def alert_def label_for_def link_def submit_button_def button_def
  choices_def retry_alert_def

text \<open>Routes: the fixed ones, and those with an identifier.\<close>

definition segment :: "string \<Rightarrow> bool" where
  "segment i \<longleftrightarrow> i \<noteq> [] \<and> CHR ''/'' \<notin> set i \<and> CHR ''#'' \<notin> set i"

lemma routed_fixed [simp]:
  "routed ''/''" "routed ''/login''" "routed ''/register''" "routed ''/mon-compte''" "routed ''/mon-compte#deux-facteurs''"
  "routed ''/mon-armurerie''" "routed ''/recherche''" "routed ''/messages''"
  by code_simp+

lemma takeWhile_hash: "CHR ''#'' \<notin> set i \<Longrightarrow> takeWhile (\<lambda>c. c \<noteq> CHR ''#'') i = i"
  by (induction i) auto

lemma routed_message [simp]: "segment i \<Longrightarrow> routed (''/messages/'' @ i)"
  using js_split_no_sep [of "CHR ''/''" i] by (simp add: segment_def routed_def segments_def takeWhile_hash routes_def)

lemma js_split_before: "c \<notin> set p \<Longrightarrow> js_split c (p @ c # s) = p # js_split c s"
  by (induction p) auto

lemma routed_locker [simp]: "segment i \<Longrightarrow> routed (''/freelances/'' @ i @ ''/armurerie'')"
  using js_split_before [of "CHR ''/''" i "''armurerie''"]
  by (simp add: segment_def routed_def segments_def takeWhile_append takeWhile_hash routes_def)

lemmas routed_with_id [simp] = routed_message [unfolded append_Cons append_Nil] routed_locker [unfolded append_Cons append_Nil]

text \<open>Each page, without the header.\<close>

definition contributes :: "string list \<Rightarrow> nat \<Rightarrow> node list \<Rightarrow> bool" where
  "contributes is n ns \<longleftrightarrow> ids ns = is \<and> label_targets ns = [] \<and> control_ids ns = [] \<and> unnamed_controls ns = [] \<and> descriptions ns = [] \<and>
     list_all routed (links ns) \<and> length (titles ns) = n"

lemma header_inert: "contributes [] 0 (AppHeader user hasUnread)"
  by (cases user) (auto simp: contributes_def AppHeader_def MainNav_def NotificationBell_def AccountMenu_def NAV_ITEMS_def optional_def
      wired_defs element_defs split: UserRole.splits)

lemma wired_prepend: "contributes [] 0 xs \<Longrightarrow> wired (xs @ ys) = wired ys"
  by (simp add: contributes_def wired_def ids_def label_targets_def control_ids_def unnamed_controls_def descriptions_def links_def titles_def)

lemma wired_Home: "wired (Home user)"
  by (cases user) (simp_all add: Home_def Home_links_def wired_defs element_defs)

lemma wired_NotFound: "wired NotFound"
  by (simp add: NotFound_def wired_defs element_defs)

lemma wired_Login: "wired (Login_page email password code p)"
  by (simp add: Login_page_def Let_def optional_def wired_defs element_defs split: option.split)

lemma wired_Register: "wired (Register p)"
  by (simp add: Register_def register_field_def optional_def gather_map wired_defs element_defs ROLES_def o_def split: option.split)

lemma wired_AddGear: "wired (AddGear p)"
  by (simp add: AddGear_def gear_field_def fieldError_def field_name_def optional_def gather_map wired_defs element_defs o_def split: option.split)

lemma wired_Account: "wired (Account user p pending)"
  by (simp add: Account_def Account_links_def TwoFactorSettings_section_def TwoFactorSettings_def settings_form_def optional_def gather_map
      wired_defs element_defs o_def split: option.split settings_body.split status_query.split prod.split)

lemma wired_Search:
  assumes "case s of Found rs \<Rightarrow> list_all (\<lambda>r. segment (mr_freelanceId r)) rs | _ \<Rightarrow> True"
  shows "wired (Search f p s h)"
  using assms
  by (cases s) (auto simp: Search_def SearchFilters_def SearchResultCard_def SearchMap_def locker_link_def optional_def gather_map list_all_iff
      wired_defs element_defs o_def split: option.split)

lemma wired_Messages:
  assumes "case q of Loaded cs \<Rightarrow> list_all (\<lambda>c. segment (peer_id (s_with c))) cs | _ \<Rightarrow> True"
  shows "wired (Messages q)"
  using assms
  by (cases q) (auto simp: Messages_def gather_map list_all_iff wired_defs element_defs o_def)

lemma wired_MessageThread: "wired (MessageThread me hist liveMessages draft sendError)"
  by (cases hist) (auto simp: MessageThread_def Let_def optional_def gather_map wired_defs element_defs o_def split: option.split)

section \<open>Property\<close>

text \<open>The pages in their states; the ones under \<open>ProtectedRoute\<close> have the header.\<close>

datatype view =
    HomeView "AuthUser option"
  | LoginView string string string login_page
  | RegisterView register_page
  | NotFoundView
  | AccountView "AuthUser option" settings_panel bool
  | AddGearView add_gear_page
  | SearchView filters search_page search "string option"
  | MessagesView "ConversationSummary list query"
  | ThreadView "string option" "ChatMessageView list query" "ChatMessageView list" string "string option"

fun render :: "(AuthUser \<times> UserRole) option \<Rightarrow> bool \<Rightarrow> view \<Rightarrow> node list" where
  "render user hasUnread (HomeView u) = Home u"
| "render user hasUnread (LoginView email password code p) = Login_page email password code p"
| "render user hasUnread (RegisterView p) = Register p"
| "render user hasUnread NotFoundView = NotFound"
| "render user hasUnread (AccountView u p pending) = AppLayout user hasUnread (Account u p pending)"
| "render user hasUnread (AddGearView p) = AppLayout user hasUnread (AddGear p)"
| "render user hasUnread (SearchView f p s h) = AppLayout user hasUnread (Search f p s h)"
| "render user hasUnread (MessagesView q) = AppLayout user hasUnread (Messages q)"
| "render user hasUnread (ThreadView me hist lv draft err) = AppLayout user hasUnread (MessageThread me hist lv draft err)"

text \<open>The identifiers in the answers of the API are segments of a path.\<close>

fun answers_ok :: "view \<Rightarrow> bool" where
  "answers_ok (SearchView f p (Found rs) h) = list_all (\<lambda>r. segment (mr_freelanceId r)) rs"
| "answers_ok (MessagesView (Loaded cs)) = list_all (\<lambda>c. segment (peer_id (s_with c))) cs"
| "answers_ok v = True"



text \<open>Every error a form can show is announced: an alert with its wording is on the page, and only then.\<close>

definition alerts :: "node list \<Rightarrow> wording list" where
  "alerts ns = concat (map (\<lambda>n. case n of Element Para a [Says w] \<Rightarrow> if el_role a = Some ''alert'' then [w] else [] | _ \<Rightarrow> [])
     (concat (map (\<lambda>n. case n of Element Form a ns \<Rightarrow> ns | _ \<Rightarrow> [n]) ns)))"

lemma add_gear_alerts:
  "alerts (AddGear p) = map FieldMessage (filter (\<lambda>f. f \<in> set (ag_errors p)) [CategoryField, BrandField, ModelField, SerialField]) @
     (case ag_apiError p of None \<Rightarrow> [] | Some e \<Rightarrow> if e = Shown [] then [] else [GearMessage e])"
  by (simp add: alerts_def AddGear_def fieldError_def gear_field_def optional_def element_defs split: option.split)

lemma register_alerts: "alerts (Register p) = map RegisterMessage (option_list (rg_error p))"
  by (simp add: alerts_def Register_def register_field_def optional_def option_list_def element_defs split: option.split)

text \<open>A submission of the gear form calls the API exactly when nothing is announced afterwards.\<close>

lemma submit_gear_alerts:
  "submit_gear p = (sent, p') \<Longrightarrow> sent \<noteq> None \<longleftrightarrow> alerts (AddGear p') = []"
  by (cases "handleSubmit_gear (ag_category p) (ag_brand p) (ag_model p) (ag_serialNumber p)")
    (auto simp: submit_gear_def add_gear_alerts handleSubmit_gear_def validate_input_def Let_def split: if_splits)

end
