(* ===== verification/FrontProgress.thy ===== *)
theory FrontProgress
  imports FrontSession
begin

text \<open>
  The client comes to rest (\<open>frontend-web/src/api/auth-interceptors.ts\<close>). The interceptors send requests of their own: a
  refresh on a 401, and the request again after it. \<open>interceptors_terminate\<close> is that this ends: from every state the client can
  reach, the answers of the network can go on for a number of steps that is known beforehand, and when none is left to come
  every request has been answered to its caller.
\<close>

section \<open>Answers of the network\<close>

text \<open>Steps of \<open>front_step\<close> in which something that is on the wire is answered; the application itself does nothing.\<close>

inductive answer_step :: "payload_parser \<Rightarrow> front \<Rightarrow> front \<Rightarrow> bool" for parse where
  answered: "fr_requests s n = Some r \<Longrightarrow> rc_phase r = Flying \<Longrightarrow> answer_step parse s (on_response n status s)"
| renewed: "i \<in> set (fr_posts s) \<Longrightarrow> set ns = waiting s \<Longrightarrow> distinct ns \<Longrightarrow> answer_step parse s (refresh_resolved parse ns i token s)"
| expired: "i \<in> set (fr_posts s) \<Longrightarrow> set ns = waiting s \<Longrightarrow> distinct ns \<Longrightarrow> answer_step parse s (refresh_rejected ns i s)"

lemma answer_front_step: "answer_step parse s s' \<Longrightarrow> front_step parse s s'"
  by (induction rule: answer_step.induct) (auto intro: front_step.intros)

text \<open>
  What a request can still cause: an answer, or a 401, the refresh it starts, and the answer to its second sending. A refresh on
  the wire counts for its own answer.
\<close>

fun weight :: "request \<Rightarrow> nat" where
  "weight r = (case rc_phase r of Flying \<Rightarrow> if rc_retried r then 1 else 3 | AwaitingRefresh \<Rightarrow> 1 | _ \<Rightarrow> 0)"

definition requests_work :: "(nat \<rightharpoonup> request) \<Rightarrow> nat" where
  "requests_work m = (\<Sum>n \<in> dom m. weight (the (m n)))"

definition work :: "front \<Rightarrow> nat" where
  "work s = requests_work (fr_requests s) + length (fr_posts s)"

section \<open>Finitely many requests\<close>

definition finitely :: "front \<Rightarrow> bool" where
  "finitely s \<longleftrightarrow> finite (dom (fr_requests s))"

lemma finitely_frame:
  "fr_requests s' = fr_requests s \<Longrightarrow> finitely s' = finitely s"
  by (simp add: finitely_def)

lemma dom_settle [simp]: "dom (fr_requests (settle n p s)) = dom (fr_requests s)"
  by (auto simp: settle_def dom_def)

lemma dom_replay [simp]: "dom (fr_requests (replay n s)) = dom (fr_requests s)"
  by (auto simp: replay_def fly_requests split: option.splits if_splits)

lemma dom_give_up [simp]: "dom (fr_requests (give_up n s)) = dom (fr_requests s)"
  by (simp add: give_up_def sends_frame split: option.split)

lemma dom_fold [simp]:
  "dom (fr_requests (fold replay ns s)) = dom (fr_requests s)" "dom (fr_requests (fold give_up ns s)) = dom (fr_requests s)"
  by (induction ns arbitrary: s) simp_all

lemma finitely_on_response: "finitely s \<Longrightarrow> finitely (on_response n status s)"
  by (auto simp: on_response_def finitely_def sends_frame split: option.splits)

lemma finitely_step: "front_step parse s s' \<Longrightarrow> finitely s \<Longrightarrow> finitely s'"
  by (induction rule: front_step.induct)
    (auto simp: finitely_on_response login_done_def split: login_response.splits,
     auto simp: finitely_def restore_session_def sends_frame send_request_def fly_requests refresh_resolved_def refresh_rejected_def Let_def
      verifyTwoFactor_done_def logout_done_def resetChatSocket_def getChatSocket_def cache_put_def)

lemma finitely_reachable: "(front_step parse)\<^sup>*\<^sup>* front0 s \<Longrightarrow> finitely s"
  by (induction rule: rtranclp_induct) (auto simp: finitely_def front0_def intro: finitely_step [unfolded finitely_def])

section \<open>Every answer uses up work\<close>

lemma requests_work_upd:
  assumes "finite (dom m)" "m n = Some r"
  shows "requests_work (m(n \<mapsto> r')) + weight r = requests_work m + weight r'"
proof -
  have d: "dom (m(n \<mapsto> r')) = insert n (dom m)" "n \<in> dom m" using assms(2) by auto
  have "(\<Sum>k \<in> dom m - {n}. weight (the ((m(n \<mapsto> r')) k))) = (\<Sum>k \<in> dom m - {n}. weight (the (m k)))"
    by (rule sum.cong) auto
  then have "requests_work (m(n \<mapsto> r')) = weight r' + (\<Sum>k \<in> dom m - {n}. weight (the (m k)))"
    unfolding requests_work_def d(1) insert_absorb [OF d(2)] by (subst sum.remove [OF assms(1) d(2)]) simp
  moreover have "requests_work m = weight r + (\<Sum>k \<in> dom m - {n}. weight (the (m k)))"
    unfolding requests_work_def by (subst sum.remove [OF assms(1) d(2)]) (simp add: assms(2))
  ultimately show ?thesis by simp
qed

lemma work_settle:
  assumes "finite (dom (fr_requests s))" "fr_requests s n = Some r" "p = Resolved \<or> p = Rejected"
  shows "requests_work (fr_requests (settle n p s)) + weight r = requests_work (fr_requests s)"
  using requests_work_upd [OF assms(1,2), of "r\<lparr>rc_phase := p\<rparr>"] assms(2,3) by (auto simp: settle_def)

lemma replay_work:
  assumes "finitely s" "requests_ok s"
  shows "requests_work (fr_requests (replay n s)) = requests_work (fr_requests s)"
proof (cases "\<exists>r. fr_requests s n = Some r \<and> rc_phase r = AwaitingRefresh")
  case True
  then obtain r where r: "fr_requests s n = Some r" "rc_phase r = AwaitingRefresh" by blast
  then have "rc_retried r" using assms(2) by (auto simp: requests_ok_def)
  then show ?thesis
    using r requests_work_upd [of "fr_requests s" n r "r\<lparr>rc_phase := Flying\<rparr>"] assms(1) by (simp add: replay_def fly_requests finitely_def)
qed (auto simp: replay_def split: option.splits)

lemma fold_replay_work:
  "finitely s \<Longrightarrow> requests_ok s \<Longrightarrow> requests_work (fr_requests (fold replay ns s)) = requests_work (fr_requests s)"
proof (induction ns arbitrary: s)
  case (Cons n ns)
  then have "finitely (replay n s)" "requests_ok (replay n s)" by (simp_all add: finitely_def requests_replay)
  from Cons.IH [OF this] show ?case using Cons.prems by (simp add: replay_work)
qed simp

lemma give_up_work: "finitely s \<Longrightarrow> requests_work (fr_requests (give_up n s)) \<le> requests_work (fr_requests s)"
  using work_settle [of s n _ Rejected] by (fastforce simp: give_up_def sends_frame finitely_def split: option.splits)

lemma fold_give_up_work: "finitely s \<Longrightarrow> requests_work (fr_requests (fold give_up ns s)) \<le> requests_work (fr_requests s)"
proof (induction ns arbitrary: s)
  case (Cons n ns)
  have "finitely (give_up n s)" using Cons.prems by (simp add: finitely_def)
  from order_trans [OF Cons.IH [OF this] give_up_work [OF Cons.prems]] show ?case by simp
qed simp

lemma on_response_work:
  assumes "finitely s" "fr_requests s n = Some r" "rc_phase r = Flying"
  shows "work (on_response n status s) < work s"
proof -
  have f: "finite (dom (fr_requests s))" using assms(1) by (simp add: finitely_def)
  have w: "weight r \<ge> 1" using assms(3) by simp
  have posts: "fr_posts (settle n p x) = fr_posts x" "fr_posts (clear_session x) = fr_posts x" for p x
    by (simp_all add: front_defs)
  have one: "work (settle n p s) < work s" if "p = Resolved \<or> p = Rejected" for p
    using work_settle [OF f assms(2) that] w by (simp add: work_def posts)
  have clear: "work (clear_session x) = work x" for x by (simp add: work_def sends_frame posts)
  have "work (refreshOnce (s\<lparr>fr_requests := (fr_requests s)(n \<mapsto> r\<lparr>rc_retried := True, rc_phase := AwaitingRefresh\<rparr>)\<rparr>)) < work s"
    if "\<not> rc_retried r"
  proof -
    have "requests_work ((fr_requests s)(n \<mapsto> r\<lparr>rc_retried := True, rc_phase := AwaitingRefresh\<rparr>)) + 3 = requests_work (fr_requests s) + 1"
      using requests_work_upd [OF f assms(2), of "r\<lparr>rc_retried := True, rc_phase := AwaitingRefresh\<rparr>"] that assms(3) by simp
    moreover have "length (fr_posts (refreshOnce x)) \<le> length (fr_posts x) + 1" for x
      by (simp add: refreshOnce_def split: option.split)
    from this [of "s\<lparr>fr_requests := (fr_requests s)(n \<mapsto> r\<lparr>rc_retried := True, rc_phase := AwaitingRefresh\<rparr>)\<rparr>"]
    have "length (fr_posts (refreshOnce (s\<lparr>fr_requests := (fr_requests s)(n \<mapsto> r\<lparr>rc_retried := True, rc_phase := AwaitingRefresh\<rparr>)\<rparr>)))
        \<le> length (fr_posts s) + 1" by simp
    ultimately show ?thesis unfolding work_def sends_frame(8) by simp
  qed
  with one clear show ?thesis using assms(2,3) by (auto simp: on_response_def)
qed

lemma posts_session [simp]: "fr_posts (setSession parse token s) = fr_posts s" "fr_posts (clear_session s) = fr_posts s"
  by (simp_all add: front_defs)

lemma shorter: "i \<in> set xs \<Longrightarrow> length (remove1 i xs) < length xs"
  by (induction xs) auto

lemma renewed_work:
  assumes "finitely s" "requests_ok s" "i \<in> set (fr_posts s)"
  shows "work (refresh_resolved parse ns i token s) < work s"
proof -
  let ?x = "(setSession parse token (s\<lparr>fr_posts := remove1 i (fr_posts s)\<rparr>))\<lparr>fr_refreshPromise := None\<rparr>"
  have "requests_work (fr_requests (fold replay ns ?x)) = requests_work (fr_requests s)"
    using fold_replay_work [of ?x ns] assms(1,2) by (simp add: finitely_def requests_frame sends_frame)
  moreover have "length (fr_posts (end_restore (fold replay ns ?x))) < length (fr_posts s)"
    using shorter [OF assms(3)] by (simp add: end_restore_def flight_fields_fold)
  ultimately show ?thesis by (simp add: work_def refresh_resolved_def sends_frame)
qed

lemma expired_work:
  assumes "finitely s" "i \<in> set (fr_posts s)"
  shows "work (refresh_rejected ns i s) < work s"
proof -
  let ?x = "s\<lparr>fr_posts := remove1 i (fr_posts s), fr_refreshPromise := None\<rparr>"
  have "requests_work (fr_requests (fold give_up ns ?x)) \<le> requests_work (fr_requests s)"
    using fold_give_up_work [of ?x ns] assms(1) by (simp add: finitely_def)
  moreover have "length (fr_posts (fold give_up ns ?x)) < length (fr_posts s)"
    using shorter [OF assms(2)] by (simp add: flight_fields_fold)
  ultimately show ?thesis
    by (auto simp: work_def refresh_rejected_def Let_def sends_frame end_restore_def)
qed

lemma answer_work:
  assumes "answer_step parse s s'" "finitely s" "front_ok s"
  shows "work s' < work s"
  using assms(1)
proof cases
  case (answered n r status)
  then show ?thesis using on_response_work [OF assms(2)] by simp
next
  case (renewed i ns token)
  then show ?thesis using renewed_work [OF assms(2)] assms(3) by (simp add: front_ok_def)
next
  case (expired i ns)
  then show ?thesis using expired_work [OF assms(2)] by simp
qed

lemma answers_work:
  assumes "(answer_step parse ^^ k) s s'" "finitely s" "front_ok s"
  shows "work s' + k \<le> work s \<and> finitely s' \<and> front_ok s'"
  using assms
proof (induction k arbitrary: s')
  case (Suc k)
  then obtain x where x: "(answer_step parse ^^ k) s x" "answer_step parse x s'" by auto
  with Suc.IH [OF x(1) Suc.prems(2,3)] answer_work [OF x(2)] finitely_step [OF answer_front_step [OF x(2)]]
    front_step_ok [OF answer_front_step [OF x(2)]]
  show ?case by simp
qed simp

section \<open>At rest\<close>

text \<open>Nothing is on the wire.\<close>

definition quiet :: "front \<Rightarrow> bool" where
  "quiet s \<longleftrightarrow> fr_posts s = [] \<and> (\<forall>n r. fr_requests s n = Some r \<longrightarrow> rc_phase r \<noteq> Flying)"

lemma quiet_iff_no_answer:
  assumes "finitely s"
  shows "quiet s \<longleftrightarrow> (\<nexists>s'. answer_step parse s s')"
proof
  show "quiet s \<Longrightarrow> \<nexists>s'. answer_step parse s s'" by (auto simp: quiet_def elim: answer_step.cases)
next
  assume none: "\<nexists>s'. answer_step parse s s'"
  have "finite (waiting s)"
    using assms by (auto simp: finitely_def waiting_def dom_def intro: finite_subset [rotated])
  then obtain ns where ns: "set ns = waiting s" "distinct ns" using finite_distinct_list by blast
  have "i \<notin> set (fr_posts s)" for i using none answer_step.expired [OF _ ns] by blast
  then have "fr_posts s = []" by (cases "fr_posts s") auto
  moreover have "rc_phase r \<noteq> Flying" if "fr_requests s n = Some r" for n r
    using none answer_step.answered [OF that] by blast
  ultimately show "quiet s" by (simp add: quiet_def)
qed

lemma quiet_settled:
  assumes "quiet s" "flight_ok s"
  shows "\<not> fr_restoring s \<and> fr_refreshPromise s = None \<and> (\<forall>n r. fr_requests s n = Some r \<longrightarrow> rc_phase r \<in> {Resolved, Rejected})"
proof -
  have "fr_refreshPromise s = None" "waiting s = {}" "\<not> fr_restoring s"
    using assms by (auto simp: quiet_def flight_ok_def split: option.splits)
  moreover have "rc_phase r \<in> {Resolved, Rejected}" if "fr_requests s n = Some r" for n r
    using that assms(1) \<open>waiting s = {}\<close> by (cases "rc_phase r") (auto simp: quiet_def waiting_def)
  ultimately show ?thesis by blast
qed

lemma rest_reached:
  "finitely s \<Longrightarrow> front_ok s \<Longrightarrow> \<exists>k s'. (answer_step parse ^^ k) s s' \<and> quiet s'"
proof (induction "work s" arbitrary: s rule: less_induct)
  case less
  show ?case
  proof (cases "quiet s")
    case True
    then show ?thesis by (intro exI [of _ 0]) auto
  next
    case False
    then obtain x where x: "answer_step parse s x" using quiet_iff_no_answer [OF less.prems(1)] by blast
    then obtain k s' where "(answer_step parse ^^ k) x s'" "quiet s'"
      using less.hyps [OF answer_work [OF x less.prems]] finitely_step [OF answer_front_step [OF x] less.prems(1)]
        front_step_ok [OF answer_front_step [OF x] less.prems(2)] by blast
    then show ?thesis using relpowp_Suc_I2 [of "answer_step parse" s x] x by blast
  qed
qed

section \<open>Property\<close>

text \<open>
  C35. The interceptors terminate. From a state the client can reach, at most \<open>work\<close> answers can follow one another, three for
  every request that was sent once and one for every refresh on the wire, however they turn out. They can always go on until nothing is on
  the wire, and not further; then no refresh is remembered, no session is being restored, and every request has been answered, with
  success or failure.
\<close>

theorem interceptors_terminate:
  assumes "(front_step parse)\<^sup>*\<^sup>* front0 s"
  shows "(\<exists>k s'. (answer_step parse ^^ k) s s' \<and> quiet s') \<and>
    (\<forall>k s'. (answer_step parse ^^ k) s s' \<longrightarrow> k \<le> work s \<and> (quiet s' \<longleftrightarrow> (\<nexists>x. answer_step parse s' x)) \<and>
       (quiet s' \<longrightarrow> \<not> fr_restoring s' \<and> fr_refreshPromise s' = None \<and>
          (\<forall>n r. fr_requests s' n = Some r \<longrightarrow> rc_phase r \<in> {Resolved, Rejected})))"
proof -
  have ok: "finitely s" "front_ok s" using finitely_reachable [OF assms] front_reachable_ok [OF assms] by simp_all
  have "k \<le> work s \<and> (quiet s' \<longleftrightarrow> (\<nexists>x. answer_step parse s' x)) \<and>
       (quiet s' \<longrightarrow> \<not> fr_restoring s' \<and> fr_refreshPromise s' = None \<and>
          (\<forall>n r. fr_requests s' n = Some r \<longrightarrow> rc_phase r \<in> {Resolved, Rejected}))"
    if "(answer_step parse ^^ k) s s'" for k s'
    using answers_work [OF that ok] quiet_iff_no_answer quiet_settled unfolding front_ok_def by (metis add_leD2)
  then show ?thesis using rest_reached [OF ok] by blast
qed

text \<open>The visit whose list met an expired token: one refresh and one second sending are left.\<close>

theorem interceptors_terminate_witness:
  "(front_step one_user)\<^sup>*\<^sup>* front0 (visit one_user) \<and> work (visit one_user) = 2 \<and> \<not> quiet (visit one_user) \<and>
   (\<exists>k s'. k \<le> 2 \<and> (answer_step one_user ^^ k) (visit one_user) s' \<and> quiet s')"
proof -
  have "fr_requests (visit one_user) = [0 \<mapsto> \<lparr>rc_url = ''/api/v1/gear/me'', rc_retried = True, rc_phase = AwaitingRefresh\<rparr>]"
    using visit_restored [of one_user "''a.b.c''"]
    by (simp add: visit_def on_response_def send_request_def fly_def cache_put_def sends_frame REFRESH_ENDPOINT_def)
  then have w: "work (visit one_user) = 2" using visit_ok(3) [of one_user] by (simp add: work_def requests_work_def)
  then show ?thesis
    using interceptors_terminate [OF visit_ok(1) [of one_user]] visit_ok [of one_user] by (auto simp: quiet_def)
qed

end
