(* ===== verification/SessionStore.thy ===== *)
theory SessionStore
  imports FrontSession
begin

text \<open>
  The store of \<open>features/auth/session-store.ts\<close> with its set of listeners, and the two kinds of component that subscribe: the providers
  of \<open>app/providers.tsx\<close>, which purge the query cache, and whoever reads the user through \<open>useSyncExternalStore\<close>. FrontSession has the
  purge as part of the two writes; \<open>store_simulates\<close> shows that this is what the listeners do, in any order, as long as the providers
  are mounted, and that every subscriber shows the current user.
\<close>

section \<open>The store and its listeners\<close>

text \<open>
  A listener is a closure: that of the providers keeps the last identity it saw, that of a component the user it shows. The set
  iterates in the order of insertion; a number stands for the identity of the function.
\<close>

datatype listener = Purge "string option" | View "AuthUser option"

record session_store =
  ss_token :: "string option"
  ss_user :: "AuthUser option"
  ss_listeners :: "(nat \<times> listener) list"
  ss_cache :: "(string \<times> string option) list"

definition store0 :: session_store where
  "store0 = \<lparr>ss_token = None, ss_user = None, ss_listeners = [], ss_cache = []\<rparr>"

fun notify :: "listener \<Rightarrow> AuthUser option \<Rightarrow> (string \<times> string option) list \<Rightarrow> listener \<times> (string \<times> string option) list" where
  "notify (Purge lastUserId) user cache = (let userId = map_option au_userId user in
     if userId \<noteq> lastUserId then (Purge userId, []) else (Purge lastUserId, cache))"
| "notify (View shown) user cache = (View user, cache)"

primrec notify_all :: "(nat \<times> listener) list \<Rightarrow> AuthUser option \<Rightarrow> (string \<times> string option) list \<Rightarrow>
    (nat \<times> listener) list \<times> (string \<times> string option) list" where
  "notify_all [] user cache = ([], cache)"
| "notify_all (p # ps) user cache = (case notify (snd p) user cache of (l, cache') \<Rightarrow>
     map_prod (Cons (fst p, l)) id (notify_all ps user cache'))"

definition emit_all :: "session_store \<Rightarrow> session_store" where
  "emit_all s = (case notify_all (ss_listeners s) (ss_user s) (ss_cache s) of (ps, cache) \<Rightarrow> s\<lparr>ss_listeners := ps, ss_cache := cache\<rparr>)"

definition store_setSession :: "payload_parser \<Rightarrow> string \<Rightarrow> session_store \<Rightarrow> session_store" where
  "store_setSession parse token s = emit_all (s\<lparr>ss_token := Some token, ss_user := decodeAccessToken parse token\<rparr>)"

definition store_clear :: "session_store \<Rightarrow> session_store" where
  "store_clear s = emit_all (s\<lparr>ss_token := None, ss_user := None\<rparr>)"

definition subscribe :: "nat \<Rightarrow> listener \<Rightarrow> session_store \<Rightarrow> session_store" where
  "subscribe n l s = (if n \<in> fst ` set (ss_listeners s) then s else s\<lparr>ss_listeners := ss_listeners s @ [(n, l)]\<rparr>)"

definition unsubscribe :: "nat \<Rightarrow> session_store \<Rightarrow> session_store" where
  "unsubscribe n s = s\<lparr>ss_listeners := filter (\<lambda>p. fst p \<noteq> n) (ss_listeners s)\<rparr>"

text \<open>The effect of the providers, and a component that reads the user; what runs when they are unmounted is \<open>unsubscribe\<close>.\<close>

definition AppProviders_effect :: "nat \<Rightarrow> session_store \<Rightarrow> session_store" where
  "AppProviders_effect n s = (let lastUserId = map_option au_userId (ss_user s) in subscribe n (Purge lastUserId) s)"

definition AuthProvider_user :: "nat \<Rightarrow> session_store \<Rightarrow> session_store" where
  "AuthProvider_user n s = subscribe n (View (ss_user s)) s"

text \<open>An answer that the query client keeps, with the identity it was fetched under.\<close>

definition store_put :: "string \<Rightarrow> session_store \<Rightarrow> session_store" where
  "store_put key s = s\<lparr>ss_cache := (key, map_option au_userId (ss_user s)) # ss_cache s\<rparr>"

section \<open>Simulation\<close>

fun purges :: "(nat \<times> listener) list \<Rightarrow> string option list" where
  "purges [] = []"
| "purges ((n, Purge u) # ps) = u # purges ps"
| "purges ((n, View v) # ps) = purges ps"

text \<open>The store is in the state of the session, the providers are mounted once, and what is shown is the user.\<close>

definition simulates :: "session_store \<Rightarrow> front \<Rightarrow> bool" where
  "simulates s f \<longleftrightarrow> ss_token s = fr_token f \<and> ss_user s = fr_user f \<and> ss_cache s = fr_cache f \<and>
     purges (ss_listeners s) = [fr_lastUserId f] \<and> (\<forall>n v. (n, View v) \<in> set (ss_listeners s) \<longrightarrow> v = fr_user f)"

lemma purges_append [simp]: "purges (ps @ qs) = purges ps @ purges qs"
  by (induction ps rule: purges.induct) auto

lemma purges_filter: "\<forall>u. (n, Purge u) \<notin> set ps \<Longrightarrow> purges (filter (\<lambda>p. fst p \<noteq> n) ps) = purges ps"
  by (induction ps rule: purges.induct) auto

text \<open>Without the providers a notification leaves the cache; with them it is purged when the identity changes.\<close>

lemma notify_all_views: "purges ps = [] \<Longrightarrow> snd (notify_all ps user cache) = cache \<and> purges (fst (notify_all ps user cache)) = []"
  by (induction ps rule: purges.induct) (auto split: prod.splits)

lemma notify_all_purge:
  "purges ps = [seen] \<Longrightarrow> snd (notify_all ps user cache) = (if map_option au_userId user \<noteq> seen then [] else cache) \<and>
     purges (fst (notify_all ps user cache)) = [map_option au_userId user]"
  using notify_all_views
  by (induction ps arbitrary: cache rule: purges.induct) (fastforce simp: Let_def split: prod.splits if_splits)+

lemma notify_all_shown: "(n, View v) \<in> set (fst (notify_all ps user cache)) \<Longrightarrow> v = user"
proof (induction ps arbitrary: cache)
  case (Cons p ps)
  obtain k l where p: "p = (k, l)" by fastforce
  with Cons show ?case by (cases l) (auto simp: Let_def split: prod.splits if_splits)
qed simp

lemma simulates_emit:
  assumes "ss_token s = fr_token f" "ss_user s = fr_user f" "ss_cache s = fr_cache f" "purges (ss_listeners s) = [fr_lastUserId f]"
  shows "simulates (emit_all s) (emit f)"
  using assms notify_all_purge [OF assms(4), of "ss_user s" "ss_cache s"] notify_all_shown [of _ _ "ss_listeners s" "ss_user s" "ss_cache s"]
  by (cases "notify_all (ss_listeners s) (ss_user s) (ss_cache s)") (auto simp: simulates_def emit_all_def emit_def Let_def)

text \<open>
  The writes, the mounting and unmounting of readers, and what the query client keeps, are what FrontSession has; the providers start
  it. React may run an effect, its cleanup and the effect again: the second subscription takes over.
\<close>

theorem store_simulates:
  assumes "simulates s f"
  shows "simulates (store_setSession parse token s) (setSession parse token f)"
    and "simulates (store_clear s) (clear_session f)"
    and "simulates (AuthProvider_user n s) f"
    and "(\<forall>u. (n, Purge u) \<notin> set (ss_listeners s)) \<Longrightarrow> simulates (unsubscribe n s) f"
    and "fr_lastUserId f = map_option au_userId (fr_user f) \<Longrightarrow> simulates (store_put key s) (cache_put key f)"
    and "(n, View v) \<in> set (ss_listeners s) \<Longrightarrow> v = fr_user f"
proof -
  show "simulates (store_setSession parse token s) (setSession parse token f)"
    unfolding store_setSession_def setSession_def by (rule simulates_emit) (use assms in \<open>simp_all add: simulates_def\<close>)
  show "simulates (store_clear s) (clear_session f)"
    unfolding store_clear_def clear_session_def by (rule simulates_emit) (use assms in \<open>simp_all add: simulates_def\<close>)
  show "simulates (AuthProvider_user n s) f"
    using assms by (auto simp: simulates_def AuthProvider_user_def subscribe_def)
  show "simulates (unsubscribe n s) f" if "\<forall>u. (n, Purge u) \<notin> set (ss_listeners s)"
    using assms purges_filter [OF that] by (auto simp: simulates_def unsubscribe_def)
  show "simulates (store_put key s) (cache_put key f)" if "fr_lastUserId f = map_option au_userId (fr_user f)"
    using assms that by (auto simp: simulates_def store_put_def cache_put_def)
  show "v = fr_user f" if "(n, View v) \<in> set (ss_listeners s)"
    using assms that by (auto simp: simulates_def)
qed

theorem providers_start:
  assumes "ss_token s = None" "ss_user s = None" "ss_cache s = []" "purges (ss_listeners s) = []"
    and "\<forall>k v. (k, View v) \<in> set (ss_listeners s) \<longrightarrow> v = None" "n \<notin> fst ` set (ss_listeners s)"
  shows "simulates (AppProviders_effect n s) front0"
    and "m \<notin> fst ` set (ss_listeners s) \<Longrightarrow> simulates (AppProviders_effect m (unsubscribe n (AppProviders_effect n s))) front0"
proof -
  have "filter (\<lambda>p. fst p \<noteq> n) (ss_listeners s) = ss_listeners s" using assms(6) by (force simp: filter_id_conv)
  then have "unsubscribe n (AppProviders_effect n s) = s"
    using assms(6) by (simp add: unsubscribe_def AppProviders_effect_def subscribe_def Let_def)
  moreover have "simulates (AppProviders_effect k s) front0" if "k \<notin> fst ` set (ss_listeners s)" for k
    using assms(1-5) that by (auto simp: simulates_def AppProviders_effect_def subscribe_def front0_def Let_def)
  ultimately show "simulates (AppProviders_effect n s) front0"
    "m \<notin> fst ` set (ss_listeners s) \<Longrightarrow> simulates (AppProviders_effect m (unsubscribe n (AppProviders_effect n s))) front0"
    using assms(6) by simp_all
qed

text \<open>Without the providers the cache of one user would outlive the change to another.\<close>

lemma cache_without_providers:
  assumes "purges (ss_listeners s) = []"
  shows "ss_cache (store_setSession parse token s) = ss_cache s" "ss_cache (store_clear s) = ss_cache s"
proof -
  have "ss_cache (emit_all t) = ss_cache t" if "ss_listeners t = ss_listeners s" for t
    using notify_all_views [of "ss_listeners t" "ss_user t" "ss_cache t"] assms that
    by (cases "notify_all (ss_listeners t) (ss_user t) (ss_cache t)") (simp add: emit_all_def)
  then show "ss_cache (store_setSession parse token s) = ss_cache s" "ss_cache (store_clear s) = ss_cache s"
    by (simp_all add: store_setSession_def store_clear_def)
qed

lemma store_simulates_initially: "simulates (AppProviders_effect 1 (AuthProvider_user 0 store0)) front0"
  by (rule providers_start) (auto simp: AuthProvider_user_def subscribe_def store0_def)

end
