(* ===== verification/SqlDdl.thy ===== *)
theory SqlDdl
  imports Prelude
begin

text \<open>
  The data definition statements of SQL that \<open>database/migrations\<close> uses, as PostgreSQL executes them on a database with
  rows: each fails when an object it creates exists, an object it names does not, an object it drops is still used, or the rows
  violate what it adds. A statement with several actions is the list of them: TypeORM runs a migration in a transaction.
\<close>

section \<open>Databases\<close>

text \<open>A value that a function of the server computes is \<open>Computed\<close> by its name; NULL is the absence of a value.\<close>

datatype sql_type = Uuid | Varchar | Enum string | GeographyPoint nat | Timestamptz | Date | Boolean | TextArray

datatype sql_value = Str string | Truth bool | Strs "string list" | Coords "rat list" | Computed string

datatype sql_default = Constant sql_value | Function string

record column =
  col_type :: sql_type
  col_not_null :: bool
  col_default :: "sql_default option"

datatype condition = Differs string string | IsNotNull string | Or condition condition

datatype constraint = Unique "string list" | PrimaryKey "string list" | ForeignKey "string list" string "string list" | Check condition

type_synonym sql_row = "string \<rightharpoonup> sql_value"

record sql_table =
  t_columns :: "(string \<times> column) list"
  t_constraints :: "(string \<times> constraint) list"
  t_rows :: "sql_row list"

record database =
  d_extensions :: "string list"
  d_types :: "(string \<times> string list) list"
  d_tables :: "(string \<times> sql_table) list"
  d_indexes :: "(string \<times> string \<times> string list) list"

definition empty_database :: database where
  "empty_database = \<lparr>d_extensions = [], d_types = [], d_tables = [], d_indexes = []\<rparr>"

abbreviation names :: "(string \<times> 'a) list \<Rightarrow> string set" where
  "names xs \<equiv> fst ` set xs"

definition remove :: "string \<Rightarrow> (string \<times> 'a) list \<Rightarrow> (string \<times> 'a) list" where
  "remove n = filter (\<lambda>x. fst x \<noteq> n)"

definition change :: "string \<Rightarrow> ('a \<Rightarrow> 'a) \<Rightarrow> (string \<times> 'a) list \<Rightarrow> (string \<times> 'a) list" where
  "change n f = map (\<lambda>x. (fst x, if fst x = n then f (snd x) else snd x))"

section \<open>Constraints\<close>

text \<open>Conditions have three values; a CHECK refuses a row for false only.\<close>

fun holds :: "condition \<Rightarrow> sql_row \<Rightarrow> bool option" where
  "holds (Differs c v) r = map_option (\<lambda>x. x \<noteq> Str v) (r c)"
| "holds (IsNotNull c) r = Some (r c \<noteq> None)"
| "holds (Or a b) r = (if holds a r = Some True \<or> holds b r = Some True then Some True
     else if holds a r = None \<or> holds b r = None then None else Some False)"

fun condition_columns :: "condition \<Rightarrow> string set" where
  "condition_columns (Differs c v) = {c}"
| "condition_columns (IsNotNull c) = {c}"
| "condition_columns (Or a b) = condition_columns a \<union> condition_columns b"

fun constraint_columns :: "constraint \<Rightarrow> string set" where
  "constraint_columns (Unique cs) = set cs"
| "constraint_columns (PrimaryKey cs) = set cs"
| "constraint_columns (ForeignKey cs r rcs) = set cs"
| "constraint_columns (Check p) = condition_columns p"

fun is_key :: "constraint \<Rightarrow> bool" where
  "is_key (Unique cs) = True"
| "is_key (PrimaryKey cs) = True"
| "is_key c = False"

text \<open>A foreign key needs a table with a key on the columns it refers to.\<close>

definition refers_to_key :: "(string \<times> sql_table) list \<Rightarrow> constraint \<Rightarrow> bool" where
  "refers_to_key ts c = (case c of
     ForeignKey cs r rcs \<Rightarrow> (\<exists>t \<in> set ts. fst t = r \<and> set rcs \<subseteq> names (t_columns (snd t)) \<and>
       (\<exists>k \<in> set (t_constraints (snd t)). is_key (snd k) \<and> constraint_columns (snd k) = set rcs))
   | _ \<Rightarrow> True)"

text \<open>The values of some columns, where none is NULL.\<close>

definition key_values :: "string list \<Rightarrow> sql_row \<Rightarrow> sql_value list option" where
  "key_values cs r = (if \<forall>c \<in> set cs. r c \<noteq> None then Some (map (\<lambda>c. the (r c)) cs) else None)"

definition present :: "'a option list \<Rightarrow> 'a list" where
  "present xs = map the (filter (\<lambda>x. x \<noteq> None) xs)"

fun satisfied :: "(string \<times> sql_table) list \<Rightarrow> sql_row list \<Rightarrow> constraint \<Rightarrow> bool" where
  "satisfied ts rs (Unique cs) = distinct (present (map (key_values cs) rs))"
| "satisfied ts rs (PrimaryKey cs) = (distinct (map (key_values cs) rs) \<and> None \<notin> set (map (key_values cs) rs))"
| "satisfied ts rs (ForeignKey cs r rcs) = (\<forall>x \<in> set rs. key_values cs x = None \<or>
     (\<exists>t \<in> set ts. fst t = r \<and> key_values cs x \<in> key_values rcs ` set (t_rows (snd t))))"
| "satisfied ts rs (Check p) = (\<forall>x \<in> set rs. holds p x \<noteq> Some False)"

section \<open>Statements\<close>

datatype statement =
    CreateExtension string
  | CreateType string "string list"
  | DropType string
  | CreateTable string "(string \<times> column) list" "(string \<times> constraint) list"
  | DropTable string
  | CreateIndex string string "string list"
  | DropIndex string
  | AddColumn string string column
  | DropColumn string string
  | AddConstraint string string constraint
  | DropConstraint string string

datatype sql_error = Duplicate string | Undefined string | InUse string | Violation string

text \<open>Tables, indexes and keys share one name space.\<close>

definition relations :: "database \<Rightarrow> string set" where
  "relations d = names (d_tables d) \<union> names (d_indexes d) \<union>
     (\<Union>t \<in> set (d_tables d). names (filter (\<lambda>c. is_key (snd c)) (t_constraints (snd t))))"

definition type_known :: "database \<Rightarrow> sql_type \<Rightarrow> bool" where
  "type_known d ty = (case ty of
     Enum n \<Rightarrow> n \<in> names (d_types d)
   | GeographyPoint srid \<Rightarrow> ''postgis'' \<in> set (d_extensions d)
   | _ \<Rightarrow> True)"

definition default_value :: "sql_default option \<Rightarrow> sql_value option" where
  "default_value x = (case x of None \<Rightarrow> None | Some (Constant v) \<Rightarrow> Some v | Some (Function f) \<Rightarrow> Some (Computed f))"

text \<open>A column, a type, a table that something else depends on.\<close>

definition column_referenced :: "(string \<times> sql_table) list \<Rightarrow> string \<Rightarrow> string \<Rightarrow> bool" where
  "column_referenced ts n c \<longleftrightarrow> (\<exists>t \<in> set ts. \<exists>k \<in> set (t_constraints (snd t)).
     case snd k of ForeignKey cs r rcs \<Rightarrow> r = n \<and> c \<in> set rcs | _ \<Rightarrow> False)"

definition type_used :: "(string \<times> sql_table) list \<Rightarrow> string \<Rightarrow> bool" where
  "type_used ts n \<longleftrightarrow> (\<exists>t \<in> set ts. \<exists>c \<in> set (t_columns (snd t)). col_type (snd c) = Enum n)"

definition table_referenced :: "(string \<times> sql_table) list \<Rightarrow> string \<Rightarrow> bool" where
  "table_referenced ts n \<longleftrightarrow> (\<exists>t \<in> set ts. fst t \<noteq> n \<and> (\<exists>k \<in> set (t_constraints (snd t)).
     case snd k of ForeignKey cs r rcs \<Rightarrow> r = n | _ \<Rightarrow> False))"

definition references_hold :: "(string \<times> sql_table) list \<Rightarrow> bool" where
  "references_hold ts \<longleftrightarrow> (\<forall>t \<in> set ts. \<forall>k \<in> set (t_constraints (snd t)). refers_to_key ts (snd k))"

fun exec :: "statement \<Rightarrow> database \<Rightarrow> sql_error + database" where
  "exec (CreateExtension n) d = Inr (d\<lparr>d_extensions := List.insert n (d_extensions d)\<rparr>)"
| "exec (CreateType n vs) d =
     (if n \<in> names (d_types d) then Inl (Duplicate n) else Inr (d\<lparr>d_types := d_types d @ [(n, vs)]\<rparr>))"
| "exec (DropType n) d =
     (if n \<notin> names (d_types d) then Inl (Undefined n)
      else if type_used (d_tables d) n then Inl (InUse n)
      else Inr (d\<lparr>d_types := remove n (d_types d)\<rparr>))"
| "exec (CreateTable n cols cs) d =
     (let ts = d_tables d @ [(n, \<lparr>t_columns = cols, t_constraints = cs, t_rows = []\<rparr>)] in
      if n \<in> relations d then Inl (Duplicate n)
      else if \<not> distinct (map fst cols) \<or> \<not> distinct (map fst cs) \<or>
        (\<exists>c \<in> set cs. is_key (snd c) \<and> (fst c \<in> relations d \<or> fst c = n)) then Inl (Duplicate n)
      else if (\<exists>c \<in> set cols. \<not> type_known d (col_type (snd c))) \<or>
        (\<exists>c \<in> set cs. \<not> constraint_columns (snd c) \<subseteq> names cols \<or> \<not> refers_to_key ts (snd c)) then Inl (Undefined n)
      else Inr (d\<lparr>d_tables := ts\<rparr>))"
| "exec (DropTable n) d =
     (if n \<notin> names (d_tables d) then Inl (Undefined n)
      else if table_referenced (d_tables d) n then Inl (InUse n)
      else Inr (d\<lparr>d_tables := remove n (d_tables d), d_indexes := filter (\<lambda>i. fst (snd i) \<noteq> n) (d_indexes d)\<rparr>))"
| "exec (CreateIndex n t cs) d =
     (if n \<in> relations d then Inl (Duplicate n)
      else case map_of (d_tables d) t of None \<Rightarrow> Inl (Undefined t)
      | Some tb \<Rightarrow> if \<not> set cs \<subseteq> names (t_columns tb) then Inl (Undefined n)
          else Inr (d\<lparr>d_indexes := d_indexes d @ [(n, t, cs)]\<rparr>))"
| "exec (DropIndex n) d =
     (if n \<notin> names (d_indexes d) then Inl (Undefined n)
      else Inr (d\<lparr>d_indexes := remove n (d_indexes d)\<rparr>))"
| "exec (AddColumn t n c) d =
     (case map_of (d_tables d) t of None \<Rightarrow> Inl (Undefined t)
      | Some tb \<Rightarrow>
          if n \<in> names (t_columns tb) then Inl (Duplicate n)
          else if \<not> type_known d (col_type c) then Inl (Undefined n)
          else if col_not_null c \<and> default_value (col_default c) = None \<and> t_rows tb \<noteq> [] then Inl (Violation n)
          else Inr (d\<lparr>d_tables := change t (\<lambda>x. x\<lparr>t_columns := t_columns x @ [(n, c)],
                 t_rows := map (\<lambda>r. r(n := default_value (col_default c))) (t_rows x)\<rparr>) (d_tables d)\<rparr>))"
| "exec (DropColumn t n) d =
     (case map_of (d_tables d) t of None \<Rightarrow> Inl (Undefined t)
      | Some tb \<Rightarrow>
          if n \<notin> names (t_columns tb) then Inl (Undefined n)
          else if column_referenced (d_tables d) t n then Inl (InUse n)
          else Inr (d\<lparr>d_tables := change t (\<lambda>x. x\<lparr>t_columns := remove n (t_columns x),
                 t_constraints := filter (\<lambda>k. n \<notin> constraint_columns (snd k)) (t_constraints x),
                 t_rows := map (\<lambda>r. r(n := None)) (t_rows x)\<rparr>) (d_tables d),
               d_indexes := filter (\<lambda>i. \<not> (fst (snd i) = t \<and> n \<in> set (snd (snd i)))) (d_indexes d)\<rparr>))"
| "exec (AddConstraint t n k) d =
     (case map_of (d_tables d) t of None \<Rightarrow> Inl (Undefined t)
      | Some tb \<Rightarrow>
          if n \<in> names (t_constraints tb) \<or> is_key k \<and> n \<in> relations d then Inl (Duplicate n)
          else if \<not> constraint_columns k \<subseteq> names (t_columns tb) \<or> \<not> refers_to_key (d_tables d) k then Inl (Undefined n)
          else if \<not> satisfied (d_tables d) (t_rows tb) k then Inl (Violation n)
          else Inr (d\<lparr>d_tables := change t (\<lambda>x. x\<lparr>t_constraints := t_constraints x @ [(n, k)]\<rparr>) (d_tables d)\<rparr>))"
| "exec (DropConstraint t n) d =
     (case map_of (d_tables d) t of None \<Rightarrow> Inl (Undefined t)
      | Some tb \<Rightarrow>
          let ts = change t (\<lambda>x. x\<lparr>t_constraints := remove n (t_constraints x)\<rparr>) (d_tables d) in
          if n \<notin> names (t_constraints tb) then Inl (Undefined n)
          else if \<not> references_hold ts then Inl (InUse n)
          else Inr (d\<lparr>d_tables := ts\<rparr>))"

primrec run :: "statement list \<Rightarrow> database \<Rightarrow> sql_error + database" where
  "run [] d = Inr d"
| "run (s # ss) d = (case exec s d of Inl e \<Rightarrow> Inl e | Inr d' \<Rightarrow> run ss d')"

lemma run_append: "run (ss @ ss') d = (case run ss d of Inl e \<Rightarrow> Inl e | Inr d' \<Rightarrow> run ss' d')"
  by (induction ss arbitrary: d) (simp_all split: sum.splits)

section \<open>Well-formed databases\<close>

text \<open>What is declared exists: the types of the columns, the columns of constraints, indexes and rows, the keys of foreign keys.\<close>

definition table_ok :: "database \<Rightarrow> sql_table \<Rightarrow> bool" where
  "table_ok d t \<longleftrightarrow> (\<forall>c \<in> set (t_columns t). type_known d (col_type (snd c))) \<and>
     (\<forall>k \<in> set (t_constraints t). constraint_columns (snd k) \<subseteq> names (t_columns t) \<and> refers_to_key (d_tables d) (snd k)) \<and>
     (\<forall>r \<in> set (t_rows t). dom r \<subseteq> names (t_columns t))"

definition index_ok :: "(string \<times> sql_table) list \<Rightarrow> string \<times> string \<times> string list \<Rightarrow> bool" where
  "index_ok ts i \<longleftrightarrow> (\<exists>t \<in> set ts. fst t = fst (snd i) \<and> set (snd (snd i)) \<subseteq> names (t_columns (snd t)))"

definition well_formed :: "database \<Rightarrow> bool" where
  "well_formed d \<longleftrightarrow> distinct (map fst (d_tables d)) \<and> (\<forall>t \<in> set (d_tables d). table_ok d (snd t)) \<and>
     (\<forall>i \<in> set (d_indexes d). index_ok (d_tables d) i)"

lemma well_formed_empty [simp]: "well_formed empty_database"
  by (simp add: well_formed_def empty_database_def)

lemma remove_absent [simp]: "n \<notin> names xs \<Longrightarrow> remove n xs = xs"
  by (force simp: remove_def filter_id_conv)

lemma remove_append [simp]: "remove n (xs @ ys) = remove n xs @ remove n ys"
  by (simp add: remove_def)

lemma remove_one [simp]: "remove n [(n, x)] = []"
  by (simp add: remove_def)

lemma set_remove [simp]: "set (remove n xs) = {x \<in> set xs. fst x \<noteq> n}"
  by (simp add: remove_def)

lemma names_remove [simp]: "fst ` {x \<in> set xs. fst x \<noteq> n} = names xs - {n}"
  by force

lemma names_change [simp]: "map fst (change n f xs) = map fst xs" "names (change n f xs) = names xs"
  by (simp_all add: change_def o_def image_image)

lemma change_mem: "x \<in> set (change n f xs) \<longleftrightarrow> (\<exists>y \<in> set xs. x = (fst y, if fst y = n then f (snd y) else snd y))"
  by (simp add: change_def image_iff)

lemma change_change: "(\<And>x. (n, x) \<in> set xs \<Longrightarrow> g (f x) = x) \<Longrightarrow> change n g (change n f xs) = xs"
  by (induction xs) (auto simp: change_def)

lemma map_of_change: "map_of (change n f xs) k = (if k = n then map_option f (map_of xs k) else map_of xs k)"
  by (induction xs) (auto simp: change_def)

lemma refers_to_key_cases:
  "refers_to_key ts c \<longleftrightarrow> (\<forall>cs r rcs. c = ForeignKey cs r rcs \<longrightarrow> (\<exists>t \<in> set ts. fst t = r \<and> set rcs \<subseteq> names (t_columns (snd t)) \<and>
       (\<exists>k \<in> set (t_constraints (snd t)). is_key (snd k) \<and> constraint_columns (snd k) = set rcs)))"
  by (cases c) (auto simp: refers_to_key_def)

lemma refers_to_key_mono:
  assumes "refers_to_key ts c"
    and "\<And>t cs r rcs. t \<in> set ts \<Longrightarrow> c = ForeignKey cs r rcs \<Longrightarrow> fst t = r \<Longrightarrow> \<exists>t' \<in> set ts'. fst t' = fst t \<and>
      names (t_columns (snd t)) \<inter> set rcs \<subseteq> names (t_columns (snd t')) \<and>
      (\<forall>k \<in> set (t_constraints (snd t)). constraint_columns (snd k) = set rcs \<longrightarrow> k \<in> set (t_constraints (snd t')))"
  shows "refers_to_key ts' c"
  unfolding refers_to_key_cases
proof (intro allI impI)
  fix cs r rcs assume c: "c = ForeignKey cs r rcs"
  then obtain t k where t: "t \<in> set ts" "fst t = r" "set rcs \<subseteq> names (t_columns (snd t))"
    and k: "k \<in> set (t_constraints (snd t))" "is_key (snd k)" "constraint_columns (snd k) = set rcs"
    using assms(1) unfolding refers_to_key_cases by blast
  obtain t' where t': "t' \<in> set ts'" "fst t' = fst t" "names (t_columns (snd t)) \<inter> set rcs \<subseteq> names (t_columns (snd t'))"
    "k \<in> set (t_constraints (snd t'))"
    using assms(2) [OF t(1) c t(2)] k by blast
  with t k show "\<exists>t \<in> set ts'. fst t = r \<and> set rcs \<subseteq> names (t_columns (snd t)) \<and>
      (\<exists>k \<in> set (t_constraints (snd t)). is_key (snd k) \<and> constraint_columns (snd k) = set rcs)"
    by (intro bexI [of _ t']) auto
qed

text \<open>A change of one table that keeps what the other tables refer to, on each of the three parts.\<close>

lemma well_formed_tables:
  assumes "well_formed d" "distinct (map fst ts)"
    and "\<And>t. t \<in> set ts \<Longrightarrow> table_ok (d\<lparr>d_tables := ts\<rparr>) (snd t)"
    and "\<And>i. i \<in> set (d_indexes d) \<Longrightarrow> index_ok ts i"
  shows "well_formed (d\<lparr>d_tables := ts\<rparr>)"
  using assms by (simp add: well_formed_def)

lemma type_known_tables [simp]: "type_known (d\<lparr>d_tables := ts\<rparr>) = type_known d" "type_known (d\<lparr>d_indexes := is\<rparr>) = type_known d"
  by (simp_all add: type_known_def fun_eq_iff split: sql_type.splits)

lemma table_member: "map_of ts n = Some t \<Longrightarrow> (n, t) \<in> set ts" "distinct (map fst ts) \<Longrightarrow> (n, t) \<in> set ts \<Longrightarrow> map_of ts n = Some t"
  by (auto dest: map_of_SomeD)

lemma well_formed_change:
  assumes wf: "well_formed d" and ix: "set ixs \<subseteq> set (d_indexes d)"
    and new: "\<And>x. (t, x) \<in> set (d_tables d) \<Longrightarrow> table_ok d x \<Longrightarrow>
      (\<forall>c \<in> set (t_columns (f x)). type_known d (col_type (snd c))) \<and>
      (\<forall>k \<in> set (t_constraints (f x)). constraint_columns (snd k) \<subseteq> names (t_columns (f x)) \<and>
         (k \<notin> set (t_constraints x) \<longrightarrow> refers_to_key (change t f (d_tables d)) (snd k))) \<and>
      (\<forall>r \<in> set (t_rows (f x)). dom r \<subseteq> names (t_columns (f x)))"
    and refs: "\<And>s k. s \<in> set (d_tables d) \<Longrightarrow> k \<in> set (t_constraints (snd s)) \<Longrightarrow>
      (fst s = t \<Longrightarrow> k \<in> set (t_constraints (f (snd s)))) \<Longrightarrow> refers_to_key (change t f (d_tables d)) (snd k)"
    and idx: "\<And>i x. i \<in> set ixs \<Longrightarrow> fst (snd i) = t \<Longrightarrow> (t, x) \<in> set (d_tables d) \<Longrightarrow>
      set (snd (snd i)) \<subseteq> names (t_columns x) \<Longrightarrow> set (snd (snd i)) \<subseteq> names (t_columns (f x))"
  shows "well_formed (d\<lparr>d_tables := change t f (d_tables d), d_indexes := ixs\<rparr>)" (is "well_formed ?d'")
  unfolding well_formed_def
proof (intro conjI ballI)
  show "distinct (map fst (d_tables ?d'))" using wf by (simp add: well_formed_def)
  fix i assume i: "i \<in> set (d_indexes ?d')"
  then have "index_ok (d_tables d) i" using wf ix by (auto simp: well_formed_def)
  then obtain s where s: "s \<in> set (d_tables d)" "fst s = fst (snd i)" "set (snd (snd i)) \<subseteq> names (t_columns (snd s))"
    unfolding index_ok_def by blast
  show "index_ok (d_tables ?d') i"
  proof (cases "fst s = t")
    case True
    then have "(t, snd s) \<in> set (d_tables d)" using s(1) by (metis prod.collapse)
    then have "set (snd (snd i)) \<subseteq> names (t_columns (f (snd s)))" using idx [of i "snd s"] i s True by simp
    moreover have "(t, f (snd s)) \<in> set (change t f (d_tables d))" using s(1) True by (auto simp: change_mem intro!: bexI [of _ s])
    ultimately show ?thesis using s(2) True by (auto simp: index_ok_def intro!: bexI [of _ "(t, f (snd s))"])
  next
    case False
    with s show ?thesis by (auto simp: index_ok_def change_mem intro!: bexI [of _ s])
  qed
next
  fix s' assume "s' \<in> set (d_tables ?d')"
  then obtain s where s: "s \<in> set (d_tables d)" "s' = (fst s, if fst s = t then f (snd s) else snd s)"
    by (auto simp: change_mem)
  have ok: "table_ok d (snd s)" using wf s(1) by (simp add: well_formed_def)
  show "table_ok ?d' (snd s')"
  proof (cases "fst s = t")
    case True
    then have "(t, snd s) \<in> set (d_tables d)" using s(1) by (metis prod.collapse)
    note new [OF this ok]
    moreover have "refers_to_key (change t f (d_tables d)) (snd k)" if "k \<in> set (t_constraints (f (snd s)))" for k
      using calculation refs [OF s(1), of k] that by blast
    ultimately show ?thesis using True s(2) by (auto simp: table_ok_def)
  next
    case False
    have "refers_to_key (change t f (d_tables d)) (snd k)" if "k \<in> set (t_constraints (snd s))" for k
      using refs [OF s(1) that] False by blast
    with ok s(2) False show ?thesis by (auto simp: table_ok_def)
  qed
qed

text \<open>Growing a table, and the other changes of one list.\<close>

lemma refers_to_key_grow:
  assumes "refers_to_key ts c" "\<And>x. (t, x) \<in> set ts \<Longrightarrow> names (t_columns x) \<subseteq> names (t_columns (f x)) \<and>
    set (t_constraints x) \<subseteq> set (t_constraints (f x))"
  shows "refers_to_key (change t f ts) c"
proof (rule refers_to_key_mono [OF assms(1)])
  fix s cs r rcs assume s: "s \<in> set ts" and "fst s = r"
  let ?s = "(fst s, if fst s = t then f (snd s) else snd s)"
  have "fst s = t \<Longrightarrow> (t, snd s) \<in> set ts" using s by (metis prod.collapse)
  then show "\<exists>t' \<in> set (change t f ts). fst t' = fst s \<and> names (t_columns (snd s)) \<inter> set rcs \<subseteq> names (t_columns (snd t')) \<and>
      (\<forall>k \<in> set (t_constraints (snd s)). constraint_columns (snd k) = set rcs \<longrightarrow> k \<in> set (t_constraints (snd t')))"
    using assms(2) [of "snd s"] s by (intro bexI [of _ ?s]) (auto simp: change_mem)
qed

lemma refers_to_key_more: "refers_to_key ts c \<Longrightarrow> set ts \<subseteq> set ts' \<Longrightarrow> refers_to_key ts' c"
  by (rule refers_to_key_mono) auto

lemma well_formed_grow:
  assumes "well_formed d"
    and "\<And>x. (t, x) \<in> set (d_tables d) \<Longrightarrow> names (t_columns x) \<subseteq> names (t_columns (f x)) \<and> set (t_constraints x) \<subseteq> set (t_constraints (f x))"
    and "\<And>x. (t, x) \<in> set (d_tables d) \<Longrightarrow> table_ok d x \<Longrightarrow>
      (\<forall>c \<in> set (t_columns (f x)). type_known d (col_type (snd c))) \<and>
      (\<forall>k \<in> set (t_constraints (f x)). constraint_columns (snd k) \<subseteq> names (t_columns (f x)) \<and> refers_to_key (d_tables d) (snd k)) \<and>
      (\<forall>r \<in> set (t_rows (f x)). dom r \<subseteq> names (t_columns (f x)))"
  shows "well_formed (d\<lparr>d_tables := change t f (d_tables d)\<rparr>)"
proof -
  have "well_formed (d\<lparr>d_tables := change t f (d_tables d), d_indexes := d_indexes d\<rparr>)"
  proof (rule well_formed_change [OF assms(1)])
    fix s k assume "s \<in> set (d_tables d)" "k \<in> set (t_constraints (snd s))"
    then show "refers_to_key (change t f (d_tables d)) (snd k)"
      using assms(1,2) by (intro refers_to_key_grow) (auto simp: well_formed_def table_ok_def)
  next
    fix x assume x: "(t, x) \<in> set (d_tables d)" "table_ok d x"
    show "(\<forall>c \<in> set (t_columns (f x)). type_known d (col_type (snd c))) \<and>
      (\<forall>k \<in> set (t_constraints (f x)). constraint_columns (snd k) \<subseteq> names (t_columns (f x)) \<and>
         (k \<notin> set (t_constraints x) \<longrightarrow> refers_to_key (change t f (d_tables d)) (snd k))) \<and>
      (\<forall>r \<in> set (t_rows (f x)). dom r \<subseteq> names (t_columns (f x)))"
      using assms(3) [OF x] refers_to_key_grow [OF _ assms(2)] by blast
  next
    fix i x assume "(t, x) \<in> set (d_tables d)" "set (snd (snd i)) \<subseteq> names (t_columns x)"
    then show "set (snd (snd i)) \<subseteq> names (t_columns (f x))" using assms(2) by blast
  qed simp
  then show ?thesis by simp
qed

text \<open>Every statement keeps a database well formed.\<close>

lemma exec_add:
  assumes "well_formed d" "exec s d = Inr d'" "s = AddColumn t n c \<or> s = AddConstraint t n k"
  shows "well_formed d'"
  using assms(3)
proof
  assume s: "s = AddColumn t n c"
  let ?f = "\<lambda>x. x\<lparr>t_columns := t_columns x @ [(n, c)], t_rows := map (\<lambda>r. r(n := default_value (col_default c))) (t_rows x)\<rparr>"
  have d': "d' = d\<lparr>d_tables := change t ?f (d_tables d)\<rparr>" and c: "type_known d (col_type c)"
    using assms(2) s by (auto split: option.splits if_splits)
  have rows: "dom (r(n := v)) \<subseteq> insert n (names (t_columns x))" if "table_ok d x" "r \<in> set (t_rows x)" for x r v
  proof -
    have "dom (r(n := v)) \<subseteq> insert n (dom r)" by auto
    with that show ?thesis unfolding table_ok_def by blast
  qed
  show ?thesis unfolding d'
  proof (rule well_formed_grow [OF assms(1)])
    fix x assume x: "table_ok d x"
    then show "(\<forall>c \<in> set (t_columns (?f x)). type_known d (col_type (snd c))) \<and>
      (\<forall>k \<in> set (t_constraints (?f x)). constraint_columns (snd k) \<subseteq> names (t_columns (?f x)) \<and> refers_to_key (d_tables d) (snd k)) \<and>
      (\<forall>r \<in> set (t_rows (?f x)). dom r \<subseteq> names (t_columns (?f x)))"
      using c rows [OF x] by (auto simp: table_ok_def simp del: dom_fun_upd)
  qed auto
next
  assume s: "s = AddConstraint t n k"
  let ?f = "\<lambda>x. x\<lparr>t_constraints := t_constraints x @ [(n, k)]\<rparr>"
  obtain tb where tb: "map_of (d_tables d) t = Some tb" "constraint_columns k \<subseteq> names (t_columns tb)" "refers_to_key (d_tables d) k"
    and d': "d' = d\<lparr>d_tables := change t ?f (d_tables d)\<rparr>"
    using assms(2) s by (auto split: option.splits if_splits)
  have same: "x = tb" if "(t, x) \<in> set (d_tables d)" for x
    using table_member(2) [OF _ that] tb(1) assms(1) by (simp add: well_formed_def)
  show ?thesis unfolding d'
    by (rule well_formed_grow [OF assms(1)]) (use tb same in \<open>auto simp: table_ok_def\<close>)
qed

lemma well_formed_types:
  assumes "well_formed d" "d_tables d' = d_tables d" "d_indexes d' = d_indexes d"
    and "\<And>t c. t \<in> set (d_tables d) \<Longrightarrow> c \<in> set (t_columns (snd t)) \<Longrightarrow> type_known d (col_type (snd c)) \<Longrightarrow> type_known d' (col_type (snd c))"
  shows "well_formed d'"
  using assms unfolding well_formed_def table_ok_def by auto

lemma table_ok_indexes [simp]: "table_ok (d\<lparr>d_indexes := ixs\<rparr>) = table_ok d"
  by (simp add: table_ok_def fun_eq_iff)

lemma table_ok_tables:
  "table_ok d x \<Longrightarrow> (\<And>k. k \<in> set (t_constraints x) \<Longrightarrow> refers_to_key ts (snd k)) \<Longrightarrow> table_ok (d\<lparr>d_tables := ts\<rparr>) x"
  unfolding table_ok_def by simp

lemma well_formedD:
  "well_formed d \<Longrightarrow> t \<in> set (d_tables d) \<Longrightarrow> table_ok d (snd t)"
  "well_formed d \<Longrightarrow> i \<in> set (d_indexes d) \<Longrightarrow> index_ok (d_tables d) i"
  "well_formed d \<Longrightarrow> distinct (map fst (d_tables d))"
  "well_formed d \<Longrightarrow> t \<in> set (d_tables d) \<Longrightarrow> k \<in> set (t_constraints (snd t)) \<Longrightarrow> refers_to_key (d_tables d) (snd k)"
  unfolding well_formed_def table_ok_def by blast+

lemma exec_types:
  assumes "well_formed d" "exec s d = Inr d'" "s = CreateExtension n \<or> s = CreateType n vs \<or> s = DropType n"
  shows "well_formed d'"
  using assms(3)
proof (elim disjE)
  assume "s = CreateExtension n"
  then have "d' = d\<lparr>d_extensions := List.insert n (d_extensions d)\<rparr>" using assms(2) by simp
  then show ?thesis by (intro well_formed_types [OF assms(1)]) (auto simp: type_known_def split: sql_type.splits)
next
  assume "s = CreateType n vs"
  then have "d' = d\<lparr>d_types := d_types d @ [(n, vs)]\<rparr>" using assms(2) by (auto split: if_splits)
  then show ?thesis by (intro well_formed_types [OF assms(1)]) (auto simp: type_known_def split: sql_type.splits)
next
  assume "s = DropType n"
  then have d': "d' = d\<lparr>d_types := remove n (d_types d)\<rparr>" "\<not> type_used (d_tables d) n"
    using assms(2) by (auto split: if_splits)
  have "type_known d' (col_type (snd c))"
    if "t \<in> set (d_tables d)" "c \<in> set (t_columns (snd t))" "type_known d (col_type (snd c))" for t c
  proof -
    have "col_type (snd c) \<noteq> Enum n" using d'(2) that unfolding type_used_def by blast
    with that(3) show ?thesis by (cases "col_type (snd c)") (auto simp: d' type_known_def)
  qed
  then show ?thesis by (intro well_formed_types [OF assms(1)]) (auto simp: d')
qed

lemma exec_create_table:
  assumes "well_formed d" "exec (CreateTable n cols cs) d = Inr d'"
  shows "well_formed d'"
proof -
  let ?t = "\<lparr>t_columns = cols, t_constraints = cs, t_rows = []\<rparr>"
  let ?ts = "d_tables d @ [(n, ?t)]"
  have new: "n \<notin> names (d_tables d)" "\<forall>c \<in> set cols. type_known d (col_type (snd c))"
    "\<forall>c \<in> set cs. constraint_columns (snd c) \<subseteq> names cols \<and> refers_to_key ?ts (snd c)" and d': "d' = d\<lparr>d_tables := ?ts\<rparr>"
    using assms(2) by (auto simp: relations_def Let_def split: if_splits)
  have old: "table_ok (d\<lparr>d_tables := ?ts\<rparr>) (snd t)" if "t \<in> set (d_tables d)" for t
    by (rule table_ok_tables [OF well_formedD(1) [OF assms(1) that] refers_to_key_more [OF well_formedD(4) [OF assms(1) that]]]) auto
  have "table_ok (d\<lparr>d_tables := ?ts\<rparr>) ?t" using new by (simp add: table_ok_def)
  with old have "table_ok (d\<lparr>d_tables := ?ts\<rparr>) (snd t)" if "t \<in> set ?ts" for t
    using that by (cases "t \<in> set (d_tables d)") simp_all
  moreover have "index_ok ?ts i" if "i \<in> set (d_indexes d)" for i
    using well_formedD(2) [OF assms(1) that] by (auto simp: index_ok_def)
  ultimately show ?thesis
    unfolding d' using assms(1) new(1) by (intro well_formed_tables) (auto dest: well_formedD(3))
qed

lemma exec_drop_table:
  assumes "well_formed d" "exec (DropTable n) d = Inr d'"
  shows "well_formed d'"
proof -
  have unref: "\<not> table_referenced (d_tables d) n"
    and d': "d' = d\<lparr>d_tables := remove n (d_tables d), d_indexes := filter (\<lambda>i. fst (snd i) \<noteq> n) (d_indexes d)\<rparr>"
    using assms(2) by (auto split: if_splits)
  have refs: "refers_to_key (remove n (d_tables d)) (snd k)" if t: "t \<in> set (d_tables d)" "fst t \<noteq> n" "k \<in> set (t_constraints (snd t))" for t k
  proof (rule refers_to_key_mono [OF well_formedD(4) [OF assms(1) t(1,3)]])
    fix s cs r rcs assume s: "s \<in> set (d_tables d)" "snd k = ForeignKey cs r rcs" "fst s = r"
    then have "r \<noteq> n" using unref t by (force simp: table_referenced_def)
    with s show "\<exists>t' \<in> set (remove n (d_tables d)). fst t' = fst s \<and> names (t_columns (snd s)) \<inter> set rcs \<subseteq> names (t_columns (snd t')) \<and>
        (\<forall>k \<in> set (t_constraints (snd s)). constraint_columns (snd k) = set rcs \<longrightarrow> k \<in> set (t_constraints (snd t')))"
      by (intro bexI [of _ s]) auto
  qed
  have "table_ok d' (snd t)" if "t \<in> set (d_tables d')" for t
    using that refs [of t] table_ok_tables [OF well_formedD(1) [OF assms(1)], of t "remove n (d_tables d)"] by (auto simp: d')
  moreover have "index_ok (d_tables d') i" if "i \<in> set (d_indexes d')" for i
    using that well_formedD(2) [OF assms(1), of i] unfolding d' index_ok_def by fastforce
  moreover have "distinct (map fst (d_tables d'))"
    using well_formedD(3) [OF assms(1)] by (simp add: d' remove_def distinct_map_filter)
  ultimately show ?thesis unfolding well_formed_def by blast
qed

lemma exec_indexes:
  assumes "well_formed d" "exec s d = Inr d'" "s = CreateIndex n t cs \<or> s = DropIndex n"
  shows "well_formed d'"
  using assms(3)
proof
  assume "s = DropIndex n"
  then have "d' = d\<lparr>d_indexes := remove n (d_indexes d)\<rparr>" using assms(2) by (auto split: if_splits)
  then show ?thesis using assms(1) by (auto simp: well_formed_def)
next
  assume "s = CreateIndex n t cs"
  then obtain tb where tb: "map_of (d_tables d) t = Some tb" "set cs \<subseteq> names (t_columns tb)"
    and d': "d' = d\<lparr>d_indexes := d_indexes d @ [(n, t, cs)]\<rparr>"
    using assms(2) by (auto split: if_splits option.splits)
  have "index_ok (d_tables d) (n, t, cs)"
    using tb table_member(1) [OF tb(1)] by (auto simp: index_ok_def intro!: bexI [of _ "(t, tb)"])
  then show ?thesis using assms(1) by (auto simp: d' well_formed_def)
qed

lemma exec_drop_column:
  assumes "well_formed d" "exec (DropColumn t n) d = Inr d'"
  shows "well_formed d'"
proof -
  let ?f = "\<lambda>x. x\<lparr>t_columns := remove n (t_columns x), t_constraints := filter (\<lambda>k. n \<notin> constraint_columns (snd k)) (t_constraints x),
     t_rows := map (\<lambda>r. r(n := None)) (t_rows x)\<rparr>"
  let ?ixs = "filter (\<lambda>i. \<not> (fst (snd i) = t \<and> n \<in> set (snd (snd i)))) (d_indexes d)"
  have unref: "\<not> column_referenced (d_tables d) t n"
    and d': "d' = d\<lparr>d_tables := change t ?f (d_tables d), d_indexes := ?ixs\<rparr>"
    using assms(2) by (auto split: option.splits if_splits)
  show ?thesis unfolding d'
  proof (rule well_formed_change [OF assms(1)])
    fix s k assume k: "s \<in> set (d_tables d)" "k \<in> set (t_constraints (snd s))"
    show "refers_to_key (change t ?f (d_tables d)) (snd k)"
    proof (rule refers_to_key_mono [OF well_formedD(4) [OF assms(1) k]])
      fix u cs r rcs assume u: "u \<in> set (d_tables d)" "snd k = ForeignKey cs r rcs" "fst u = r"
      then have "r = t \<Longrightarrow> n \<notin> set rcs" using unref k by (force simp: column_referenced_def)
      with u show "\<exists>t' \<in> set (change t ?f (d_tables d)). fst t' = fst u \<and> names (t_columns (snd u)) \<inter> set rcs \<subseteq> names (t_columns (snd t')) \<and>
          (\<forall>k \<in> set (t_constraints (snd u)). constraint_columns (snd k) = set rcs \<longrightarrow> k \<in> set (t_constraints (snd t')))"
        by (intro bexI [of _ "(fst u, if fst u = t then ?f (snd u) else snd u)"] conjI ballI impI)
          (auto simp: change_mem intro: bexI [of _ u])
    qed
  next
    fix x assume ok: "table_ok d x"
    have k: "c \<in> names (t_columns x)" if "c \<in> constraint_columns k" "(m, k) \<in> set (t_constraints x)" for m k c
      using ok that by (fastforce simp: table_ok_def)
    have r: "c \<in> names (t_columns x)" if "r c = Some v" "r \<in> set (t_rows x)" for r c v
      using ok that by (fastforce simp: table_ok_def)
    from ok show "(\<forall>c \<in> set (t_columns (?f x)). type_known d (col_type (snd c))) \<and>
      (\<forall>k \<in> set (t_constraints (?f x)). constraint_columns (snd k) \<subseteq> names (t_columns (?f x)) \<and>
         (k \<notin> set (t_constraints x) \<longrightarrow> refers_to_key (change t ?f (d_tables d)) (snd k))) \<and>
      (\<forall>r \<in> set (t_rows (?f x)). dom r \<subseteq> names (t_columns (?f x)))"
      unfolding table_ok_def by (auto dest: k r)
  next
    fix i x assume "i \<in> set ?ixs" "fst (snd i) = t" "set (snd (snd i)) \<subseteq> names (t_columns x)"
    then show "set (snd (snd i)) \<subseteq> names (t_columns (?f x))" by force
  qed simp
qed

lemma exec_drop_constraint:
  assumes "well_formed d" "exec (DropConstraint t n) d = Inr d'"
  shows "well_formed d'"
proof -
  let ?f = "\<lambda>x. x\<lparr>t_constraints := remove n (t_constraints x)\<rparr>"
  have hold: "references_hold (change t ?f (d_tables d))" and d': "d' = d\<lparr>d_tables := change t ?f (d_tables d)\<rparr>"
    using assms(2) by (auto simp: Let_def split: option.splits if_splits)
  have "table_ok (d\<lparr>d_tables := change t ?f (d_tables d)\<rparr>) (snd s)" if "s \<in> set (change t ?f (d_tables d))" for s
  proof (rule table_ok_tables)
    obtain u where u: "u \<in> set (d_tables d)" "s = (fst u, if fst u = t then ?f (snd u) else snd u)"
      using \<open>s \<in> _\<close> unfolding change_mem by blast
    have "table_ok d (?f (snd u))" using well_formedD(1) [OF assms(1) u(1)] by (simp add: table_ok_def)
    then show "table_ok d (snd s)" using well_formedD(1) [OF assms(1) u(1)] u(2) by simp
  qed (use that hold in \<open>unfold references_hold_def, blast\<close>)
  moreover have "index_ok (change t ?f (d_tables d)) i" if "i \<in> set (d_indexes d)" for i
  proof -
    obtain u where "u \<in> set (d_tables d)" "fst u = fst (snd i)" "set (snd (snd i)) \<subseteq> names (t_columns (snd u))"
      using well_formedD(2) [OF assms(1) \<open>i \<in> set (d_indexes d)\<close>] by (auto simp: index_ok_def)
    then show ?thesis
      by (intro index_ok_def [THEN iffD2] bexI [of _ "(fst u, if fst u = t then ?f (snd u) else snd u)"])
        (auto simp: change_mem intro: bexI [of _ u])
  qed
  ultimately show ?thesis unfolding d' using assms(1) by (intro well_formed_tables) (simp_all add: well_formed_def)
qed

lemma exec_well_formed:
  assumes "well_formed d" "exec s d = Inr d'"
  shows "well_formed d'"
  using assms by (cases s) (blast intro: exec_types exec_create_table exec_drop_table exec_indexes exec_add exec_drop_column exec_drop_constraint)+

lemma run_well_formed: "well_formed d \<Longrightarrow> run ss d = Inr d' \<Longrightarrow> well_formed d'"
  by (induction ss arbitrary: d) (auto split: sum.splits dest: exec_well_formed simp del: exec.simps)

section \<open>Undoing statements\<close>

fun undo :: "statement \<Rightarrow> statement" where
  "undo (CreateType n vs) = DropType n"
| "undo (CreateTable n cols cs) = DropTable n"
| "undo (CreateIndex n t cs) = DropIndex n"
| "undo (AddColumn t n c) = DropColumn t n"
| "undo (AddConstraint t n k) = DropConstraint t n"
| "undo s = s"

fun creates :: "statement \<Rightarrow> bool" where
  "creates (CreateType n vs) = True"
| "creates (CreateTable n cols cs) = True"
| "creates (CreateIndex n t cs) = True"
| "creates (AddColumn t n c) = True"
| "creates (AddConstraint t n k) = True"
| "creates s = False"

lemma foreign_key_case:
  "(case c of ForeignKey cs r rcs \<Rightarrow> r = n | _ \<Rightarrow> False) \<longleftrightarrow> (\<exists>cs rcs. c = ForeignKey cs n rcs)"
  "(case c of ForeignKey cs r rcs \<Rightarrow> r = n \<and> x \<in> set rcs | _ \<Rightarrow> False) \<longleftrightarrow> (\<exists>cs rcs. c = ForeignKey cs n rcs \<and> x \<in> set rcs)"
  by (cases c; auto)+

lemma referenced_iff:
  "table_referenced ts n \<longleftrightarrow> (\<exists>t k cs rcs. t \<in> set ts \<and> k \<in> set (t_constraints (snd t)) \<and> fst t \<noteq> n \<and> snd k = ForeignKey cs n rcs)"
  "column_referenced ts n c \<longleftrightarrow> (\<exists>t k cs rcs. t \<in> set ts \<and> k \<in> set (t_constraints (snd t)) \<and> snd k = ForeignKey cs n rcs \<and> c \<in> set rcs)"
  unfolding table_referenced_def column_referenced_def foreign_key_case by blast+

lemma column_referenced_change:
  "(\<And>x. t_constraints (f x) = t_constraints x) \<Longrightarrow> column_referenced (change t f ts) n c = column_referenced ts n c"
  by (simp add: column_referenced_def change_def)

text \<open>What was not there before is used by nothing.\<close>

lemma fresh_table:
  assumes "well_formed d" "n \<notin> names (d_tables d)"
  shows "\<not> table_referenced (d_tables d) n" "filter (\<lambda>i. fst (snd i) \<noteq> n) (d_indexes d) = d_indexes d"
proof -
  have "n \<noteq> r" if "t \<in> set (d_tables d)" "k \<in> set (t_constraints (snd t))" "snd k = ForeignKey cs r rcs" for t k cs r rcs
    using well_formedD(4) [OF assms(1) that(1,2)] that(3) assms(2) by (auto simp: refers_to_key_def)
  then show "\<not> table_referenced (d_tables d) n" unfolding referenced_iff by blast
  have "fst (snd i) \<noteq> n" if "i \<in> set (d_indexes d)" for i
    using well_formedD(2) [OF assms(1) that] assms(2) unfolding index_ok_def by force
  then show "filter (\<lambda>i. fst (snd i) \<noteq> n) (d_indexes d) = d_indexes d" by (simp add: filter_id_conv)
qed

lemma fresh_column:
  assumes "well_formed d" "map_of (d_tables d) t = Some tb" "n \<notin> names (t_columns tb)"
  shows "\<not> column_referenced (d_tables d) t n"
    "filter (\<lambda>i. \<not> (fst (snd i) = t \<and> n \<in> set (snd (snd i)))) (d_indexes d) = d_indexes d"
    "filter (\<lambda>k. n \<notin> constraint_columns (snd k)) (t_constraints tb) = t_constraints tb"
    "r \<in> set (t_rows tb) \<Longrightarrow> r n = None"
proof -
  have ok: "table_ok d tb" using well_formedD(1) [OF assms(1) table_member(1) [OF assms(2)]] by simp
  have same: "x = tb" if "(t, x) \<in> set (d_tables d)" for x
    using table_member(2) [OF well_formedD(3) [OF assms(1)] that] assms(2) by simp
  have "n \<notin> set rcs" if k: "s \<in> set (d_tables d)" "k \<in> set (t_constraints (snd s))" "snd k = ForeignKey cs t rcs" for s k cs rcs
  proof -
    obtain x where "(t, x) \<in> set (d_tables d)" "set rcs \<subseteq> names (t_columns x)"
      using well_formedD(4) [OF assms(1) k(1,2)] k(3) by (auto simp: refers_to_key_def)
    with same assms(3) show ?thesis by blast
  qed
  then show "\<not> column_referenced (d_tables d) t n" unfolding referenced_iff by blast
  have "n \<notin> set (snd (snd i))" if i: "i \<in> set (d_indexes d)" "fst (snd i) = t" for i
  proof -
    obtain s where s: "s \<in> set (d_tables d)" "fst s = t" "set (snd (snd i)) \<subseteq> names (t_columns (snd s))"
      using well_formedD(2) [OF assms(1) i(1)] i(2) by (auto simp: index_ok_def)
    then have "(t, snd s) \<in> set (d_tables d)" by (metis prod.collapse)
    from same [OF this] s(3) assms(3) show ?thesis by blast
  qed
  then show "filter (\<lambda>i. \<not> (fst (snd i) = t \<and> n \<in> set (snd (snd i)))) (d_indexes d) = d_indexes d" by (simp add: filter_id_conv)
  have "n \<notin> constraint_columns (snd k)" if "k \<in> set (t_constraints tb)" for k
    using ok that assms(3) unfolding table_ok_def by blast
  then show "filter (\<lambda>k. n \<notin> constraint_columns (snd k)) (t_constraints tb) = t_constraints tb" by (simp add: filter_id_conv)
  show "r n = None" if "r \<in> set (t_rows tb)"
    using ok that assms(3) unfolding table_ok_def by blast
qed

lemma undo_add_column:
  assumes "well_formed d" "exec (AddColumn t n c) d = Inr d'"
  shows "exec (DropColumn t n) d' = Inr d"
proof -
  let ?f = "\<lambda>x. x\<lparr>t_columns := t_columns x @ [(n, c)], t_rows := map (\<lambda>r. r(n := default_value (col_default c))) (t_rows x)\<rparr>"
  let ?g = "\<lambda>x. x\<lparr>t_columns := remove n (t_columns x), t_constraints := filter (\<lambda>k. n \<notin> constraint_columns (snd k)) (t_constraints x),
     t_rows := map (\<lambda>r. r(n := None)) (t_rows x)\<rparr>"
  obtain tb where tb: "map_of (d_tables d) t = Some tb" "n \<notin> names (t_columns tb)"
    and d': "d' = d\<lparr>d_tables := change t ?f (d_tables d)\<rparr>"
    using assms(2) by (auto split: option.splits if_splits)
  note fresh = fresh_column [OF assms(1) tb]
  have "?g (?f x) = x" if "(t, x) \<in> set (d_tables d)" for x
  proof -
    have x: "x = tb" using table_member(2) [OF well_formedD(3) [OF assms(1)] that] tb(1) by simp
    have "map (\<lambda>r. r(n := None)) (map (\<lambda>r. r(n := default_value (col_default c))) (t_rows tb)) = t_rows tb"
      using fresh(4) by (auto intro!: map_idI simp: fun_upd_idem)
    with fresh(3) tb(2) show ?thesis unfolding x by (cases tb) simp
  qed
  then have tables: "change t ?g (change t ?f (d_tables d)) = d_tables d" by (rule change_change)
  have unref: "\<not> column_referenced (change t ?f (d_tables d)) t n"
    using fresh(1) by (subst column_referenced_change) simp_all
  have "exec (DropColumn t n) d' = Inr (d\<lparr>d_tables := change t ?g (change t ?f (d_tables d)),
      d_indexes := filter (\<lambda>i. \<not> (fst (snd i) = t \<and> n \<in> set (snd (snd i)))) (d_indexes d)\<rparr>)"
    using unref tb(1) by (simp add: d' map_of_change)
  with tables fresh(2) show ?thesis by simp
qed

lemma undo_add_constraint:
  assumes "well_formed d" "exec (AddConstraint t n k) d = Inr d'"
  shows "exec (DropConstraint t n) d' = Inr d"
proof -
  let ?f = "\<lambda>x. x\<lparr>t_constraints := t_constraints x @ [(n, k)]\<rparr>" and ?g = "\<lambda>x. x\<lparr>t_constraints := remove n (t_constraints x)\<rparr>"
  obtain tb where tb: "map_of (d_tables d) t = Some tb" "n \<notin> names (t_constraints tb)"
    and d': "d' = d\<lparr>d_tables := change t ?f (d_tables d)\<rparr>"
    using assms(2) by (auto split: option.splits if_splits)
  have "?g (?f x) = x" if "(t, x) \<in> set (d_tables d)" for x
    using table_member(2) [OF well_formedD(3) [OF assms(1)] that] tb by simp
  then have tables: "change t ?g (change t ?f (d_tables d)) = d_tables d" by (rule change_change)
  have "references_hold (d_tables d)" using well_formedD(4) [OF assms(1)] by (simp add: references_hold_def)
  then show ?thesis using tb(1) tables by (simp add: d' map_of_change Let_def)
qed

lemma undo_create:
  assumes "well_formed d" "exec s d = Inr d'" "creates s"
  shows "exec (undo s) d' = Inr d"
proof (cases s)
  case (CreateType n vs)
  then have new: "n \<notin> names (d_types d)" and d': "d' = d\<lparr>d_types := d_types d @ [(n, vs)]\<rparr>" using assms(2) by (auto split: if_splits)
  have "\<not> type_used (d_tables d) n"
    using new well_formedD(1) [OF assms(1)] by (fastforce simp: type_used_def table_ok_def type_known_def)
  with CreateType new show ?thesis by (simp add: d')
next
  case (CreateTable n cols cs)
  let ?t = "\<lparr>t_columns = cols, t_constraints = cs, t_rows = []\<rparr>"
  have new: "n \<notin> names (d_tables d)" and d': "d' = d\<lparr>d_tables := d_tables d @ [(n, ?t)]\<rparr>"
    using assms(2) CreateTable by (auto simp: relations_def Let_def split: if_splits)
  have "\<not> table_referenced (d_tables d @ [(n, ?t)]) n"
    using fresh_table(1) [OF assms(1) new] by (auto simp: table_referenced_def)
  with CreateTable new fresh_table(2) [OF assms(1) new] show ?thesis by (simp add: d')
next
  case (CreateIndex n t cs)
  then show ?thesis using assms(2) by (auto simp: relations_def split: if_splits option.splits)
next
  case (AddColumn t n c)
  with assms show ?thesis using undo_add_column by simp
next
  case (AddConstraint t n k)
  with assms show ?thesis using undo_add_constraint by simp
qed (use assms(3) in simp_all)

lemma undo_run:
  assumes "well_formed d" "run ss d = Inr d'" "list_all creates ss"
  shows "run (rev (map undo ss)) d' = Inr d"
  using assms
proof (induction ss arbitrary: d)
  case (Cons s ss)
  obtain d1 where d1: "exec s d = Inr d1" "run ss d1 = Inr d'" using Cons.prems(2) by (auto split: sum.splits)
  then have "run (rev (map undo ss)) d' = Inr d1"
    using Cons.IH exec_well_formed [OF Cons.prems(1)] Cons.prems(3) by simp
  with d1(1) undo_create [OF Cons.prems(1)] Cons.prems(3) show ?case by (simp add: run_append del: exec.simps)
qed simp

end
