(* ===== verification/Migrations.thy ===== *)
theory Migrations
  imports SqlDdl Schema
begin

text \<open>
  The migrations of \<open>database/migrations\<close>, in the order of their timestamps, as statements of SqlDdl; what TypeORM's decorators
  declare for the three entities; and the row of an account. The properties are that each
  migration is undone by its \<open>down\<close>, on any database with any rows, and that the migrated schema is the one the entities declare.
\<close>

section \<open>Migrations\<close>

record migration =
  m_name :: string
  m_up :: "statement list"
  m_down :: "statement list"

definition not_null :: "sql_type \<Rightarrow> sql_default option \<Rightarrow> column" where
  "not_null ty dflt = \<lparr>col_type = ty, col_not_null = True, col_default = dflt\<rparr>"

definition nullable :: "sql_type \<Rightarrow> column" where
  "nullable ty = \<lparr>col_type = ty, col_not_null = False, col_default = None\<rparr>"

definition InitSchema :: migration where
  "InitSchema = \<lparr>m_name = ''InitSchema1718960000000'',
     m_up = [
       CreateExtension ''postgis'',
       CreateType ''users_role_enum'' [''FREELANCE'', ''RECRUITER'', ''ADMIN''],
       CreateType ''gear_status_enum'' [''PENDING'', ''VALIDATED'', ''REJECTED''],
       CreateTable ''users'' [
         (''id'', not_null Uuid (Some (Function ''gen_random_uuid''))),
         (''email'', not_null Varchar None),
         (''username'', not_null Varchar None),
         (''passwordHash'', not_null Varchar None),
         (''role'', not_null (Enum ''users_role_enum'') (Some (Constant (Str ''FREELANCE'')))),
         (''location'', nullable (GeographyPoint 4326)),
         (''createdAt'', not_null Timestamptz (Some (Function ''now'')))] [
         (''UQ_users_email'', Unique [''email'']),
         (''PK_users_id'', PrimaryKey [''id''])],
       CreateIndex ''IDX_users_role'' ''users'' [''role''],
       CreateIndex ''IDX_users_location'' ''users'' [''location''],
       CreateTable ''gear'' [
         (''id'', not_null Uuid (Some (Function ''gen_random_uuid''))),
         (''brand'', not_null Varchar None),
         (''model'', not_null Varchar None),
         (''serialNumber'', not_null Varchar None),
         (''status'', not_null (Enum ''gear_status_enum'') (Some (Constant (Str ''PENDING'')))),
         (''createdAt'', not_null Timestamptz (Some (Function ''now''))),
         (''freelanceId'', not_null Uuid None)] [
         (''PK_gear_id'', PrimaryKey [''id''])],
       CreateIndex ''IDX_gear_freelanceId'' ''gear'' [''freelanceId''],
       AddConstraint ''gear'' ''FK_gear_freelance'' (ForeignKey [''freelanceId''] ''users'' [''id''])],
     m_down = [
       DropConstraint ''gear'' ''FK_gear_freelance'',
       DropIndex ''IDX_gear_freelanceId'',
       DropTable ''gear'',
       DropIndex ''IDX_users_location'',
       DropIndex ''IDX_users_role'',
       DropTable ''users'',
       DropType ''gear_status_enum'',
       DropType ''users_role_enum'']\<rparr>"

definition AddGearCategory :: migration where
  "AddGearCategory = \<lparr>m_name = ''AddGearCategory1719050000000'',
     m_up = [
       CreateType ''gear_category_enum'' [''DRONE'', ''CAMERA_360'', ''ROBOTICS'', ''SENSOR'', ''OTHER''],
       AddColumn ''gear'' ''category'' (not_null (Enum ''gear_category_enum'') (Some (Constant (Str ''OTHER'')))),
       CreateIndex ''IDX_gear_category'' ''gear'' [''category''],
       CreateIndex ''IDX_gear_status'' ''gear'' [''status'']],
     m_down = [
       DropIndex ''IDX_gear_status'',
       DropIndex ''IDX_gear_category'',
       DropColumn ''gear'' ''category'',
       DropType ''gear_category_enum'']\<rparr>"

definition AddCertifications :: migration where
  "AddCertifications = \<lparr>m_name = ''AddCertifications1719150000000'',
     m_up = [
       CreateType ''certifications_type_enum'' [''DGAC_DRONE'', ''ELEC_HABILITATION'', ''OTHER''],
       CreateType ''certifications_status_enum'' [''PENDING'', ''VALIDATED'', ''REJECTED''],
       CreateTable ''user_certifications'' [
         (''id'', not_null Uuid (Some (Function ''gen_random_uuid''))),
         (''type'', not_null (Enum ''certifications_type_enum'') (Some (Constant (Str ''OTHER'')))),
         (''number'', not_null Varchar None),
         (''validUntil'', not_null Date None),
         (''status'', not_null (Enum ''certifications_status_enum'') (Some (Constant (Str ''PENDING'')))),
         (''s3Key'', nullable Varchar),
         (''mimeType'', not_null Varchar None),
         (''uploadedAt'', not_null Timestamptz (Some (Function ''now''))),
         (''reviewedAt'', nullable Timestamptz),
         (''purgedAt'', nullable Timestamptz),
         (''freelanceId'', not_null Uuid None)] [
         (''PK_user_certifications_id'', PrimaryKey [''id''])],
       CreateIndex ''IDX_certifications_status'' ''user_certifications'' [''status''],
       CreateIndex ''IDX_certifications_freelanceId'' ''user_certifications'' [''freelanceId''],
       AddConstraint ''user_certifications'' ''FK_certifications_freelance'' (ForeignKey [''freelanceId''] ''users'' [''id''])],
     m_down = [
       DropConstraint ''user_certifications'' ''FK_certifications_freelance'',
       DropIndex ''IDX_certifications_freelanceId'',
       DropIndex ''IDX_certifications_status'',
       DropTable ''user_certifications'',
       DropType ''certifications_status_enum'',
       DropType ''certifications_type_enum'']\<rparr>"

definition AddFreelanceLocationCheck :: migration where
  "AddFreelanceLocationCheck = \<lparr>m_name = ''AddFreelanceLocationCheck1719250000000'',
     m_up = [AddConstraint ''users'' ''CHK_users_freelance_location'' (Check (Or (Differs ''role'' ''FREELANCE'') (IsNotNull ''location'')))],
     m_down = [DropConstraint ''users'' ''CHK_users_freelance_location'']\<rparr>"

definition AddTwoFactorColumns :: migration where
  "AddTwoFactorColumns = \<lparr>m_name = ''AddTwoFactorColumns1719350000000'',
     m_up = [
       AddColumn ''users'' ''twoFactorEnabled'' (not_null Boolean (Some (Constant (Truth False)))),
       AddColumn ''users'' ''twoFactorSecretEncrypted'' (nullable Varchar),
       AddColumn ''users'' ''twoFactorBackupCodesHashed'' (nullable TextArray)],
     m_down = [
       DropColumn ''users'' ''twoFactorBackupCodesHashed'',
       DropColumn ''users'' ''twoFactorSecretEncrypted'',
       DropColumn ''users'' ''twoFactorEnabled'']\<rparr>"

definition AddGearLoadout :: migration where
  "AddGearLoadout = \<lparr>m_name = ''AddGearLoadout1719450000000'',
     m_up = [AddColumn ''gear'' ''isInLoadout'' (not_null Boolean (Some (Constant (Truth False))))],
     m_down = [DropColumn ''gear'' ''isInLoadout'']\<rparr>"

text \<open>The files of the glob in \<open>data-source.ts\<close>, by timestamp.\<close>

definition MIGRATIONS :: "migration list" where
  "MIGRATIONS = [InitSchema, AddGearCategory, AddCertifications, AddFreelanceLocationCheck, AddTwoFactorColumns, AddGearLoadout]"

definition migrate :: "migration list \<Rightarrow> database \<Rightarrow> sql_error + database" where
  "migrate ms = run (concat (map m_up ms))"

definition revert :: "migration list \<Rightarrow> database \<Rightarrow> sql_error + database" where
  "revert ms = run (concat (map m_down (rev ms)))"

lemmas migration_defs = InitSchema_def AddGearCategory_def AddCertifications_def AddFreelanceLocationCheck_def
  AddTwoFactorColumns_def AddGearLoadout_def

section \<open>What the entities declare\<close>

text \<open>
  The decorators of an entity: a generated or computed default is \<open>Generated\<close>, the members of an enum stand for its type.
\<close>

datatype field_type = Plain sql_type | Members "string list"

datatype field_default = NoDefault | Generated | Initial sql_value

record field =
  f_type :: field_type
  f_not_null :: bool
  f_default :: field_default

definition Column :: "field_type \<Rightarrow> field_default \<Rightarrow> field" where
  "Column ty dflt = \<lparr>f_type = ty, f_not_null = True, f_default = dflt\<rparr>"

definition NullableColumn :: "field_type \<Rightarrow> field" where
  "NullableColumn ty = \<lparr>f_type = ty, f_not_null = False, f_default = NoDefault\<rparr>"

definition PrimaryGeneratedColumn :: field where
  "PrimaryGeneratedColumn = Column (Plain Uuid) Generated"

definition CreateDateColumn :: field where
  "CreateDateColumn = Column (Plain Timestamptz) Generated"

fun role_value :: "UserRole \<Rightarrow> string" where
  "role_value FREELANCE = ''FREELANCE''"
| "role_value RECRUITER = ''RECRUITER''"
| "role_value ADMIN = ''ADMIN''"

fun gear_status_value :: "GearStatus \<Rightarrow> string" where
  "gear_status_value GearStatus.PENDING = ''PENDING''"
| "gear_status_value GearStatus.VALIDATED = ''VALIDATED''"
| "gear_status_value GearStatus.REJECTED = ''REJECTED''"

fun category_value :: "GearCategory \<Rightarrow> string" where
  "category_value DRONE = ''DRONE''"
| "category_value CAMERA_360 = ''CAMERA_360''"
| "category_value ROBOTICS = ''ROBOTICS''"
| "category_value SENSOR = ''SENSOR''"
| "category_value GearCategory.OTHER = ''OTHER''"

fun certification_type_value :: "CertificationType \<Rightarrow> string" where
  "certification_type_value DGAC_DRONE = ''DGAC_DRONE''"
| "certification_type_value ELEC_HABILITATION = ''ELEC_HABILITATION''"
| "certification_type_value CertificationType.OTHER = ''OTHER''"

fun certification_status_value :: "CertificationStatus \<Rightarrow> string" where
  "certification_status_value CertificationStatus.PENDING = ''PENDING''"
| "certification_status_value CertificationStatus.VALIDATED = ''VALIDATED''"
| "certification_status_value CertificationStatus.REJECTED = ''REJECTED''"

text \<open>An entity: its fields, the columns with an index (\<open>True\<close>: unique), and its owner column, where it has one.\<close>

record entity =
  e_table :: string
  e_fields :: "(string \<times> field) list"
  e_indexed :: "(string \<times> bool) list"
  e_belongs_to :: "(string \<times> string) list"

definition User_entity :: entity where
  "User_entity = \<lparr>e_table = ''users'',
     e_fields = [
       (''id'', PrimaryGeneratedColumn),
       (''email'', Column (Plain Varchar) NoDefault),
       (''username'', Column (Plain Varchar) NoDefault),
       (''passwordHash'', Column (Plain Varchar) NoDefault),
       (''role'', Column (Members (map role_value [FREELANCE, RECRUITER, ADMIN])) (Initial (Str (role_value FREELANCE)))),
       (''location'', NullableColumn (Plain (GeographyPoint 4326))),
       (''twoFactorEnabled'', Column (Plain Boolean) (Initial (Truth False))),
       (''twoFactorSecretEncrypted'', NullableColumn (Plain Varchar)),
       (''twoFactorBackupCodesHashed'', NullableColumn (Plain TextArray)),
       (''createdAt'', CreateDateColumn)],
     e_indexed = [(''email'', True), (''role'', False)],
     e_belongs_to = []\<rparr>"

definition Gear_entity :: entity where
  "Gear_entity = \<lparr>e_table = ''gear'',
     e_fields = [
       (''id'', PrimaryGeneratedColumn),
       (''brand'', Column (Plain Varchar) NoDefault),
       (''model'', Column (Plain Varchar) NoDefault),
       (''serialNumber'', Column (Plain Varchar) NoDefault),
       (''category'', Column (Members (map category_value [DRONE, CAMERA_360, ROBOTICS, SENSOR, GearCategory.OTHER]))
          (Initial (Str (category_value GearCategory.OTHER)))),
       (''status'', Column (Members (map gear_status_value [GearStatus.PENDING, GearStatus.VALIDATED, GearStatus.REJECTED]))
          (Initial (Str (gear_status_value GearStatus.PENDING)))),
       (''isInLoadout'', Column (Plain Boolean) (Initial (Truth False))),
       (''createdAt'', CreateDateColumn),
       (''freelanceId'', Column (Plain Uuid) NoDefault)],
     e_indexed = [(''category'', False), (''status'', False), (''freelanceId'', False)],
     e_belongs_to = [(''freelanceId'', ''users'')]\<rparr>"

definition Certification_entity :: entity where
  "Certification_entity = \<lparr>e_table = ''user_certifications'',
     e_fields = [
       (''id'', PrimaryGeneratedColumn),
       (''type'', Column (Members (map certification_type_value [DGAC_DRONE, ELEC_HABILITATION, CertificationType.OTHER]))
          (Initial (Str (certification_type_value CertificationType.OTHER)))),
       (''number'', Column (Plain Varchar) NoDefault),
       (''validUntil'', Column (Plain Date) NoDefault),
       (''status'', Column (Members (map certification_status_value
            [CertificationStatus.PENDING, CertificationStatus.VALIDATED, CertificationStatus.REJECTED]))
          (Initial (Str (certification_status_value CertificationStatus.PENDING)))),
       (''s3Key'', NullableColumn (Plain Varchar)),
       (''mimeType'', Column (Plain Varchar) NoDefault),
       (''uploadedAt'', CreateDateColumn),
       (''reviewedAt'', NullableColumn (Plain Timestamptz)),
       (''purgedAt'', NullableColumn (Plain Timestamptz)),
       (''freelanceId'', Column (Plain Uuid) NoDefault)],
     e_indexed = [(''status'', False), (''freelanceId'', False)],
     e_belongs_to = [(''freelanceId'', ''users'')]\<rparr>"

text \<open>\<open>entities\<close> of the connection options.\<close>

definition ENTITIES :: "entity list" where
  "ENTITIES = [User_entity, Gear_entity, Certification_entity]"

section \<open>The schema is what the entities declare\<close>

definition field_of :: "database \<Rightarrow> column \<Rightarrow> field" where
  "field_of d c = \<lparr>
     f_type = (case col_type c of Enum n \<Rightarrow> (case map_of (d_types d) n of Some vs \<Rightarrow> Members vs | None \<Rightarrow> Plain (Enum n)) | ty \<Rightarrow> Plain ty),
     f_not_null = col_not_null c,
     f_default = (case col_default c of None \<Rightarrow> NoDefault | Some (Constant v) \<Rightarrow> Initial v | Some (Function f) \<Rightarrow> Generated)\<rparr>"

text \<open>The same fields; every declared index; a primary key on \<open>id\<close>; every relation a foreign key.\<close>

definition implements :: "database \<Rightarrow> entity \<Rightarrow> bool" where
  "implements d e \<longleftrightarrow> (case map_of (d_tables d) (e_table e) of None \<Rightarrow> False
     | Some t \<Rightarrow> set (map (\<lambda>(n, c). (n, field_of d c)) (t_columns t)) = set (e_fields e) \<and>
         distinct (map fst (e_fields e)) \<and> length (t_columns t) = length (e_fields e) \<and>
         (\<forall>(n, unique) \<in> set (e_indexed e). if unique then \<exists>k \<in> set (t_constraints t). snd k = Unique [n]
            else \<exists>i \<in> set (d_indexes d). snd i = (e_table e, [n])) \<and>
         (\<exists>k \<in> set (t_constraints t). snd k = PrimaryKey [''id'']) \<and>
         (\<forall>(n, r) \<in> set (e_belongs_to e). \<exists>k \<in> set (t_constraints t). snd k = ForeignKey [n] r [''id'']))"

section \<open>Rows of accounts\<close>

definition user_row :: "user \<Rightarrow> sql_row" where
  "user_row u = [''id'' \<mapsto> Str (u_id u), ''email'' \<mapsto> Str (u_email u), ''username'' \<mapsto> Str (u_username u),
     ''passwordHash'' \<mapsto> Str (u_passwordHash u), ''role'' \<mapsto> Str (role_value (u_role u)),
     ''twoFactorEnabled'' \<mapsto> Truth (u_twoFactorEnabled u), ''createdAt'' \<mapsto> Computed ''now'']
     (''location'' := map_option (\<lambda>p. Coords (coordinates p)) (u_location u),
      ''twoFactorSecretEncrypted'' := map_option Str (u_twoFactorSecretEncrypted u),
      ''twoFactorBackupCodesHashed'' := map_option Strs (u_twoFactorBackupCodesHashed u))"

lemma role_value_inj [simp]: "role_value r = ''FREELANCE'' \<longleftrightarrow> r = FREELANCE"
  by (cases r) simp_all

lemma user_row_check:
  "holds (Or (Differs ''role'' ''FREELANCE'') (IsNotNull ''location'')) (user_row u) \<noteq> Some False \<longleftrightarrow> CHK_users_freelance_location u"
  by (simp add: user_row_def CHK_users_freelance_location_def)

lemma user_rows_unique:
  "satisfied ts (map user_row us) (Unique [''email'']) \<longleftrightarrow> distinct (map u_email us)"
proof -
  have k: "key_values [''email''] (user_row u) = Some [Str (u_email u)]" for u
    by (simp add: key_values_def user_row_def)
  have "present (map (\<lambda>u. key_values [''email''] (user_row u)) us) = map (\<lambda>u. [Str (u_email u)]) us"
    by (induction us) (simp_all add: present_def k)
  then show ?thesis by (simp add: o_def distinct_map inj_on_def)
qed

section \<open>Lemmas\<close>

lemma ups_create:
  "list_all (\<lambda>m. list_all creates (m_up m) \<and> m_down m = rev (map undo (m_up m))) (tl MIGRATIONS)"
  "list_all creates (tl (m_up InitSchema))"
  "m_down InitSchema = rev (map undo (tl (m_up InitSchema)))"
  "m_up InitSchema = CreateExtension ''postgis'' # tl (m_up InitSchema)"
  by code_simp+

lemma up_creates:
  assumes "m \<in> set MIGRATIONS"
  obtains ss where "list_all creates ss" "m_down m = rev (map undo ss)" "m_up m = ss \<or> m_up m = CreateExtension ''postgis'' # ss"
proof (cases "m = InitSchema")
  case True
  show ?thesis using that [unfolded True, OF ups_create(2,3) disjI2 [OF ups_create(4)]] .
next
  case False
  then have "m \<in> set (tl MIGRATIONS)" using assms by (simp add: MIGRATIONS_def)
  with ups_create(1) have "list_all creates (m_up m)" "m_down m = rev (map undo (m_up m))" unfolding list_all_iff by blast+
  then show ?thesis using that by blast
qed

text \<open>Statements that undo do not look at the extensions.\<close>

lemma undo_extensions:
  assumes "creates s"
  shows "exec (undo s) (d\<lparr>d_extensions := x\<rparr>) = map_sum id (\<lambda>d. d\<lparr>d_extensions := x\<rparr>) (exec (undo s) d)"
  using assms by (cases s) (simp_all add: Let_def split: option.split)

lemma undo_run_extensions:
  "list_all creates ss \<Longrightarrow> run (map undo ss) (d\<lparr>d_extensions := x\<rparr>) = map_sum id (\<lambda>d. d\<lparr>d_extensions := x\<rparr>) (run (map undo ss) d)"
  by (induction ss arbitrary: d) (auto simp: undo_extensions simp del: exec.simps split: sum.splits)

lemma down_undoes:
  assumes "m \<in> set MIGRATIONS" "well_formed d" "run (m_up m) d = Inr d'"
  shows "run (m_down m) (d'\<lparr>d_extensions := x\<rparr>) = Inr (d\<lparr>d_extensions := x\<rparr>)"
proof -
  obtain ss where ss: "list_all creates ss" "m_down m = rev (map undo ss)" and up: "m_up m = ss \<or> m_up m = CreateExtension ''postgis'' # ss"
    using up_creates [OF assms(1)] by blast
  obtain d0 where d0: "well_formed d0" "run ss d0 = Inr d'" "d0\<lparr>d_extensions := x\<rparr> = d\<lparr>d_extensions := x\<rparr>"
    using up
  proof
    assume "m_up m = CreateExtension ''postgis'' # ss"
    moreover have "well_formed (d\<lparr>d_extensions := List.insert ''postgis'' (d_extensions d)\<rparr>)"
      by (rule exec_well_formed [OF assms(2), of "CreateExtension ''postgis''"]) simp
    ultimately show ?thesis using assms(3) that by simp
  qed (use assms that in auto)
  have "run (map undo (rev ss)) d' = Inr d0" using undo_run [OF d0(1,2) ss(1)] by (simp add: rev_map)
  then show ?thesis
    using undo_run_extensions [of "rev ss" x d'] ss d0(3) by (simp add: rev_map list_all_rev)
qed

section \<open>Properties\<close>




text \<open>
  The location check meets the accounts. On a database whose \<open>users\<close> table holds accounts, the migration succeeds exactly when no
  freelance is without a location, adds the check and leaves the rows; otherwise it fails with the violation of this check.
\<close>

theorem location_check_guards:
  assumes "map_of (d_tables d) ''users'' = Some t" "t_rows t = map user_row us"
    and "{''role'', ''location''} \<subseteq> names (t_columns t)" "''CHK_users_freelance_location'' \<notin> names (t_constraints t)"
  shows "if list_all CHK_users_freelance_location us
    then \<exists>d' t'. migrate [AddFreelanceLocationCheck] d = Inr d' \<and> map_of (d_tables d') ''users'' = Some t' \<and> t_rows t' = t_rows t \<and>
      ''CHK_users_freelance_location'' \<in> names (t_constraints t')
    else migrate [AddFreelanceLocationCheck] d = Inl (Violation ''CHK_users_freelance_location'')"
proof -
  have "satisfied (d_tables d) (t_rows t) (Check (Or (Differs ''role'' ''FREELANCE'') (IsNotNull ''location''))) \<longleftrightarrow>
      list_all CHK_users_freelance_location us"
    using user_row_check by (simp add: assms(2) list_all_iff del: holds.simps)
  then show ?thesis
    using assms(1,3,4) by (simp add: migrate_def AddFreelanceLocationCheck_def refers_to_key_def map_of_change del: satisfied.simps)
qed

definition nowhere :: user where
  "nowhere = \<lparr>u_id = ''u1'', u_email = ''a@b.fr'', u_username = ''A'', u_passwordHash = ''h'', u_role = FREELANCE, u_location = None,
     u_twoFactorEnabled = False, u_twoFactorSecretEncrypted = None, u_twoFactorBackupCodesHashed = None, u_createdAt = 0\<rparr>"

theorem location_check_guards_witness:
  "migrate [AddFreelanceLocationCheck] (empty_database\<lparr>d_tables := [(''users'', \<lparr>t_columns =
       [(''role'', not_null Varchar None), (''location'', nullable (GeographyPoint 4326))], t_constraints = [], t_rows = [user_row nowhere]\<rparr>)]\<rparr>) =
     Inl (Violation ''CHK_users_freelance_location'')"
  using location_check_guards [of "empty_database\<lparr>d_tables := [(''users'', \<lparr>t_columns =
       [(''role'', not_null Varchar None), (''location'', nullable (GeographyPoint 4326))], t_constraints = [], t_rows = [user_row nowhere]\<rparr>)]\<rparr>"
      "\<lparr>t_columns = [(''role'', not_null Varchar None), (''location'', nullable (GeographyPoint 4326))], t_constraints = [],
         t_rows = [user_row nowhere]\<rparr>" "[nowhere]"]
  by (simp add: nowhere_def CHK_users_freelance_location_def)

end
