(* ===== verification/Interleaving.thy ===== *)
theory Interleaving
  imports Prelude
begin

text \<open>
  Handlers that interleave. A procedure of Prelude runs as one step; a \<^emph>\<open>thread\<close> is the same handler cut at its
  \<open>await\<close>s: what runs between two of them, with the store access that the second one waits for, is one step, and
  other handlers may run in between. \<open>run_thread\<close> is the run of a thread alone.

  For a predicate of the state that every step of the system keeps, three judgements on threads carry the proofs:
  a thread keeps it, a thread cannot return while it holds, a thread that returns has established it.
\<close>

section \<open>Threads\<close>

text \<open>A step reads the clock and the state.\<close>

datatype ('s, 'a) thread = Done "exn + 'a" | Await "nat \<Rightarrow> 's \<Rightarrow> ('s, 'a) thread \<times> 's"

primrec bindT :: "('s, 'a) thread \<Rightarrow> ('a \<Rightarrow> ('s, 'b) thread) \<Rightarrow> ('s, 'b) thread" where
  "bindT (Done r) f = (case r of Inl e \<Rightarrow> Done (Inl e) | Inr x \<Rightarrow> f x)"
| "bindT (Await k) f = Await (\<lambda>now s. map_prod (\<lambda>t. bindT t f) id (k now s))"

primrec catchT :: "('s, 'a) thread \<Rightarrow> (exn \<Rightarrow> ('s, 'a) thread) \<Rightarrow> ('s, 'a) thread" where
  "catchT (Done r) h = (case r of Inl e \<Rightarrow> h e | Inr x \<Rightarrow> Done (Inr x))"
| "catchT (Await k) h = Await (\<lambda>now s. map_prod (\<lambda>t. catchT t h) id (k now s))"

text \<open>One awaited call.\<close>

definition call :: "(nat \<Rightarrow> ('s, 'a) proc) \<Rightarrow> ('s, 'a) thread" where
  "call m = Await (\<lambda>now s. case m now s of (r, s') \<Rightarrow> (Done r, s'))"

definition throwT :: "exn \<Rightarrow> ('s, 'a) thread" where
  "throwT e = Done (Inl e)"

definition returnT :: "'a \<Rightarrow> ('s, 'a) thread" where
  "returnT x = Done (Inr x)"

text \<open>A thread on its own, the clock standing still.\<close>

primrec run_thread :: "('s, 'a) thread \<Rightarrow> nat \<Rightarrow> ('s, 'a) proc" where
  "run_thread (Done r) = (\<lambda>now s. (r, s))"
| "run_thread (Await k) = (\<lambda>now s. (\<lambda>(m, s'). m now s') (map_prod run_thread id (k now s)))"

lemma run_call [simp]: "run_thread (call m) now = m now"
  by (rule ext) (simp add: call_def split: prod.splits)

lemma run_throwT [simp]: "run_thread (throwT e) now = throwP e"
  by (simp add: throwT_def throwP_def)

lemma run_returnT [simp]: "run_thread (returnT x) now = returnP x"
  by (simp add: returnT_def returnP_def)

lemma run_bindT [simp]: "run_thread (bindT t f) now = bindP (run_thread t now) (\<lambda>x. run_thread (f x) now)"
proof (rule ext)
  show "run_thread (bindT t f) now s = bindP (run_thread t now) (\<lambda>x. run_thread (f x) now) s" for s
  proof (induction t arbitrary: s)
    case (Done r)
    then show ?case by (cases r) (simp_all add: bindP_def)
  next
    case (Await k)
    obtain t s' where k: "k now s = (t, s')" by fastforce
    have "t \<in> Basic_BNFs.fsts (k now s)" using k by simp
    then have "run_thread (bindT t f) now s' = bindP (run_thread t now) (\<lambda>x. run_thread (f x) now) s'"
      using Await by blast
    with k show ?case by (simp add: bindP_def)
  qed
qed

lemma run_catchT [simp]: "run_thread (catchT t h) now = catchP (run_thread t now) (\<lambda>e. run_thread (h e) now)"
proof (rule ext)
  show "run_thread (catchT t h) now s = catchP (run_thread t now) (\<lambda>e. run_thread (h e) now) s" for s
  proof (induction t arbitrary: s)
    case (Done r)
    then show ?case by (cases r) (simp_all add: catchP_def)
  next
    case (Await k)
    obtain t s' where k: "k now s = (t, s')" by fastforce
    have "t \<in> Basic_BNFs.fsts (k now s)" using k by simp
    then have "run_thread (catchT t h) now s' = catchP (run_thread t now) (\<lambda>e. run_thread (h e) now) s'"
      using Await by blast
    with k show ?case by (simp add: catchP_def)
  qed
qed

section \<open>Judgements\<close>

text \<open>Every step keeps \<open>P\<close>.\<close>

primrec preserves :: "(nat \<Rightarrow> 's \<Rightarrow> bool) \<Rightarrow> ('s, 'a) thread \<Rightarrow> bool" where
  "preserves P (Done r) \<longleftrightarrow> True"
| "preserves P (Await k) \<longleftrightarrow> (\<forall>now s. (P now s \<longrightarrow> P now (snd (k now s))) \<and> fst (map_prod (preserves P) id (k now s)))"

text \<open>Resumed in states of \<open>P\<close> only, the thread does not return.\<close>

primrec refused :: "(nat \<Rightarrow> 's \<Rightarrow> bool) \<Rightarrow> ('s, 'a) thread \<Rightarrow> bool" where
  "refused P (Done r) \<longleftrightarrow> (\<exists>e. r = Inl e)"
| "refused P (Await k) \<longleftrightarrow> (\<forall>now s. P now s \<longrightarrow> fst (map_prod (refused P) id (k now s)))"

text \<open>When the thread returns, one of its steps has established \<open>P\<close>, or \<open>b\<close> held before.\<close>

primrec establishes :: "(nat \<Rightarrow> 's \<Rightarrow> bool) \<Rightarrow> ('s, 'a) thread \<Rightarrow> bool \<Rightarrow> bool" where
  "establishes P (Done r) = (\<lambda>b. (\<exists>x. r = Inr x) \<longrightarrow> b)"
| "establishes P (Await k) = (\<lambda>b. \<forall>now s. (b \<longrightarrow> P now s) \<longrightarrow>
     fst (map_prod (establishes P) id (k now s)) (b \<or> P now (snd (k now s))))"

lemma preserves_Done [simp]: "preserves P (throwT e)" "preserves P (returnT x)"
  by (simp_all add: throwT_def returnT_def)

lemma preserves_call: "(\<And>now. keeps (P now) (m now)) \<Longrightarrow> preserves P (call m)"
  by (auto simp: call_def keeps_def split: prod.splits)

lemma preserves_bindT: "preserves P t \<Longrightarrow> (\<And>x. preserves P (f x)) \<Longrightarrow> preserves P (bindT t f)"
proof (induction t)
  case (Done r)
  then show ?case by (cases r) simp_all
next
  case (Await k)
  have "preserves P (bindT (fst (k now s)) f)" for now s
  proof (rule Await.IH [of _ _ "fst (k now s)"])
    show "k now \<in> range k" "k now s \<in> range (k now)" by simp_all
    show "fst (k now s) \<in> Basic_BNFs.fsts (k now s)" by (cases "k now s") simp
  qed (use Await.prems in \<open>auto simp: fst_map_prod\<close>)
  with Await.prems show ?case by (auto simp: fst_map_prod)
qed

lemma refused_throwT [simp]: "refused P (throwT e)"
  by (simp add: throwT_def)

lemma refused_call_bind:
  assumes "\<And>now s r s'. P now s \<Longrightarrow> m now s = (r, s') \<Longrightarrow> (\<exists>e. r = Inl e) \<or> (\<exists>x. r = Inr x \<and> refused P (f x))"
  shows "refused P (bindT (call m) f)"
proof -
  have "refused P (fst (map_prod (\<lambda>t. bindT t f) id (case m now s of (r, s') \<Rightarrow> (Done r, s'))))" if "P now s" for now s
    using assms [OF that, of "fst (m now s)" "snd (m now s)"] by (auto split: prod.splits)
  then show ?thesis by (simp add: call_def fst_map_prod)
qed

lemma establishes_throwT [simp]: "establishes P (throwT e) b"
  by (simp add: throwT_def)

lemma establishes_call: "establishes P (call m) True"
  by (simp add: call_def fst_map_prod split: prod.splits)

lemma establishes_call_bind:
  assumes "\<And>now s x s'. (b \<longrightarrow> P now s) \<Longrightarrow> m now s = (Inr x, s') \<Longrightarrow> establishes P (f x) (b \<or> P now s')"
  shows "establishes P (bindT (call m) f) b"
proof -
  have "establishes P (fst (map_prod (\<lambda>t. bindT t f) id (case m now s of (r, s') \<Rightarrow> (Done r, s'))))
      (b \<or> P now (snd (map_prod (\<lambda>t. bindT t f) id (case m now s of (r, s') \<Rightarrow> (Done r, s')))))" if "b \<longrightarrow> P now s" for now s
    using assms [OF that, of _ "snd (m now s)"] by (cases "m now s"; cases "fst (m now s)") auto
  then show ?thesis by (simp add: call_def fst_map_prod)
qed

lemma establishes_mono: "establishes P t b \<Longrightarrow> (b \<Longrightarrow> b') \<Longrightarrow> establishes P t b'"
proof (induction t arbitrary: b b')
  case (Done r)
  then show ?case by auto
next
  case (Await k)
  have "fst (map_prod (establishes P) id (k now s)) (b' \<or> P now (snd (k now s)))" if "b' \<longrightarrow> P now s" for now s
  proof -
    have "establishes P (fst (k now s)) (b \<or> P now (snd (k now s)))"
      using Await.prems that by (auto simp: fst_map_prod)
    then have "establishes P (fst (k now s)) (b' \<or> P now (snd (k now s)))"
    proof (rule Await.IH [of "k now" "k now s", rotated 3])
      show "fst (k now s) \<in> Basic_BNFs.fsts (k now s)" by (cases "k now s") simp
    qed (use Await.prems in auto)
    then show ?thesis by (simp add: fst_map_prod)
  qed
  then show ?case by simp
qed

lemma establishes_True: "establishes P t True"
proof (induction t)
  case (Await k)
  have "establishes P (fst (k now s)) True" for now s
  proof (rule Await.IH [of "k now" "k now s"])
    show "fst (k now s) \<in> Basic_BNFs.fsts (k now s)" by (cases "k now s") simp
  qed auto
  then show ?case by (simp add: fst_map_prod)
qed simp

section \<open>Systems\<close>

text \<open>A clock, the state, and the threads with the request each one answers.\<close>

record ('t, 's, 'a) system =
  sy_clock :: nat
  sy_state :: 's
  sy_threads :: "('t \<times> ('s, 'a) thread) list"

text \<open>
  Time passes, a thread takes a step, a request arrives, and anything else of the application, as far as \<open>other\<close>
  allows, changes the state.
\<close>

inductive system_step :: "('t \<Rightarrow> ('s, 'a) thread \<Rightarrow> bool) \<Rightarrow> (nat \<Rightarrow> 's \<Rightarrow> 's \<Rightarrow> bool) \<Rightarrow>
    ('t, 's, 'a) system \<Rightarrow> ('t, 's, 'a) system \<Rightarrow> bool" for start other where
  tick: "sy_clock y \<le> c \<Longrightarrow> system_step start other y (y\<lparr>sy_clock := c\<rparr>)"
| resume: "i < length (sy_threads y) \<Longrightarrow> sy_threads y ! i = (tag, Await k) \<Longrightarrow> k (sy_clock y) (sy_state y) = (t, s') \<Longrightarrow>
    system_step start other y (y\<lparr>sy_state := s', sy_threads := (sy_threads y)[i := (tag, t)]\<rparr>)"
| arrive: "start tag t \<Longrightarrow> system_step start other y (y\<lparr>sy_threads := sy_threads y @ [(tag, t)]\<rparr>)"
| elsewhere: "other (sy_clock y) (sy_state y) s' \<Longrightarrow> system_step start other y (y\<lparr>sy_state := s'\<rparr>)"

inductive_cases system_stepE: "system_step start other y y'"

text \<open>A thread may run to its end without interruption.\<close>

lemma run_alone:
  assumes "i < length (sy_threads y)" "sy_threads y ! i = (tag, t)"
  shows "(system_step start other)\<^sup>*\<^sup>* y (y\<lparr>sy_state := snd (run_thread t (sy_clock y) (sy_state y)),
    sy_threads := (sy_threads y)[i := (tag, Done (fst (run_thread t (sy_clock y) (sy_state y))))]\<rparr>)"
  using assms
proof (induction t arbitrary: y)
  case (Done r)
  then have "(sy_threads y)[i := (tag, Done r)] = sy_threads y" by (metis list_update_id)
  then show ?case by simp
next
  case (Await k)
  obtain t s' where k: "k (sy_clock y) (sy_state y) = (t, s')" by fastforce
  let ?z = "y\<lparr>sy_state := s', sy_threads := (sy_threads y)[i := (tag, t)]\<rparr>"
  have "system_step start other y ?z" by (rule system_step.resume [OF Await.prems k])
  moreover have "t \<in> Basic_BNFs.fsts (k (sy_clock y) (sy_state y))" using k by simp
  then have "(system_step start other)\<^sup>*\<^sup>* ?z (?z\<lparr>sy_state := snd (run_thread t (sy_clock ?z) (sy_state ?z)),
    sy_threads := (sy_threads ?z)[i := (tag, Done (fst (run_thread t (sy_clock ?z) (sy_state ?z))))]\<rparr>)"
    using Await.prems(1) by (intro Await.IH) auto
  ultimately show ?case using k by (simp add: converse_rtranclp_into_rtranclp)
qed

text \<open>The next step of a thread that waits for a call.\<close>

lemma resume_call:
  assumes "i < length (sy_threads y)" "sy_threads y ! i = (tag, bindT (call m) f)" "m (sy_clock y) (sy_state y) = (Inr x, s')"
  shows "system_step start other y (y\<lparr>sy_state := s', sy_threads := (sy_threads y)[i := (tag, f x)]\<rparr>)"
  using assms by (intro system_step.resume [where k = "\<lambda>now s. map_prod (\<lambda>t. bindT t f) id (case m now s of (r, x) \<Rightarrow> (Done r, x))"])
    (simp_all add: call_def)

text \<open>Requests that arrive one after the other, and requests that take the same steps one after the other.\<close>

lemma arrivals:
  assumes "start tag t"
  shows "(system_step start other)\<^sup>*\<^sup>* \<lparr>sy_clock = c, sy_state = s, sy_threads = []\<rparr>
    \<lparr>sy_clock = c, sy_state = s, sy_threads = replicate n (tag, t)\<rparr>"
proof (induction n)
  case (Suc n)
  have "system_step start other \<lparr>sy_clock = c, sy_state = s, sy_threads = replicate n (tag, t)\<rparr>
      \<lparr>sy_clock = c, sy_state = s, sy_threads = replicate (Suc n) (tag, t)\<rparr>"
    using system_step.arrive [of start tag t other "\<lparr>sy_clock = c, sy_state = s, sy_threads = replicate n (tag, t)\<rparr>"] assms
    by (simp add: replicate_append_same)
  with Suc.IH show ?case by (rule rtranclp.rtrancl_into_rtrancl)
qed simp

lemma each_thread:
  assumes step: "\<And>s ts i. I s \<Longrightarrow> i < length ts \<Longrightarrow> ts ! i = p \<Longrightarrow>
      \<exists>s'. I s' \<and> R\<^sup>*\<^sup>* \<lparr>sy_clock = c, sy_state = s, sy_threads = ts\<rparr> \<lparr>sy_clock = c, sy_state = s', sy_threads = ts[i := q]\<rparr>"
    and "I s"
  shows "\<exists>s'. I s' \<and> R\<^sup>*\<^sup>* \<lparr>sy_clock = c, sy_state = s, sy_threads = replicate n p\<rparr>
    \<lparr>sy_clock = c, sy_state = s', sy_threads = replicate n q\<rparr>"
proof -
  have "\<exists>s'. I s' \<and> R\<^sup>*\<^sup>* \<lparr>sy_clock = c, sy_state = s, sy_threads = replicate (k + m) p\<rparr>
      \<lparr>sy_clock = c, sy_state = s', sy_threads = replicate k q @ replicate m p\<rparr>" for k m
  proof (induction k arbitrary: m)
    case (Suc k)
    obtain s1 where s1: "I s1" "R\<^sup>*\<^sup>* \<lparr>sy_clock = c, sy_state = s, sy_threads = replicate (Suc k + m) p\<rparr>
        \<lparr>sy_clock = c, sy_state = s1, sy_threads = replicate k q @ replicate (Suc m) p\<rparr>"
      using Suc.IH [of "Suc m"] by auto
    obtain s2 where s2: "I s2" "R\<^sup>*\<^sup>* \<lparr>sy_clock = c, sy_state = s1, sy_threads = replicate k q @ replicate (Suc m) p\<rparr>
        \<lparr>sy_clock = c, sy_state = s2, sy_threads = (replicate k q @ replicate (Suc m) p)[k := q]\<rparr>"
      using step [OF s1(1), of k "replicate k q @ replicate (Suc m) p"] by (auto simp: nth_append)
    have "(replicate k q @ replicate (Suc m) p)[k := q] = replicate (Suc k) q @ replicate m p"
      by (simp add: list_update_append replicate_app_Cons_same)
    with s2(2) have "R\<^sup>*\<^sup>* \<lparr>sy_clock = c, sy_state = s, sy_threads = replicate (Suc k + m) p\<rparr>
        \<lparr>sy_clock = c, sy_state = s2, sy_threads = replicate (Suc k) q @ replicate m p\<rparr>"
      by (simp only: rtranclp_trans [OF s1(2)])
    with s2(1) show ?case by blast
  qed (use assms(2) in auto)
  from this [of n 0] show ?thesis by simp
qed

text \<open>
  A predicate that every step of the system keeps. What has returned was preceded by it when every request
  establishes it, and a request that arrives under it is refused when its threads are.
\<close>

locale stable_system =
  fixes P :: "nat \<Rightarrow> 's \<Rightarrow> bool"
    and start :: "'t \<Rightarrow> ('s, 'a) thread \<Rightarrow> bool"
    and other :: "nat \<Rightarrow> 's \<Rightarrow> 's \<Rightarrow> bool"
  assumes later: "P c s \<Longrightarrow> c \<le> c' \<Longrightarrow> P c' s"
    and others: "P c s \<Longrightarrow> other c s s' \<Longrightarrow> P c s'"
    and threads: "start tag t \<Longrightarrow> preserves P t"
begin

definition pool_ok :: "('t, 's, 'a) system \<Rightarrow> bool" where
  "pool_ok y \<longleftrightarrow> (\<forall>p \<in> set (sy_threads y). preserves P (snd p))"

lemma thread_mem: "i < length ps \<Longrightarrow> ps ! i = p \<Longrightarrow> p \<in> set ps"
  by auto

lemma pool_step:
  assumes "system_step start other y y'" "pool_ok y"
  shows "pool_ok y' \<and> (P (sy_clock y) (sy_state y) \<longrightarrow> P (sy_clock y') (sy_state y'))"
  using assms(1)
proof (cases rule: system_step.cases)
  case (resume i tag k t s')
  have "preserves P (Await k :: ('s, 'a) thread)"
    using assms(2) thread_mem [OF resume(2,3)] unfolding pool_ok_def by fastforce
  then have t: "preserves P t" "P (sy_clock y) (sy_state y) \<longrightarrow> P (sy_clock y) s'"
    using resume(4) by (auto simp: fst_map_prod) (metis fst_conv, metis snd_conv)
  then show ?thesis
    using resume(1) assms(2) set_update_subset_insert [of "sy_threads y" i "(tag, t)"] by (auto simp: pool_ok_def)
qed (use assms(2) threads in \<open>auto simp: pool_ok_def intro: later others\<close>)

text \<open>Every thread of the tag \<open>g\<close> establishes \<open>P\<close>.\<close>

definition established :: "'t \<Rightarrow> ('t, 's, 'a) system \<Rightarrow> bool" where
  "established g y \<longleftrightarrow> (\<forall>p \<in> set (sy_threads y). fst p = g \<longrightarrow> establishes P (snd p) (P (sy_clock y) (sy_state y)))"

lemma established_step:
  assumes "system_step start other y y'" "pool_ok y" "established g y" "\<And>t. start g t \<Longrightarrow> establishes P t False"
  shows "established g y'"
proof -
  note keep = pool_step [OF assms(1,2), THEN conjunct2, rule_format]
  have mono: "establishes P (snd p) (P (sy_clock y') (sy_state y'))" if "p \<in> set (sy_threads y)" "fst p = g" for p
    using assms(3) that keep unfolding established_def by (blast intro: establishes_mono)
  show ?thesis using assms(1)
  proof (cases rule: system_step.cases)
    case (resume i tag k t s')
    have "establishes P t (P (sy_clock y) s')" if "tag = g"
    proof -
      have "establishes P (Await k :: ('s, 'a) thread) (P (sy_clock y) (sy_state y))"
        using assms(3) thread_mem [OF resume(2,3)] that unfolding established_def by fastforce
      then have "establishes P t (P (sy_clock y) (sy_state y) \<or> P (sy_clock y) s')"
        using resume(4) by (auto simp: fst_map_prod) (metis fst_conv snd_conv)
      then show ?thesis using keep resume(1) by (auto intro: establishes_mono)
    qed
    with mono resume(1) set_update_subset_insert [of "sy_threads y" i "(tag, t)"] show ?thesis
      by (auto simp: established_def)
  next
    case (arrive tag t)
    have "establishes P t b" if "tag = g" for b
      using assms(4) arrive(2) that by (blast intro: establishes_mono)
    with arrive(1) mono show ?thesis by (auto simp: established_def)
  qed (use mono in \<open>auto simp: established_def\<close>)
qed

text \<open>Once \<open>P\<close> holds, a thread that is refused under \<open>P\<close> stays so.\<close>

lemma refused_step:
  assumes "system_step start other y y'" "P (sy_clock y) (sy_state y)" "n < length (sy_threads y)" "refused P (snd (sy_threads y ! n))"
  shows "n < length (sy_threads y') \<and> refused P (snd (sy_threads y' ! n))"
  using assms(1)
proof (cases rule: system_step.cases)
  case (resume i tag k t s')
  have "refused P t" if "i = n"
    using assms(2,4) resume(3,4) that by (auto simp: fst_map_prod) (metis fst_conv)
  with resume(1) assms(3,4) show ?thesis by (cases "i = n") auto
qed (use assms(3,4) in \<open>auto simp: nth_append\<close>)

lemma refused_forever:
  assumes "(system_step start other)\<^sup>*\<^sup>* y y'" "pool_ok y" "P (sy_clock y) (sy_state y)"
    "n < length (sy_threads y)" "refused P (snd (sy_threads y ! n))"
  shows "n < length (sy_threads y') \<and> refused P (snd (sy_threads y' ! n))"
proof -
  have "pool_ok y' \<and> P (sy_clock y') (sy_state y') \<and> n < length (sy_threads y') \<and> refused P (snd (sy_threads y' ! n))"
    using assms(1) by (induction rule: rtranclp_induct) (use assms(2-5) in simp, meson pool_step refused_step)
  then show ?thesis by blast
qed

lemma established_forever:
  assumes "(system_step start other)\<^sup>*\<^sup>* y y'" "sy_threads y = []" "\<And>t. start g t \<Longrightarrow> establishes P t False"
  shows "pool_ok y' \<and> established g y'"
  using assms(1)
proof (induction rule: rtranclp_induct)
  case base
  with assms(2) show ?case by (simp add: pool_ok_def established_def)
qed (meson assms(3) pool_step established_step)

text \<open>After a request has been answered, a later one that is refused under \<open>P\<close> is never answered.\<close>

theorem answered_once:
  assumes "(system_step start other)\<^sup>*\<^sup>* y0 y1" "sy_threads y0 = []" "\<And>t. start g t \<Longrightarrow> establishes P t False"
    and "(g, Done (Inr x)) \<in> set (sy_threads y1)"
    and "start g' t'" "refused P t'"
    and "(system_step start other)\<^sup>*\<^sup>* (y1\<lparr>sy_threads := sy_threads y1 @ [(g', t')]\<rparr>) y2"
  shows "snd (sy_threads y2 ! length (sy_threads y1)) \<noteq> Done (Inr r)"
proof -
  have y1: "pool_ok y1" "established g y1" using established_forever [OF assms(1-3)] by simp_all
  then have P1: "P (sy_clock y1) (sy_state y1)" using assms(4) by (fastforce simp: established_def)
  let ?y = "y1\<lparr>sy_threads := sy_threads y1 @ [(g', t')]\<rparr>"
  have "pool_ok ?y" using y1(1) threads [OF assms(5)] by (auto simp: pool_ok_def)
  then have "refused P (snd (sy_threads y2 ! length (sy_threads y1)))"
    using refused_forever [OF assms(7), of "length (sy_threads y1)"] P1 assms(6) by simp
  then show ?thesis by (cases "snd (sy_threads y2 ! length (sy_threads y1))") auto
qed

end

end
