(* ===== verification/AuthInterleaving.thy ===== *)
theory AuthInterleaving
  imports Interleaving Auth
begin

text \<open>
  The handlers of \<open>auth/auth.service.ts\<close> and \<open>auth/two-factor.service.ts\<close> whose guarantees depend on what runs between
  their \<open>await\<close>s, as threads: the rotation of refresh tokens and the verification of a code. Run alone they are the procedures of
  Auth and TwoFactor. What rotation guarantees in every interleaving is \<open>rotation_interleaved\<close>; what a burst of parallel requests can do
  is shown by the schedules at the end.
\<close>

section \<open>Rotation\<close>

definition rotate_thread :: "('u, user) repo \<Rightarrow> jwt \<Rightarrow> 'k token_store \<Rightarrow> string \<Rightarrow> claims \<Rightarrow> (('u, 'k) auth_world, TokenPair) thread" where
  "rotate_thread U J T jti payload =
     bindT (call (\<lambda>now. onRedis (ts_revoke T now (the (cl_jti payload))))) (\<lambda>_.
     bindT (call (\<lambda>now. find_user U (cl_userId payload))) (\<lambda>user.
     call (\<lambda>now. issueTokens J T now jti user)))"

definition refresh_thread :: "('u, user) repo \<Rightarrow> jwt \<Rightarrow> 'k token_store \<Rightarrow> string \<Rightarrow> string \<Rightarrow> (('u, 'k) auth_world, TokenPair) thread" where
  "refresh_thread U J T jti token =
     bindT (call (\<lambda>now. liftE (case jwt_verify J now token of
        Inl _ \<Rightarrow> Inl (Unauthorized RefreshTokenInvalid) | Inr payload \<Rightarrow> Inr payload))) (\<lambda>payload.
     if cl_type payload \<noteq> Some ''refresh'' \<or> \<not> truthy_str (cl_jti payload) then throwT (Unauthorized RefreshTokenRevoked) else
     bindT (call (\<lambda>now. onRedis (ts_isValid T now (the (cl_jti payload)) (cl_userId payload)))) (\<lambda>valid.
     if \<not> valid then throwT (Unauthorized RefreshTokenRevoked) else rotate_thread U J T jti payload))"

lemma run_refresh_thread: "run_thread (refresh_thread U J T jti tok) now = refresh U J T now jti tok"
  by (auto simp: refresh_thread_def rotate_thread_def refresh_def if_distrib [of "\<lambda>t. run_thread t now"] split: sum.splits intro!: arg_cong2 [of _ _ _ _ bindP])

section \<open>Verification of a code\<close>

definition verify_thread :: "('u, user) repo \<Rightarrow> 'k redis \<Rightarrow> auth_libs \<Rightarrow> bytes \<Rightarrow> string \<Rightarrow> string \<Rightarrow> (('u, 'k) auth_world, bool) thread" where
  "verify_thread U RD L random32 userId code =
     bindT (call (\<lambda>now. requireUser U userId)) (\<lambda>user.
     if \<not> u_twoFactorEnabled user \<or> \<not> truthy_str (u_twoFactorSecretEncrypted user) then returnT False else
     bindT (call (\<lambda>now. assertNotLocked RD now (u_id user))) (\<lambda>_.
     call (\<lambda>now. bindP (onKey (decryptTwoFactorSecret (lib_gcm L) (env_key L) random32
                     (the (u_twoFactorSecretEncrypted user)))) (\<lambda>secret.
       check_code U RD L now user secret code))))"

lemma run_verify_thread: "run_thread (verify_thread U RD L r32 i code) now = verifyCode U RD L r32 now i code"
  by (auto simp: verify_thread_def verifyCode_def if_distrib [of "\<lambda>t. run_thread t now"] intro!: arg_cong2 [of _ _ _ _ bindP])

section \<open>Rotation in every interleaving\<close>

text \<open>The token \<open>j\<close> is not registered, now or at any later time.\<close>

definition dead :: "(nat \<Rightarrow> 'k \<Rightarrow> string \<Rightarrow> string option) \<Rightarrow> string \<Rightarrow> nat \<Rightarrow> ('u, 'k) auth_world \<Rightarrow> bool" where
  "dead registered j now w \<longleftrightarrow> (\<forall>t \<ge> now. registered t (w_redis w) j = None)"

text \<open>
  Requests that present refresh tokens, each with an identifier of its own for the token it issues; and anything else that does not
  register \<open>j\<close> again (identifiers are random UUIDs).
\<close>

definition refresh_start :: "('u, user) repo \<Rightarrow> jwt \<Rightarrow> 'k token_store \<Rightarrow> string \<Rightarrow> string \<Rightarrow>
    (('u, 'k) auth_world, TokenPair) thread \<Rightarrow> bool" where
  "refresh_start U J T j tok t \<longleftrightarrow> (\<exists>jti. jti \<noteq> j \<and> t = refresh_thread U J T jti tok)"

definition keeps_dead :: "(nat \<Rightarrow> 'k \<Rightarrow> string \<Rightarrow> string option) \<Rightarrow> string \<Rightarrow> nat \<Rightarrow> ('u, 'k) auth_world \<Rightarrow> ('u, 'k) auth_world \<Rightarrow> bool" where
  "keeps_dead registered j now w w' \<longleftrightarrow> (dead registered j now w \<longrightarrow> dead registered j now w')"

context auth_service
begin

lemma preserves_refresh:
  assumes "jti \<noteq> j"
  shows "preserves (dead registered j) (refresh_thread U J T jti tok)"
  unfolding refresh_thread_def rotate_thread_def
proof (intro preserves_bindT preserves_call)
  show "keeps (dead registered j now) (liftE x)" for now x by simp
  fix payload
  have v: "keeps (dead registered j now) (onRedis (ts_isValid T now (the (cl_jti payload)) (cl_userId payload)))" for now
    by (auto simp: keeps_def dead_def onRedis_iff T.isValid_frame)
  have r: "keeps (dead registered j now) (onRedis (ts_revoke T now (the (cl_jti payload))))" for now
  proof (rule keepsI)
    fix w x w' assume d: "dead registered j now w" and run: "onRedis (ts_revoke T now (the (cl_jti payload))) w = (x, w')"
    then obtain y where y: "ts_revoke T now (the (cl_jti payload)) (w_redis w) = (x, y)" "w_redis w' = y"
      by (auto simp: onRedis_iff)
    have "registered t y = registered t (w_redis w) \<or> registered t y = (registered t (w_redis w))(the (cl_jti payload) := None)" for t
      using T.revoke_removes T.revoke_fails y(1) by (cases x) blast+
    with d y(2) show "dead registered j now w'" by (auto simp: dead_def) (metis fun_upd_apply)
  qed
  have f: "keeps (dead registered j now) (find_user U (cl_userId payload))" for now
    by (auto simp: keeps_def dead_def find_user_def bindP_def onUsers_def liftP_def throwP_def returnP_def
        split: prod.splits sum.splits option.splits)
  have i: "keeps (dead registered j now) (issueTokens J T now jti user)" for now user
  proof (rule keepsI)
    fix w x w' assume d: "dead registered j now w" and run: "issueTokens J T now jti user w = (x, w')"
    then obtain y where y: "ts_save T now jti (u_id user) REFRESH_TTL_SECONDS (w_redis w) = (y, w_redis w')"
      by (auto simp: issueTokens_def Let_def bindP_def onRedis_def liftP_def returnP_def split: prod.splits sum.splits)
    show "dead registered j now w'" using d T.save_other [OF y] assms by (auto simp: dead_def)
  qed
  show "preserves (dead registered j)
      (if cl_type payload \<noteq> Some ''refresh'' \<or> \<not> truthy_str (cl_jti payload) then throwT (Unauthorized RefreshTokenRevoked) else
       bindT (call (\<lambda>now. onRedis (ts_isValid T now (the (cl_jti payload)) (cl_userId payload)))) (\<lambda>valid.
       if \<not> valid then throwT (Unauthorized RefreshTokenRevoked) else
       bindT (call (\<lambda>now. onRedis (ts_revoke T now (the (cl_jti payload))))) (\<lambda>_.
       bindT (call (\<lambda>now. find_user U (cl_userId payload))) (\<lambda>user.
       call (\<lambda>now. issueTokens J T now jti user)))))"
    using v r f i by (auto intro!: preserves_bindT preserves_call)
qed

lemma signed_claims:
  assumes "jwt_verify J now (jwt_sign J t0 c ttl) = Inr p"
  shows "p = c"
proof (cases "now < t0 + ttl")
  case True
  with assms show ?thesis by (simp add: J.verify_live)
next
  case False
  with assms show ?thesis using J.verify_expired [of t0 ttl now c] by auto
qed

lemma establishes_refresh:
  assumes "\<And>now p. jwt_verify J now tok = Inr p \<Longrightarrow> cl_jti p = Some j"
  shows "establishes (dead registered j) (refresh_thread U J T jti tok) False"
  unfolding refresh_thread_def rotate_thread_def
proof (rule establishes_call_bind)
  fix now payload and w w' :: "('u, 'k) auth_world"
  assume "liftE (case jwt_verify J now tok of Inl _ \<Rightarrow> Inl (Unauthorized RefreshTokenInvalid) | Inr p \<Rightarrow> Inr p) w = (Inr payload, w')"
  then have j: "cl_jti payload = Some j" using assms by (auto split: sum.splits)
  have revoked: "dead registered j now w'" if "onRedis (ts_revoke T now j) w = (Inr x, w')" for now w x w'
    using that by (auto simp: onRedis_iff dead_def T.revoke_removes)
  show "establishes (dead registered j)
      (if cl_type payload \<noteq> Some ''refresh'' \<or> \<not> truthy_str (cl_jti payload) then throwT (Unauthorized RefreshTokenRevoked) else
       bindT (call (\<lambda>now. onRedis (ts_isValid T now (the (cl_jti payload)) (cl_userId payload)))) (\<lambda>valid.
       if \<not> valid then throwT (Unauthorized RefreshTokenRevoked) else
       bindT (call (\<lambda>now. onRedis (ts_revoke T now (the (cl_jti payload))))) (\<lambda>_.
       bindT (call (\<lambda>now. find_user U (cl_userId payload))) (\<lambda>user.
       call (\<lambda>now. issueTokens J T now jti user)))))
      (False \<or> dead registered j now w')"
    by (auto simp: j establishes_True revoked intro!: establishes_call_bind)
qed

lemma refused_refresh:
  assumes "\<And>now p. jwt_verify J now tok = Inr p \<Longrightarrow> cl_jti p = Some j"
  shows "refused (dead registered j) (refresh_thread U J T jti tok)"
  unfolding refresh_thread_def rotate_thread_def
proof (rule refused_call_bind)
  fix now r and w w' :: "('u, 'k) auth_world"
  assume run: "liftE (case jwt_verify J now tok of Inl _ \<Rightarrow> Inl (Unauthorized RefreshTokenInvalid) | Inr p \<Rightarrow> Inr p) w = (r, w')"
  have invalid: "q = Inr False" if "dead registered j c v" "onRedis (ts_isValid T c j u) v = (q, v')" for c u v v' q
    using that T.isValid_refuses [of c "w_redis v" j u] by (auto simp: onRedis_iff dead_def)
  show "(\<exists>e. r = Inl e) \<or> (\<exists>payload. r = Inr payload \<and> refused (dead registered j)
      (if cl_type payload \<noteq> Some ''refresh'' \<or> \<not> truthy_str (cl_jti payload) then throwT (Unauthorized RefreshTokenRevoked) else
       bindT (call (\<lambda>now. onRedis (ts_isValid T now (the (cl_jti payload)) (cl_userId payload)))) (\<lambda>valid.
       if \<not> valid then throwT (Unauthorized RefreshTokenRevoked) else
       bindT (call (\<lambda>now. onRedis (ts_revoke T now (the (cl_jti payload))))) (\<lambda>_.
       bindT (call (\<lambda>now. find_user U (cl_userId payload))) (\<lambda>user.
       call (\<lambda>now. issueTokens J T now jti user))))))"
  proof (cases r)
    case (Inr payload)
    then have j: "cl_jti payload = Some j" using run assms by (auto split: sum.splits)
    have "refused (dead registered j) (bindT (call (\<lambda>now. onRedis (ts_isValid T now j (cl_userId payload)))) (\<lambda>valid.
       if \<not> valid then throwT (Unauthorized RefreshTokenRevoked) else
       bindT (call (\<lambda>now. onRedis (ts_revoke T now j))) (\<lambda>_.
       bindT (call (\<lambda>now. find_user U (cl_userId payload))) (\<lambda>user.
       call (\<lambda>now. issueTokens J T now jti user)))))"
      by (rule refused_call_bind) (use invalid in fastforce)
    then show ?thesis by (simp add: Inr j cong: if_cong)
  qed simp
qed

end

text \<open>The system of refresh requests, for a token \<open>j\<close>.\<close>

sublocale auth_service \<subseteq> rotation: stable_system "dead registered j" "refresh_start U J T j" "keeps_dead registered j" for j
proof
  show "dead registered j c s \<Longrightarrow> c \<le> c' \<Longrightarrow> dead registered j c' s" for c c' s by (simp add: dead_def)
  show "dead registered j c s \<Longrightarrow> keeps_dead registered j c s s' \<Longrightarrow> dead registered j c s'" for c s s' by (simp add: keeps_dead_def)
  show "refresh_start U J T j tok t \<Longrightarrow> preserves (dead registered j) t" for tok t
    by (auto simp: refresh_start_def preserves_refresh)
qed

context auth_service
begin

lemma rotation_once:
  assumes "(system_step (refresh_start U J T j) (keeps_dead registered j))\<^sup>*\<^sup>* \<lparr>sy_clock = c, sy_state = w, sy_threads = []\<rparr> y1"
    and "(tok, Done (Inr pair)) \<in> set (sy_threads y1)" "\<And>now p. jwt_verify J now tok = Inr p \<Longrightarrow> cl_jti p = Some j" "jti \<noteq> j"
    and "(system_step (refresh_start U J T j) (keeps_dead registered j))\<^sup>*\<^sup>*
      (y1\<lparr>sy_threads := sy_threads y1 @ [(tok, refresh_thread U J T jti tok)]\<rparr>) y2"
  shows "snd (sy_threads y2 ! length (sy_threads y1)) \<noteq> Done (Inr pair')"
  by (rule rotation.answered_once [OF assms(1) _ _ assms(2) _ _ assms(5)])
    (use assms(3,4) establishes_refresh [of tok j] refused_refresh [of tok j] in \<open>auto simp: refresh_start_def\<close>)

end

section \<open>Properties\<close>

text \<open>
  C11. Rotation under interleaving. Refresh requests run concurrently, cut at their awaits, among anything else that does not register
  the identifier of the token again. Once one of them has answered a refresh token with a new pair, no request
  that presents this token afterwards is ever answered with one.
\<close>

theorem rotation_interleaved:
  assumes "repository U tbl u_id" "redis_server RD view" "jwt_service J"
    and "tok = jwt_sign J t0 (refresh_claims u j) ttl"
    and "(system_step (refresh_start U J (TokenStore RD) j) (keeps_dead (\<lambda>t s. registered_in t (view s)) j))\<^sup>*\<^sup>*
           \<lparr>sy_clock = c, sy_state = w, sy_threads = []\<rparr> y1"
    and "(tok, Done (Inr pair)) \<in> set (sy_threads y1)"
    and "jti \<noteq> j"
    and "(system_step (refresh_start U J (TokenStore RD) j) (keeps_dead (\<lambda>t s. registered_in t (view s)) j))\<^sup>*\<^sup>*
           (y1\<lparr>sy_threads := sy_threads y1 @ [(tok, refresh_thread U J (TokenStore RD) jti tok)]\<rparr>) y2"
  shows "snd (sy_threads y2 ! length (sy_threads y1)) \<noteq> Done (Inr pair')"
proof -
  have auth: "auth_service U tbl RD view (TokenStore RD) (\<lambda>t s. registered_in t (view s)) J"
    by (rule auth_serviceI [OF assms(1-3)])
  have j: "cl_jti p = Some j" if "jwt_verify J now tok = Inr p" for now p
    using auth_service.signed_claims [OF auth that [unfolded assms(4)]] by (simp add: refresh_claims_def)
  show ?thesis by (rule auth_service.rotation_once [OF auth assms(5,6) j assms(7,8)])
qed

section \<open>Schedules\<close>

text \<open>On the sample world, once past the check of the registry, a request is answered whatever Redis holds.\<close>

lemma rotate_returns:
  "\<exists>pair v'. run_thread (rotate_thread users_table mem_jwt (TokenStore mem_redis) jti (refresh_claims plain_user ''j1'')) now
     (session_world v) = (Inr pair, session_world v')"
proof -
  let ?v = "apply_command now (DEL [refresh_key ''j1'']) v"
  obtain x v' where s: "TokenStore_save mem_redis now jti ''u1'' REFRESH_TTL_SECONDS ?v = (x, v')" by fastforce
  have "x = Inr ()" using mem_save_ok [of now jti "''u1''" REFRESH_TTL_SECONDS ?v] by (simp add: s del: apply_command.simps)
  with s show ?thesis
    by (simp add: rotate_thread_def bindP_def onRedis_def onUsers_def liftP_def catchP_def TokenStore_revoke_def find_user_def
        issueTokens_def plain_find returnP_def Let_def mem_redis_run refresh_claims_def session_world_def
        del: apply_command.simps)
qed

text \<open>The two steps before it: the signature, and the registry while the token is in it. Both read only.\<close>

lemma resume_read:
  assumes "i < length (sy_threads y)" "sy_threads y ! i = (tag, bindT (call m) f)" "m (sy_clock y) (sy_state y) = (Inr x, sy_state y)"
  shows "system_step start other y (y\<lparr>sy_threads := (sy_threads y)[i := (tag, f x)]\<rparr>)"
proof -
  have "y\<lparr>sy_state := sy_state y, sy_threads := (sy_threads y)[i := (tag, f x)]\<rparr> = y\<lparr>sy_threads := (sy_threads y)[i := (tag, f x)]\<rparr>"
    by (cases y) simp
  with resume_call [OF assms] show ?thesis by (simp only:)
qed

lemma threads_put:
  "sy_threads (y\<lparr>sy_threads := ts\<rparr>) = ts" "sy_clock (y\<lparr>sy_threads := ts\<rparr>) = sy_clock y" "sy_state (y\<lparr>sy_threads := ts\<rparr>) = sy_state y"
  "y\<lparr>sy_threads := ts, sy_threads := us\<rparr> = y\<lparr>sy_threads := us\<rparr>"
  by simp_all

lemma check_passes:
  assumes i: "i < length (sy_threads y)"
    and t: "sy_threads y ! i = (tag, refresh_thread users_table mem_jwt (TokenStore mem_redis) jti j1_token)"
    and now: "sy_clock y = 20" and s: "sy_state y = session_world j1_view"
  shows "(system_step start other)\<^sup>*\<^sup>* y (y\<lparr>sy_threads := (sy_threads y)[i := (tag,
    rotate_thread users_table mem_jwt (TokenStore mem_redis) jti (refresh_claims plain_user ''j1''))]\<rparr>)"
proof -
  let ?c = "refresh_claims plain_user ''j1''" and ?w = "session_world j1_view"
  let ?r = "\<lambda>payload. rotate_thread users_table mem_jwt (TokenStore mem_redis) jti payload"
  let ?m = "\<lambda>now. onRedis (ts_isValid (TokenStore mem_redis) now ''j1'' ''u1'')"
  let ?f = "\<lambda>valid. if \<not> valid then throwT (Unauthorized RefreshTokenRevoked) else ?r ?c"
  let ?k = "\<lambda>payload. if cl_type payload \<noteq> Some ''refresh'' \<or> \<not> truthy_str (cl_jti payload) then throwT (Unauthorized RefreshTokenRevoked) else
     bindT (call (\<lambda>now. onRedis (ts_isValid (TokenStore mem_redis) now (the (cl_jti payload)) (cl_userId payload)))) (\<lambda>valid.
     if \<not> valid then throwT (Unauthorized RefreshTokenRevoked) else ?r payload)"
  let ?v = "\<lambda>now. liftE (case jwt_verify mem_jwt now j1_token of
     Inl _ \<Rightarrow> Inl (Unauthorized RefreshTokenInvalid) | Inr payload \<Rightarrow> Inr payload)"
  have v: "jwt_verify mem_jwt 20 j1_token = Inr ?c" by (rule j1_verify) simp
  have g: "r_get mem_redis 20 (refresh_key ''j1'') j1_view = (Inr (Some (RStr ''u1'')), j1_view)"
    by (simp add: mem_redis_def j1_view_def live_def)
  have valid: "?m 20 ?w = (Inr True, ?w)"
    by (simp add: onRedis_def liftP_def TokenStore_isValid_def bindP_def catchP_def returnP_def g)
  have c: "?k ?c = bindT (call ?m) ?f" by (simp add: refresh_claims_def truthy_str_def)
  have m: "?v (sy_clock y) (sy_state y) = (Inr ?c, sy_state y)" unfolding now s by (simp add: v)
  have 1: "system_step start other y (y\<lparr>sy_threads := (sy_threads y)[i := (tag, ?k ?c)]\<rparr>)"
    by (rule resume_read [OF i t [unfolded refresh_thread_def] m])
  let ?y = "y\<lparr>sy_threads := (sy_threads y)[i := (tag, bindT (call ?m) ?f)]\<rparr>"
  have i': "i < length (sy_threads ?y)" using i by (simp only: threads_put length_list_update)
  have t': "sy_threads ?y ! i = (tag, bindT (call ?m) ?f)" using i by (simp only: threads_put nth_list_update_eq)
  have m': "?m (sy_clock ?y) (sy_state ?y) = (Inr True, sy_state ?y)" using valid by (simp only: threads_put now s)
  have "system_step start other ?y (?y\<lparr>sy_threads := (sy_threads ?y)[i := (tag, ?f True)]\<rparr>)" by (rule resume_read [OF i' t' m'])
  then have 2: "system_step start other ?y (y\<lparr>sy_threads := (sy_threads y)[i := (tag, ?r ?c)]\<rparr>)"
    by (simp only: threads_put list_update_overwrite not_True_eq_False if_False)
  show ?thesis by (rule converse_rtranclp_into_rtranclp [OF 1 [unfolded c] r_into_rtranclp [of "system_step start other", OF 2]])
qed

text \<open>Two requests with the same token that overlap are both answered with a new pair.\<close>

lemma parallel_refreshes:
  "\<exists>y pair pair'. (system_step (refresh_start users_table mem_jwt (TokenStore mem_redis) ''j1'') (keeps_dead registered_in ''j1''))\<^sup>*\<^sup>*
     \<lparr>sy_clock = 20, sy_state = session_world j1_view, sy_threads = []\<rparr> y \<and>
   sy_threads y = [(j1_token, Done (Inr pair)), (j1_token, Done (Inr pair'))]"
proof -
  let ?S = "system_step (refresh_start users_table mem_jwt (TokenStore mem_redis) ''j1'') (keeps_dead registered_in ''j1'')"
  let ?T = "\<lambda>jti. refresh_thread users_table mem_jwt (TokenStore mem_redis) jti j1_token"
    and ?R = "\<lambda>jti. rotate_thread users_table mem_jwt (TokenStore mem_redis) jti (refresh_claims plain_user ''j1'')"
  let ?y = "\<lambda>s ts. \<lparr>sy_clock = 20, sy_state = s, sy_threads = map (Pair j1_token) ts\<rparr>" and ?w = "session_world j1_view"
  have start: "jti \<noteq> ''j1'' \<Longrightarrow> refresh_start users_table mem_jwt (TokenStore mem_redis) ''j1'' j1_token (?T jti)" for jti
    by (auto simp: refresh_start_def)
  have start_step: "?S (?y s ts) (?y s (ts @ [?T jti]))" if "jti \<noteq> ''j1''" for s ts jti
    using system_step.arrive [of "refresh_start users_table mem_jwt (TokenStore mem_redis) ''j1''" j1_token "?T jti"
        "keeps_dead registered_in ''j1''" "?y s ts"] start [OF that] by simp
  obtain p v where p: "run_thread (?R ''j2'') 20 ?w = (Inr p, session_world v)"
    using rotate_returns [of "''j2''" 20 j1_view] by blast
  obtain p' v' where p': "run_thread (?R ''j3'') 20 (session_world v) = (Inr p', session_world v')"
    using rotate_returns [of "''j3''" 20 v] by blast
  have "?S (?y ?w []) (?y ?w [?T ''j2''])" using start_step [of "''j2''" ?w "[]"] by simp
  moreover have "?S (?y ?w [?T ''j2'']) (?y ?w [?T ''j2'', ?T ''j3''])"
    using start_step [of "''j3''" ?w "[?T ''j2'']"] by simp
  moreover have "?S\<^sup>*\<^sup>* (?y ?w [?T ''j2'', ?T ''j3'']) (?y ?w [?R ''j2'', ?T ''j3''])"
    using check_passes [of 0 "?y ?w [?T ''j2'', ?T ''j3'']" j1_token "''j2''"] by simp
  moreover have "?S\<^sup>*\<^sup>* (?y ?w [?R ''j2'', ?T ''j3'']) (?y ?w [?R ''j2'', ?R ''j3''])"
    using check_passes [of 1 "?y ?w [?R ''j2'', ?T ''j3'']" j1_token "''j3''"] by simp
  moreover have "?S\<^sup>*\<^sup>* (?y ?w [?R ''j2'', ?R ''j3'']) (?y (session_world v) [Done (Inr p), ?R ''j3''])"
    using run_alone [of 0 "?y ?w [?R ''j2'', ?R ''j3'']" j1_token "?R ''j2''"] p by simp
  moreover have "?S\<^sup>*\<^sup>* (?y (session_world v) [Done (Inr p), ?R ''j3'']) (?y (session_world v') [Done (Inr p), Done (Inr p')])"
    using run_alone [of 1 "?y (session_world v) [Done (Inr p), ?R ''j3'']" j1_token "?R ''j3''"] p' by simp
  ultimately have "?S\<^sup>*\<^sup>* (?y ?w []) (?y (session_world v') [Done (Inr p), Done (Inr p')])"
    by (meson converse_rtranclp_into_rtranclp rtranclp_trans)
  then show ?thesis by (intro exI conjI) (simp_all, fastforce)
qed

text \<open>One request, alone.\<close>

lemma one_refresh:
  "\<exists>p v. (system_step (refresh_start users_table mem_jwt (TokenStore mem_redis) ''j1'') (keeps_dead registered_in ''j1''))\<^sup>*\<^sup>*
     \<lparr>sy_clock = 20, sy_state = session_world j1_view, sy_threads = []\<rparr>
     \<lparr>sy_clock = 20, sy_state = session_world v, sy_threads = [(j1_token, Done (Inr p))]\<rparr>"
proof -
  let ?T = "refresh_thread users_table mem_jwt (TokenStore mem_redis) ''j2'' j1_token"
    and ?R = "rotate_thread users_table mem_jwt (TokenStore mem_redis) ''j2'' (refresh_claims plain_user ''j1'')"
    and ?S = "system_step (refresh_start users_table mem_jwt (TokenStore mem_redis) ''j1'') (keeps_dead registered_in ''j1'')"
  let ?y = "\<lambda>s ts. \<lparr>sy_clock = 20, sy_state = s, sy_threads = ts\<rparr>" and ?w = "session_world j1_view"
  obtain p v where p: "run_thread ?R 20 ?w = (Inr p, session_world v)" using rotate_returns [of "''j2''" 20 j1_view] by blast
  have "refresh_start users_table mem_jwt (TokenStore mem_redis) ''j1'' j1_token ?T"
    unfolding refresh_start_def by (rule exI [of _ "''j2''"]) simp
  then have "?S (?y ?w []) (?y ?w [(j1_token, ?T)])"
    using system_step.arrive [of "refresh_start users_table mem_jwt (TokenStore mem_redis) ''j1''" j1_token ?T
        "keeps_dead registered_in ''j1''" "?y ?w []"] by simp
  moreover have "?S\<^sup>*\<^sup>* (?y ?w [(j1_token, ?T)]) (?y ?w [(j1_token, ?R)])"
    using check_passes [of 0 "?y ?w [(j1_token, ?T)]" j1_token "''j2''"] by simp
  moreover have "?S\<^sup>*\<^sup>* (?y ?w [(j1_token, ?R)]) (?y (session_world v) [(j1_token, Done (Inr p))])"
    using run_alone [of 0 "?y ?w [(j1_token, ?R)]" j1_token ?R] p by simp
  ultimately have "?S\<^sup>*\<^sup>* (?y ?w []) (?y (session_world v) [(j1_token, Done (Inr p))])"
    by (meson converse_rtranclp_into_rtranclp rtranclp_trans)
  then show ?thesis by blast
qed

theorem rotation_interleaved_witness:
  "\<exists>y1 y2 pair. (system_step (refresh_start users_table mem_jwt (TokenStore mem_redis) ''j1'') (keeps_dead registered_in ''j1''))\<^sup>*\<^sup>*
     \<lparr>sy_clock = 20, sy_state = session_world j1_view, sy_threads = []\<rparr> y1 \<and>
   (j1_token, Done (Inr pair)) \<in> set (sy_threads y1) \<and>
   (system_step (refresh_start users_table mem_jwt (TokenStore mem_redis) ''j1'') (keeps_dead registered_in ''j1''))\<^sup>*\<^sup>*
     (y1\<lparr>sy_threads := sy_threads y1 @ [(j1_token, refresh_thread users_table mem_jwt (TokenStore mem_redis) ''j3'' j1_token)]\<rparr>) y2 \<and>
   (\<exists>e. snd (sy_threads y2 ! 1) = Done (Inl e))"
proof -
  let ?T = "refresh_thread users_table mem_jwt (TokenStore mem_redis) ''j3'' j1_token"
    and ?S = "system_step (refresh_start users_table mem_jwt (TokenStore mem_redis) ''j1'') (keeps_dead registered_in ''j1'')"
  obtain p v where one: "?S\<^sup>*\<^sup>* \<lparr>sy_clock = 20, sy_state = session_world j1_view, sy_threads = []\<rparr>
     \<lparr>sy_clock = 20, sy_state = session_world v, sy_threads = [(j1_token, Done (Inr p))]\<rparr>" (is "?S\<^sup>*\<^sup>* _ ?y1")
    using one_refresh by blast
  let ?z = "?y1\<lparr>sy_threads := sy_threads ?y1 @ [(j1_token, ?T)]\<rparr>"
  define q where "q = fst (run_thread ?T 20 (session_world v))"
  have two: "?S\<^sup>*\<^sup>* ?z (?z\<lparr>sy_state := snd (run_thread ?T 20 (session_world v)),
      sy_threads := (sy_threads ?z)[1 := (j1_token, Done q)]\<rparr>)" (is "?S\<^sup>*\<^sup>* _ ?y2")
    using run_alone [of 1 ?z j1_token ?T] unfolding q_def by simp
  have "q \<noteq> Inr p'" for p'
    using rotation_interleaved [OF users_tbl.repository_axioms mem_rd.redis_server_axioms mem_jwt.jwt_service_axioms j1_token_def one _ _ two, of p p']
    by simp
  then have "\<exists>e. q = Inl e" by (cases q) auto
  with one two show ?thesis by (intro exI [of _ ?y1] exI [of _ ?y2] exI [of _ p]) simp
qed

text \<open>Requests with a code for the sample account, as they arrive and once past the lock.\<close>

definition code_request :: "string \<Rightarrow> ((user list, redis_view) auth_world, bool) thread" where
  "code_request code = verify_thread users_table mem_redis sample_libs [] ''u1'' code"

definition code_check :: "string \<Rightarrow> ((user list, redis_view) auth_world, bool) thread" where
  "code_check code = call (\<lambda>now. bindP (onKey (decryptTwoFactorSecret (lib_gcm sample_libs) (env_key sample_libs) []
       (the (u_twoFactorSecretEncrypted sample_user)))) (\<lambda>secret.
     check_code users_table mem_redis sample_libs now sample_user secret code))"

lemma lock_passes:
  assumes "i < length (sy_threads y)" "sy_threads y ! i = (tag, code_request code)" "sy_state y = sample_world Map.empty"
  shows "(system_step start other)\<^sup>*\<^sup>* y (y\<lparr>sy_threads := (sy_threads y)[i := (tag, code_check code)]\<rparr>)"
proof -
  let ?k = "\<lambda>user. if \<not> u_twoFactorEnabled user \<or> \<not> truthy_str (u_twoFactorSecretEncrypted user) then returnT False else
     bindT (call (\<lambda>now. assertNotLocked mem_redis now (u_id user))) (\<lambda>_.
     call (\<lambda>now. bindP (onKey (decryptTwoFactorSecret (lib_gcm sample_libs) (env_key sample_libs) []
                     (the (u_twoFactorSecretEncrypted user)))) (\<lambda>secret.
       check_code users_table mem_redis sample_libs now user secret code)))"
    and ?w = "sample_world Map.empty" and ?next = "bindT (call (\<lambda>now. assertNotLocked mem_redis now ''u1'')) (\<lambda>_. code_check code)"
  let ?z = "y\<lparr>sy_state := ?w, sy_threads := (sy_threads y)[i := (tag, ?next)]\<rparr>"
  have k: "?k sample_user = ?next" by (simp add: code_check_def truthy_str_def seal_not_Nil)
  have wc: "code_request code = bindT (call (\<lambda>now. requireUser users_table ''u1'')) ?k"
    by (simp only: code_request_def verify_thread_def)
  have one: "system_step start other y ?z"
    unfolding k [symmetric] by (rule resume_call [OF assms(1) assms(2) [unfolded wc]]) (simp only: assms(3) sample_requireUser)
  have lock: "assertNotLocked mem_redis now ''u1'' ?w = (Inr (), ?w)" for now
    by (simp add: live_def failures_of_def MAX_FAILED_ATTEMPTS_def)
  have "system_step start other ?z (?z\<lparr>sy_state := ?w, sy_threads := (sy_threads ?z)[i := (tag, code_check code)]\<rparr>)"
    by (rule resume_call [where m = "\<lambda>now. assertNotLocked mem_redis now ''u1''" and x = "()"]) (simp_all add: assms(1) lock del: sample_lock)
  moreover have "?z\<lparr>sy_state := ?w, sy_threads := (sy_threads ?z)[i := (tag, code_check code)]\<rparr> =
      y\<lparr>sy_threads := (sy_threads y)[i := (tag, code_check code)]\<rparr>"
    using assms(3) by (simp add: list_update_overwrite)
  ultimately show ?thesis using one by (simp only:)
qed

text \<open>Requests with one code that arrive together are all checked, each on the state the one before it left.\<close>

lemma burst:
  assumes answers: "\<And>s. I s \<Longrightarrow> \<exists>s'. run_thread (code_check code) 10 s = (r, s') \<and> I s'" and "I (sample_world Map.empty)"
  shows "\<exists>w. I w \<and> (system_step (\<lambda>_ t. t = code_request code) (\<lambda>_ _ _. False))\<^sup>*\<^sup>*
     \<lparr>sy_clock = 10, sy_state = sample_world Map.empty, sy_threads = []\<rparr>
     \<lparr>sy_clock = 10, sy_state = w, sy_threads = replicate n ((), Done r)\<rparr>"
proof -
  let ?S = "system_step (\<lambda>_. (\<lambda>t. t = code_request code)) (\<lambda>_ _ _. False)" and ?w = "sample_world Map.empty"
  let ?y = "\<lambda>s t. \<lparr>sy_clock = 10, sy_state = s, sy_threads = replicate n ((), t)\<rparr>"
  have one: "?S\<^sup>*\<^sup>* \<lparr>sy_clock = 10, sy_state = ?w, sy_threads = []\<rparr> (?y ?w (code_request code))"
    by (rule arrivals) simp
  have "\<exists>s'. s' = ?w \<and> ?S\<^sup>*\<^sup>* \<lparr>sy_clock = 10, sy_state = s, sy_threads = ts\<rparr>
      \<lparr>sy_clock = 10, sy_state = s', sy_threads = ts[i := ((), code_check code)]\<rparr>"
    if "s = ?w" "i < length ts" "ts ! i = ((), code_request code)" for s ts i
    using lock_passes [of i "\<lparr>sy_clock = 10, sy_state = s, sy_threads = ts\<rparr>" "()"] that by simp
  from each_thread [where I = "\<lambda>s. s = ?w" and n = n, OF this refl]
  have two: "?S\<^sup>*\<^sup>* (?y ?w (code_request code)) (?y ?w (code_check code))" by simp
  have "\<exists>s'. I s' \<and> ?S\<^sup>*\<^sup>* \<lparr>sy_clock = 10, sy_state = s, sy_threads = ts\<rparr>
      \<lparr>sy_clock = 10, sy_state = s', sy_threads = ts[i := ((), Done r)]\<rparr>"
    if "I s" "i < length ts" "ts ! i = ((), code_check code)" for s ts i
  proof -
    obtain s' where "run_thread (code_check code) 10 s = (r, s')" "I s'" using answers [OF \<open>I s\<close>] by blast
    then show ?thesis
      using run_alone [of i "\<lparr>sy_clock = 10, sy_state = s, sy_threads = ts\<rparr>" "()" "code_check code"] that(2,3)
      by (intro exI [of _ s']) auto
  qed
  from each_thread [where I = I and n = n, OF this assms(2)]
  obtain w where "I w" "?S\<^sup>*\<^sup>* (?y ?w (code_check code)) (?y w (Done r))" by blast
  then show ?thesis using rtranclp_trans [OF rtranclp_trans [OF one two]] by blast
qed

text \<open>
  Any number of wrong codes sent at the same time is answered: the lock bounds only those that read the counter after five
  failures were counted.
\<close>

lemma wrong_code_answered:
  "\<exists>v'. run_thread (code_check ''000000'') now (sample_world v) = (Inr False, sample_world v')"
proof -
  obtain x w where r: "registerFailure mem_redis now ''u1'' (sample_world v) = (x, w)" by fastforce
  have "\<exists>v'. w = sample_world v'" using r by (auto simp: registerFailure_def proc_iff catchP_def split: prod.splits sum.splits if_splits)
  moreover have "x = Inr ()" by (rule mem_accounts.registerFailure_result(1) [OF r])
  ultimately show ?thesis using r
    by (auto simp: code_check_def check_code_def bindP_def onKey_def liftP_def seal_not_Nil
        sample_decrypt returnP_def Let_def sample_user_def [THEN arg_cong, of u_twoFactorBackupCodesHashed])
qed

lemma burst_of_guesses:
  "\<exists>w. (system_step (\<lambda>_ t. t = code_request ''000000'') (\<lambda>_ _ _. False))\<^sup>*\<^sup>* \<lparr>sy_clock = 10, sy_state = sample_world Map.empty, sy_threads = []\<rparr>
     \<lparr>sy_clock = 10, sy_state = w, sy_threads = replicate n ((), Done (Inr False))\<rparr>"
proof -
  have "\<exists>s'. run_thread (code_check ''000000'') 10 s = (Inr False, s') \<and> (\<exists>v. s' = sample_world v)" if "\<exists>v. s = sample_world v" for s
    using that wrong_code_answered [of 10] by metis
  from burst [where I = "\<lambda>s. \<exists>v. s = sample_world v", OF this] show ?thesis by blast
qed

text \<open>And a backup code sent any number of times at once is accepted each time: every request found it in the row it had read.\<close>

lemma backup_code_checked:
  assumes "w_redis w = Map.empty" "w_key w = Some []" "w_users w = [x]" "u_id x = ''u1''" "u_email x = ''a@b.fr''"
  shows "run_thread (code_check ''AAAA-BBBB'') now w =
    (Inr True, w\<lparr>w_users := [sample_user\<lparr>u_twoFactorBackupCodesHashed := Some [''h:CCCC-DDDD'']\<rparr>]\<rparr>)"
proof -
  let ?u = "sample_user\<lparr>u_twoFactorBackupCodesHashed := Some [''h:CCCC-DDDD'']\<rparr>"
  have s: "repo_save users_table ?u (w_users w) = (Inr ?u, [?u])"
    using assms by (simp add: users_table_def mem_repo_def mem_write_def mem_rows_def mem_put_def UQ_users_email_def
        CHK_users_freelance_location_def sample_user_def)
  have b: "u_twoFactorBackupCodesHashed sample_user = Some [''h:AAAA-BBBB'', ''h:CCCC-DDDD'']"
    by (simp add: sample_user_def)
  have c: "clearFailures mem_redis now ''u1'' v = (Inr (), v)" if "w_redis v = Map.empty" for v :: "(user list, redis_view) auth_world"
    using that by (cases v) (simp add: clearFailures_def bindP_def catchP_def onRedis_def liftP_def mem_redis_def returnP_def fun_eq_iff)
  have k: "w\<lparr>w_key := Some []\<rparr> = w" using assms(2) by simp
  show ?thesis
    by (simp add: code_check_def check_code_def bindP_def onKey_def onUsers_def liftP_def seal_not_Nil assms(1,2) k
        sample_decrypt returnP_def Let_def b c s remove_index_def)
qed

lemma burst_of_one_backup_code:
  "\<exists>w. (system_step (\<lambda>_ t. t = code_request ''AAAA-BBBB'') (\<lambda>_ _ _. False))\<^sup>*\<^sup>* \<lparr>sy_clock = 10, sy_state = sample_world Map.empty, sy_threads = []\<rparr>
     \<lparr>sy_clock = 10, sy_state = w, sy_threads = replicate n ((), Done (Inr True))\<rparr>"
proof -
  let ?I = "\<lambda>w. w_redis w = Map.empty \<and> w_key w = Some [] \<and> (\<exists>x. w_users w = [x] \<and> u_id x = ''u1'' \<and> u_email x = ''a@b.fr'')"
  have "\<exists>s'. run_thread (code_check ''AAAA-BBBB'') 10 s = (Inr True, s') \<and> ?I s'" if "?I s" for s
    using that backup_code_checked [of s] by (auto simp: sample_user_def)
  from burst [where I = ?I, OF this] show ?thesis by (auto simp: sample_user_def)
qed

end
