(* ===== verification/RegisterInterleaving.thy ===== *)
theory RegisterInterleaving
  imports Interleaving Auth
begin

text \<open>
  Registrations that overlap. \<open>register\<close> of \<open>auth/auth.service.ts\<close> looks the address up, hashes the password and inserts the row in three
  \<open>await\<close>s, so the lookup alone does not keep an address to one account; the unique index of the entity does. Run alone the thread is
  the procedure of Auth (\<open>run_register_thread\<close>). \<open>registrations_interleaved\<close> counts, in every interleaving, one account for each
  registration that was answered; \<open>same_address_twice\<close> is what the later of two overlapping registrations is told.
\<close>

section \<open>The thread\<close>

definition insert_thread :: "('u, user) repo \<Rightarrow> RegisterDto \<Rightarrow> string \<Rightarrow> (('u, 'k) auth_world, PublicUser) thread" where
  "insert_thread U dto passwordHash =
     bindT (call (\<lambda>now. onUsers (repo_insert U (new_user dto passwordHash)))) (\<lambda>saved. returnT (toPublicUser saved))"

definition hash_thread :: "('u, user) repo \<Rightarrow> auth_libs \<Rightarrow> bytes \<Rightarrow> RegisterDto \<Rightarrow> (('u, 'k) auth_world, PublicUser) thread" where
  "hash_thread U L salt dto = bindT (call (\<lambda>now. returnP (a_hash L salt (rd_password dto)))) (insert_thread U dto)"

definition register_thread :: "('u, user) repo \<Rightarrow> auth_libs \<Rightarrow> bytes \<Rightarrow> RegisterDto \<Rightarrow> (('u, 'k) auth_world, PublicUser) thread" where
  "register_thread U L salt dto =
     (if rd_role dto \<notin> set SELF_ASSIGNABLE_ROLES then throwT (Forbidden RoleNotSelfAssignable) else
      bindT (call (\<lambda>now. onUsers (repo_findOne U (\<lambda>u. u_email u = rd_email dto)))) (\<lambda>existing.
      if existing \<noteq> None then throwT (Unauthorized EmailAlreadyRegistered) else hash_thread U L salt dto))"

lemma run_register_thread: "run_thread (register_thread U L salt dto) now = register U L salt dto"
  by (auto simp: register_thread_def hash_thread_def insert_thread_def register_def Let_def
      if_distrib [of "\<lambda>t. run_thread t now"] bindP_def returnP_def fun_eq_iff
      intro!: arg_cong2 [of _ _ _ _ bindP] split: sum.splits prod.splits)

section \<open>Accounting\<close>

text \<open>The accounts of an address, and the registrations of it that were answered with one.\<close>

definition accounts :: "(string \<rightharpoonup> user) \<Rightarrow> string \<Rightarrow> nat" where
  "accounts t e = card (matching t (\<lambda>u. u_email u = e))"

fun granted :: "string \<Rightarrow> RegisterDto \<times> ('s, PublicUser) thread \<Rightarrow> bool" where
  "granted e (dto, Done (Inr pub)) \<longleftrightarrow> rd_email dto = e"
| "granted e (dto, t) \<longleftrightarrow> False"

definition registrations :: "string \<Rightarrow> (RegisterDto \<times> ('s, PublicUser) thread) list \<Rightarrow> nat" where
  "registrations e ps = length (filter (granted e) ps)"

text \<open>The other handlers neither create nor delete accounts, nor change an address.\<close>

definition keeps_accounts :: "('u \<Rightarrow> string \<rightharpoonup> user) \<Rightarrow> nat \<Rightarrow> ('u, 'k) auth_world \<Rightarrow> ('u, 'k) auth_world \<Rightarrow> bool" where
  "keeps_accounts tbl now w w' \<longleftrightarrow> accounts (tbl (w_users w')) = accounts (tbl (w_users w))"

definition register_start :: "('u, user) repo \<Rightarrow> auth_libs \<Rightarrow> RegisterDto \<Rightarrow> (('u, 'k) auth_world, PublicUser) thread \<Rightarrow> bool" where
  "register_start U L dto t \<longleftrightarrow> (\<exists>salt. t = register_thread U L salt dto)"

text \<open>What a registration may be: waiting at one of its awaits, refused, or answered.\<close>

definition register_refusals :: "exn set" where
  "register_refusals = {Forbidden RoleNotSelfAssignable, Unauthorized EmailAlreadyRegistered, LibraryError}"

definition registering :: "('u, user) repo \<Rightarrow> auth_libs \<Rightarrow> RegisterDto \<times> (('u, 'k) auth_world, PublicUser) thread \<Rightarrow> bool" where
  "registering U L p \<longleftrightarrow> (case p of (dto, t) \<Rightarrow>
     (\<exists>salt. t = register_thread U L salt dto) \<or> (\<exists>e \<in> register_refusals. t = Done (Inl e)) \<or>
     rd_role dto \<in> set SELF_ASSIGNABLE_ROLES \<and> ((\<exists>salt. t = hash_thread U L salt dto) \<or> (\<exists>h. t = insert_thread U dto h) \<or>
       (\<exists>pub. t = Done (Inr pub) \<and> pu_email pub = rd_email dto \<and> pu_role pub = rd_role dto)))"

lemma registering_intros:
  "registering U L (dto, register_thread U L salt dto)" "e \<in> register_refusals \<Longrightarrow> registering U L (dto, Done (Inl e))"
  "rd_role dto \<in> set SELF_ASSIGNABLE_ROLES \<Longrightarrow> registering U L (dto, hash_thread U L salt dto)"
  "rd_role dto \<in> set SELF_ASSIGNABLE_ROLES \<Longrightarrow> registering U L (dto, insert_thread U dto h)"
  "rd_role dto \<in> set SELF_ASSIGNABLE_ROLES \<Longrightarrow> pu_email pub = rd_email dto \<Longrightarrow> pu_role pub = rd_role dto \<Longrightarrow>
     registering U L (dto, Done (Inr pub))"
  by (auto simp: registering_def)

lemma call_bind_step:
  assumes "bindT (call m) f = Await k" "k now w = (t, w')"
  obtains r where "m now w = (r, w')" "t = (case r of Inl e \<Rightarrow> Done (Inl e) | Inr x \<Rightarrow> f x)"
  using assms by (auto simp: call_def split: prod.splits)

lemma registrations_append [simp]: "registrations e (ps @ [p]) = registrations e ps + (if granted e p then 1 else 0)"
  by (simp add: registrations_def)

lemma registrations_update:
  "i < length ps \<Longrightarrow> \<not> granted e (ps ! i) \<Longrightarrow> registrations e (ps[i := p]) = registrations e ps + (if granted e p then 1 else 0)"
  by (induction ps arbitrary: i) (auto simp: registrations_def less_Suc_eq_0_disj)

lemma not_granted_thread [simp]:
  "\<not> granted e (dto, Await k)" "\<not> granted e (dto', Done (Inl x))" "\<not> granted e (dto, hash_thread U L salt dto)"
  "\<not> granted e (dto, insert_thread U dto h)" "\<not> granted e (dto, register_thread U L salt dto)"
  by (simp_all add: hash_thread_def insert_thread_def register_thread_def call_def throwT_def)

text \<open>The users table with the unique index on the address.\<close>

locale unique_accounts = U: repository U tbl u_id for U :: "('u, user) repo" and tbl :: "'u \<Rightarrow> string \<rightharpoonup> user" +
  assumes unique_email: "repo_insert U d s = (Inr r, s') \<Longrightarrow> tbl s i = Some u \<Longrightarrow> u_email u \<noteq> u_email r"
begin

lemma accounts_insert:
  assumes "repo_insert U (new_user dto h) s = (Inr u, s')"
  shows "accounts (tbl s') e = accounts (tbl s) e + (if rd_email dto = e then 1 else 0)" "accounts (tbl s) (rd_email dto) = 0"
    "u_email u = rd_email dto" "u_role u = rd_role dto"
proof -
  obtain i t where u: "u = new_user dto h i t" and s': "tbl s' = (tbl s)(u_id u \<mapsto> u)" "u_id u = i \<longrightarrow> tbl s i = None"
    using U.insert_row [OF assms] by blast
  then have i: "u_id u = i" "tbl s i = None" by (simp_all add: new_user_def)
  show "u_email u = rd_email dto" "u_role u = rd_role dto" by (simp_all add: u new_user_def)
  have "matching (tbl s') (\<lambda>v. u_email v = e) =
      (if rd_email dto = e then insert i (matching (tbl s) (\<lambda>v. u_email v = e)) else matching (tbl s) (\<lambda>v. u_email v = e))"
    using i s'(1) \<open>u_email u = _\<close> by (auto simp: matching_def)
  moreover have "finite (matching (tbl s) (\<lambda>v. u_email v = e))"
    by (rule finite_subset [OF _ U.tbl_finite [of s]]) (auto simp: matching_def)
  moreover have "i \<notin> matching (tbl s) (\<lambda>v. u_email v = e)" using i(2) by (simp add: matching_def)
  ultimately show "accounts (tbl s') e = accounts (tbl s) e + (if rd_email dto = e then 1 else 0)" by (simp add: accounts_def)
  have "matching (tbl s) (\<lambda>v. u_email v = rd_email dto) = {}"
    using unique_email [OF assms] \<open>u_email u = _\<close> by (auto simp: matching_def)
  then show "accounts (tbl s) (rd_email dto) = 0" by (simp add: accounts_def)
qed

text \<open>A step of a registration: it creates the account exactly when it answers.\<close>

lemma registering_step:
  assumes "registering U L (dto, Await k)" "k now w = (t, w')"
  shows "registering U L (dto, t)"
    and "accounts (tbl (w_users w')) e = accounts (tbl (w_users w)) e + (if granted e (dto, t) then 1 else 0)"
    and "granted e (dto, t) \<Longrightarrow> accounts (tbl (w_users w)) e = 0"
proof -
  have "registering U L (dto, t) \<and>
      accounts (tbl (w_users w')) e = accounts (tbl (w_users w)) e + (if granted e (dto, t) then 1 else 0) \<and>
      (granted e (dto, t) \<longrightarrow> accounts (tbl (w_users w)) e = 0)"
    using assms(1) [unfolded registering_def prod.case]
  proof (elim disjE conjE exE bexE)
    fix salt assume k: "Await k = register_thread U L salt dto"
    then have role: "rd_role dto \<in> set SELF_ASSIGNABLE_ROLES" by (auto simp: register_thread_def throwT_def split: if_splits)
    obtain r where r: "onUsers (repo_findOne U (\<lambda>u. u_email u = rd_email dto)) w = (r, w')"
      and t: "t = (case r of Inl e \<Rightarrow> Done (Inl e) | Inr x \<Rightarrow> if x \<noteq> None then throwT (Unauthorized EmailAlreadyRegistered) else hash_thread U L salt dto)"
      by (rule call_bind_step [OF k [symmetric, unfolded register_thread_def, simplified role not_True_eq_False if_False] assms(2)])
    obtain x where x: "repo_findOne U (\<lambda>u. u_email u = rd_email dto) (w_users w) = (r, x)" "w' = w\<lparr>w_users := x\<rparr>"
      using r by (auto simp: onUsers_iff)
    show ?thesis
      using t role x(2) U.findOne_frame [OF x(1)] U.findOne_error [of "\<lambda>u. u_email u = rd_email dto" "w_users w"] x(1)
      by (cases r) (auto simp: register_refusals_def throwT_def intro: registering_intros)
  next
    fix salt assume role: "rd_role dto \<in> set SELF_ASSIGNABLE_ROLES" and k: "Await k = hash_thread U L salt dto"
    obtain r where "returnP (a_hash L salt (rd_password dto)) w = (r, w')"
      "t = (case r of Inl e \<Rightarrow> Done (Inl e) | Inr x \<Rightarrow> insert_thread U dto x)"
      by (rule call_bind_step [OF k [symmetric, unfolded hash_thread_def] assms(2)])
    with role show ?thesis by (auto simp: returnP_def intro: registering_intros)
  next
    fix h assume role: "rd_role dto \<in> set SELF_ASSIGNABLE_ROLES" and k: "Await k = insert_thread U dto h"
    obtain r where r: "onUsers (repo_insert U (new_user dto h)) w = (r, w')"
      and t: "t = (case r of Inl e \<Rightarrow> Done (Inl e) | Inr saved \<Rightarrow> returnT (toPublicUser saved))"
      by (rule call_bind_step [OF k [symmetric, unfolded insert_thread_def] assms(2)])
    obtain x where x: "repo_insert U (new_user dto h) (w_users w) = (r, x)" "w' = w\<lparr>w_users := x\<rparr>"
      using r by (auto simp: onUsers_iff)
    show ?thesis
    proof (cases r)
      case (Inl e')
      with t x(2) U.insert_frame [OF x(1) [unfolded Inl]] U.insert_error [OF x(1) [unfolded Inl]]
      show ?thesis by (auto simp: register_refusals_def intro: registering_intros)
    next
      case (Inr u)
      with t role x(2) accounts_insert [OF x(1) [unfolded Inr]] show ?thesis by (auto simp: returnT_def toPublicUser_def intro: registering_intros)
    qed
  qed auto
  then show "registering U L (dto, t)"
    "accounts (tbl (w_users w')) e = accounts (tbl (w_users w)) e + (if granted e (dto, t) then 1 else 0)"
    "granted e (dto, t) \<Longrightarrow> accounts (tbl (w_users w)) e = 0" by blast+
qed

text \<open>The invariant of the system.\<close>

lemma register_steps:
  assumes "(system_step (register_start U L) (keeps_accounts tbl))\<^sup>*\<^sup>* \<lparr>sy_clock = c, sy_state = w, sy_threads = []\<rparr> y"
    and "\<forall>e. accounts (tbl (w_users w)) e \<le> 1"
  shows "(\<forall>p \<in> set (sy_threads y). registering U L p) \<and>
    (\<forall>e. accounts (tbl (w_users (sy_state y))) e = accounts (tbl (w_users w)) e + registrations e (sy_threads y) \<and>
      accounts (tbl (w_users w)) e + registrations e (sy_threads y) \<le> 1)"
  using assms(1)
proof (induction rule: rtranclp_induct)
  case base
  then show ?case using assms(2) by (simp add: registrations_def)
next
  case (step y z)
  from step.hyps(2) show ?case
  proof (cases rule: system_step.cases)
    case (tick c')
    with step.IH show ?thesis by simp
  next
    case (resume i tag k t s')
    have reg: "registering U L (tag, Await k)" using step.IH resume(2,3) nth_mem by metis
    note one = registering_step [OF reg resume(4)]
    have "registering U L p" if "p \<in> set ((sy_threads y)[i := (tag, t)])" for p
      using that set_update_subset_insert [of "sy_threads y" i] step.IH one(1) by blast
    moreover have "accounts (tbl (w_users s')) e = accounts (tbl (w_users w)) e + registrations e ((sy_threads y)[i := (tag, t)]) \<and>
        accounts (tbl (w_users w)) e + registrations e ((sy_threads y)[i := (tag, t)]) \<le> 1" for e
      using step.IH one(2,3) [of e] registrations_update [OF resume(2), of e "(tag, t)"] resume(3) by auto
    ultimately show ?thesis unfolding resume(1) by simp
  next
    case (arrive tag t)
    then show ?thesis using step.IH by (auto simp: register_start_def registering_def)
  next
    case (elsewhere s')
    with step.IH show ?thesis by (simp add: keeps_accounts_def)
  qed
qed

end

interpretation mem_unique: unique_accounts users_table "mem_tbl u_id"
proof (intro unique_accounts.intro unique_accounts_axioms.intro users_tbl.repository_axioms)
  fix d s r s' i u
  assume ins: "repo_insert users_table d s = (Inr r, s')" and u: "mem_tbl u_id s i = Some u"
  then have "UQ_users_email r (filter (\<lambda>x. u_id x \<noteq> u_id r) (mem_rows u_id s))" and new: "u_id r \<notin> u_id ` set s"
    by (auto simp: users_table_def mem_repo_def Let_def dest!: mem_write_Inr split: if_splits)
  moreover have "u_id u = i" "u \<in> set (mem_rows u_id s)" using u mem_tbl_key [OF u] by (auto simp: mem_rows_iff)
  moreover have "i \<in> u_id ` set s" using u dom_mem_tbl [of u_id s] by auto
  ultimately show "u_email u \<noteq> u_email r" by (auto simp: UQ_users_email_def)
qed

section \<open>Property\<close>

text \<open>
  C10. Registration under interleaving. Registrations run concurrently, cut at their awaits, among handlers that neither create nor
  delete accounts. Every address that had at most one account has at most one at any time; the accounts are those of before and one
  for each registration answered with success, so of any number of registrations with one address at most one is; the
  answer names the address and the role asked for, which is not ADMIN, and the others are refused for the role, for the address, or
  by the database.
\<close>

theorem registrations_interleaved:
  assumes "unique_accounts U tbl"
    and "(system_step (register_start U L) (keeps_accounts tbl))\<^sup>*\<^sup>* \<lparr>sy_clock = c, sy_state = w, sy_threads = []\<rparr> y"
    and "\<forall>e. accounts (tbl (w_users w)) e \<le> 1"
  shows "accounts (tbl (w_users (sy_state y))) e = accounts (tbl (w_users w)) e + registrations e (sy_threads y) \<and>
    accounts (tbl (w_users (sy_state y))) e \<le> 1 \<and>
    ((dto, Done r) \<in> set (sy_threads y) \<longrightarrow> (case r of
        Inl x \<Rightarrow> x \<in> {Forbidden RoleNotSelfAssignable, Unauthorized EmailAlreadyRegistered, LibraryError}
      | Inr pub \<Rightarrow> pu_email pub = rd_email dto \<and> pu_role pub = rd_role dto \<and> rd_role dto \<noteq> ADMIN))"
proof -
  note steps = unique_accounts.register_steps [OF assms]
  note registering_threads = steps [THEN conjunct1, rule_format, of "(dto, Done r)"]
  then have "(dto, Done r) \<in> set (sy_threads y) \<longrightarrow> (case r of
        Inl x \<Rightarrow> x \<in> {Forbidden RoleNotSelfAssignable, Unauthorized EmailAlreadyRegistered, LibraryError}
      | Inr pub \<Rightarrow> pu_email pub = rd_email dto \<and> pu_role pub = rd_role dto \<and> rd_role dto \<noteq> ADMIN)"
    by (auto simp: registering_def register_thread_def hash_thread_def insert_thread_def call_def throwT_def register_refusals_def
        SELF_ASSIGNABLE_ROLES_def split: sum.splits if_splits)
  with steps show ?thesis by (metis (no_types, lifting))
qed

section \<open>Schedules\<close>

text \<open>
  Two registrations with the same address that overlap both find it free. The index refuses the second row, and the error is not
  caught: its client is told 500, where a registration that comes later is told 401.
\<close>

lemma same_address_twice:
  "\<exists>pub w'. (system_step (register_start users_table sample_libs) (keeps_accounts (mem_tbl u_id)))\<^sup>*\<^sup>*
     \<lparr>sy_clock = 20, sy_state = sample_world Map.empty\<lparr>w_users := []\<rparr>, sy_threads = []\<rparr>
     \<lparr>sy_clock = 20, sy_state = w', sy_threads = [(sample_dto, Done (Inr pub)), (sample_dto, Done (Inl LibraryError))]\<rparr> \<and>
   http_status LibraryError = 500 \<and> fst (register users_table sample_libs [] sample_dto w') = Inl (Unauthorized EmailAlreadyRegistered)"
proof -
  let ?S = "system_step (register_start users_table sample_libs) (keeps_accounts (mem_tbl u_id))"
  let ?T = "register_thread users_table sample_libs [] sample_dto" and ?H = "hash_thread users_table sample_libs [] sample_dto"
  let ?w = "sample_world Map.empty\<lparr>w_users := []\<rparr>"
  let ?y = "\<lambda>s ts. \<lparr>sy_clock = 20, sy_state = s, sy_threads = map (Pair sample_dto) ts\<rparr>"
  have start: "register_start users_table sample_libs sample_dto ?T" by (auto simp: register_start_def)
  have arrive: "?S (?y s ts) (?y s (ts @ [?T]))" for s ts
    using system_step.arrive [of "register_start users_table sample_libs" sample_dto ?T "keeps_accounts (mem_tbl u_id)" "?y s ts"] start by simp
  have role: "rd_role sample_dto \<in> set SELF_ASSIGNABLE_ROLES" by (simp add: sample_dto_def SELF_ASSIGNABLE_ROLES_def)
  have find: "onUsers (repo_findOne users_table (\<lambda>u. u_email u = rd_email sample_dto)) ?w = (Inr None, ?w)"
    by (simp add: onUsers_def liftP_def table_run table_rows)
  have look: "?S (?y ?w ts) (?y ?w (ts[i := ?H]))" if "i < length ts" "ts ! i = ?T" for ts i
  proof -
    have "sy_threads (?y ?w ts) ! i = (sample_dto, bindT (call (\<lambda>now. onUsers (repo_findOne users_table (\<lambda>u. u_email u = rd_email sample_dto))))
        (\<lambda>existing. if existing \<noteq> None then throwT (Unauthorized EmailAlreadyRegistered) else ?H))"
      using that role by (simp add: register_thread_def)
    from resume_call [OF _ this, of None ?w] that(1) find show ?thesis by (simp add: map_update)
  qed
  obtain pub w1 where one: "run_thread ?H 20 ?w = (Inr pub, w1)" "w_users w1 = [new_user sample_dto (a_hash sample_libs [] (rd_password sample_dto)) ''0'' 0]"
    by (simp add: hash_thread_def insert_thread_def bindP_def onUsers_def liftP_def table_run table_rows returnP_def new_user_def
        sample_dto_def CHK_users_freelance_location_def Let_def)
  then have two: "run_thread ?H 20 w1 = (Inl LibraryError, w1)"
    by (simp add: hash_thread_def insert_thread_def bindP_def onUsers_def liftP_def table_run table_rows returnP_def new_user_def
        sample_dto_def CHK_users_freelance_location_def Let_def)
  have "?S (?y ?w []) (?y ?w [?T])" using arrive [of ?w "[]"] by simp
  moreover have "?S (?y ?w [?T]) (?y ?w [?T, ?T])" using arrive [of ?w "[?T]"] by simp
  moreover have "?S (?y ?w [?T, ?T]) (?y ?w [?H, ?T])" using look [of 0 "[?T, ?T]"] by simp
  moreover have "?S (?y ?w [?H, ?T]) (?y ?w [?H, ?H])" using look [of 1 "[?H, ?T]"] by simp
  moreover have "?S\<^sup>*\<^sup>* (?y ?w [?H, ?H]) (?y w1 [Done (Inr pub), ?H])"
    using run_alone [of 0 "?y ?w [?H, ?H]" sample_dto ?H] one(1) by simp
  moreover have "?S\<^sup>*\<^sup>* (?y w1 [Done (Inr pub), ?H]) (?y w1 [Done (Inr pub), Done (Inl LibraryError)])"
    using run_alone [of 1 "?y w1 [Done (Inr pub), ?H]" sample_dto ?H] two by simp
  ultimately have "?S\<^sup>*\<^sup>* (?y ?w []) (?y w1 [Done (Inr pub), Done (Inl LibraryError)])"
    by (meson converse_rtranclp_into_rtranclp rtranclp_trans)
  moreover have "fst (register users_table sample_libs [] sample_dto w1) = Inl (Unauthorized EmailAlreadyRegistered)"
    using one(2) role by (simp add: register_def bindP_def onUsers_def liftP_def table_run table_rows throwP_def new_user_def)
  ultimately show ?thesis by (intro exI [of _ pub] exI [of _ w1]) simp
qed

theorem registrations_interleaved_witness:
  "\<exists>pub (w' :: (user list, redis_view) auth_world). accounts (mem_tbl u_id (w_users w')) (rd_email sample_dto) =
     registrations (rd_email sample_dto) [(sample_dto, Done (Inr pub) :: ((user list, redis_view) auth_world, PublicUser) thread), (sample_dto, Done (Inl LibraryError))] \<and>
     accounts (mem_tbl u_id (w_users w')) (rd_email sample_dto) = 1 \<and> pu_email pub = rd_email sample_dto"
proof -
  let ?w = "sample_world Map.empty\<lparr>w_users := []\<rparr>"
  obtain pub w' where run: "(system_step (register_start users_table sample_libs) (keeps_accounts (mem_tbl u_id)))\<^sup>*\<^sup>*
     \<lparr>sy_clock = 20, sy_state = ?w, sy_threads = []\<rparr>
     \<lparr>sy_clock = 20, sy_state = w', sy_threads = [(sample_dto, Done (Inr pub)), (sample_dto, Done (Inl LibraryError))]\<rparr>"
    using same_address_twice by blast
  have "\<forall>e. accounts (mem_tbl u_id (w_users ?w)) e \<le> 1" "accounts (mem_tbl u_id (w_users ?w)) e = 0" for e
    by (simp_all add: accounts_def matching_def mem_tbl_def)
  with registrations_interleaved [OF mem_unique.unique_accounts_axioms run, of "rd_email sample_dto" sample_dto "Inr pub"]
  show ?thesis by (intro exI [of _ pub] exI [of _ w']) (simp add: registrations_def)
qed

end
