(* ===== verification/GearInterleaving.thy ===== *)
theory GearInterleaving
  imports Gear
begin

text \<open>
  The handlers of \<open>gear/gear.service.ts\<close> that write, cut at their \<open>await\<close>s: each request has a program counter, and the steps of
  several requests interleave. Run alone a request is the procedure of Gear. \<open>showcase_interleaved\<close> is what the check of
  the four places is worth when requests overlap: with at most \<open>k\<close> requests of a freelance at a time, at most \<open>3 + k\<close> items
  are pinned. For \<open>k = 1\<close> these are the four places; the witness reaches five with two requests.
\<close>

section \<open>Requests and their program counters\<close>

datatype gear_request = Loadout string string bool | Review string GearStatus | Add string AddGearDto

text \<open>What a request waits for next, with the row it has in hand.\<close>

datatype gear_pc = Finding | Counting gear | Saving gear | Publishing gear | Inserting user | Returned "exn + gear"

fun continue :: "(exn + 'a) \<times> 'w \<Rightarrow> ('a \<Rightarrow> gear_pc) \<Rightarrow> gear_pc \<times> 'w" where
  "continue (r, w) f = (case r of Inl e \<Rightarrow> Returned (Inl e) | Inr x \<Rightarrow> f x, w)"

fun advance :: "('u, user) repo \<Rightarrow> ('g, gear) repo \<Rightarrow> 'k redis \<Rightarrow> nat \<Rightarrow> gear_request \<Rightarrow> gear_pc \<Rightarrow>
    ('u, 'g, 'c, 'k, 'o) app_world \<Rightarrow> gear_pc \<times> ('u, 'g, 'c, 'k, 'o) app_world" where
  "advance U G RD now (Loadout f i b) Finding w =
     continue (atGear (repo_findOne G (\<lambda>g. g_id g = i \<and> g_freelanceId g = f)) w) (\<lambda>found. case found of
       None \<Rightarrow> Returned (Inl (NotFound GearNotFound))
     | Some g \<Rightarrow>
         if b \<and> g_status g \<noteq> GearStatus.VALIDATED then Returned (Inl (BadRequest OnlyValidatedGear))
         else if b \<and> \<not> g_isInLoadout g then Counting g
         else Saving (g\<lparr>g_isInLoadout := b\<rparr>))"
| "advance U G RD now (Loadout f i b) (Counting g) w =
     continue (atGear (repo_count G (\<lambda>x. g_freelanceId x = f \<and> g_isInLoadout x)) w) (\<lambda>n.
       if n \<ge> LOADOUT_MAX_SLOTS then Returned (Inl (BadRequest LoadoutFull)) else Saving (g\<lparr>g_isInLoadout := b\<rparr>))"
| "advance U G RD now (Loadout f i b) (Saving g) w = continue (atGear (repo_save G g) w) (\<lambda>saved. Returned (Inr saved))"
| "advance U G RD now (Review i d) Finding w =
     continue (atGear (repo_findOne G (\<lambda>g. g_id g = i)) w) (\<lambda>found. case found of
       None \<Rightarrow> Returned (Inl (NotFound GearNotFound))
     | Some g \<Rightarrow>
         if g_status g \<noteq> GearStatus.PENDING then Returned (Inl (Conflict GearAlreadyReviewed))
         else Saving (g\<lparr>g_status := d, g_isInLoadout := (if d = GearStatus.REJECTED then False else g_isInLoadout g)\<rparr>))"
| "advance U G RD now (Review i d) (Saving g) w = continue (atGear (repo_save G g) w) Publishing"
| "advance U G RD now (Review i d) (Publishing g) w =
     continue (atRedis (publish RD now (review_event d) [(''gearId'', g_id g), (''freelanceId'', g_freelanceId g)]) w)
       (\<lambda>_. Returned (Inr g))"
| "advance U G RD now (Add f dto) Finding w =
     continue (atUsers (repo_findOne U (\<lambda>u. u_id u = f)) w) (\<lambda>found. case found of
       None \<Rightarrow> Returned (Inl (NotFound FreelanceProfileNotFoundOrNotAllowed))
     | Some u \<Rightarrow> if u_role u \<noteq> FREELANCE then Returned (Inl (NotFound FreelanceProfileNotFoundOrNotAllowed)) else Inserting u)"
| "advance U G RD now (Add f dto) (Inserting u) w =
     continue (atGear (repo_insert G (new_gear (u_id u) dto)) w) (\<lambda>saved. Returned (Inr saved))"
| "advance U G RD now q pc w = (pc, w)"

text \<open>A request alone: three steps are enough, since no handler awaits more often.\<close>

definition run_request :: "('u, user) repo \<Rightarrow> ('g, gear) repo \<Rightarrow> 'k redis \<Rightarrow> nat \<Rightarrow> gear_request \<Rightarrow>
    ('u, 'g, 'c, 'k, 'o) app_world \<Rightarrow> gear_pc \<times> ('u, 'g, 'c, 'k, 'o) app_world" where
  "run_request U G RD now q w = ((\<lambda>(pc, w). advance U G RD now q pc w) ^^ 3) (Finding, w)"

fun gear_handler :: "('u, user) repo \<Rightarrow> ('g, gear) repo \<Rightarrow> 'k redis \<Rightarrow> nat \<Rightarrow> gear_request \<Rightarrow> ('u, 'g, 'c, 'k, 'o, gear) app" where
  "gear_handler U G RD now (Loadout f i b) = setLoadout G f i b"
| "gear_handler U G RD now (Review i d) = reviewGear G RD now i d"
| "gear_handler U G RD now (Add f dto) = addGearToLocker U G f dto"

lemma continue_Returned [simp]: "continue p (\<lambda>x. Returned (Inr x)) = map_prod Returned id p"
  by (cases p) (simp split: sum.split)

lemma advance_Returned [simp]: "advance U G RD now q (Returned r) w = (Returned r, w)"
  by (cases q) simp_all

lemma advance_done [simp]: "map_prod Returned id p = (pc, w) \<Longrightarrow> advance U G RD now q pc w = (pc, w)"
  by (cases p) auto

lemma continueE:
  assumes "continue p f = (pc', w')"
  obtains e where "p = (Inl e, w')" "pc' = Returned (Inl e)" | x where "p = (Inr x, w')" "pc' = f x"
  using assms by (cases p) (auto split: sum.splits)

lemma run_request_handler: "run_request U G RD now q w = map_prod Returned id (gear_handler U G RD now q w)"
  by (cases q) (auto simp: run_request_def numeral_3_eq_3 setLoadout_def reviewGear_def addGearToLocker_def check_pin_def
      bindP_def throwP_def returnP_def split: sum.splits prod.splits option.splits if_splits)

section \<open>Overlapping requests\<close>

record ('u, 'g, 'c, 'k, 'o) gear_system =
  gy_world :: "('u, 'g, 'c, 'k, 'o) app_world"
  gy_requests :: "(gear_request \<times> gear_pc) list"

text \<open>The loadout requests of a freelance that have not returned.\<close>

fun under_way :: "string \<Rightarrow> gear_request \<times> gear_pc \<Rightarrow> bool" where
  "under_way f (Loadout f' i b, pc) \<longleftrightarrow> f' = f \<and> (\<forall>r. pc \<noteq> Returned r)"
| "under_way f p \<longleftrightarrow> False"

definition in_flight :: "string \<Rightarrow> (gear_request \<times> gear_pc) list \<Rightarrow> nat" where
  "in_flight f ps = length (filter (under_way f) ps)"

inductive gear_system_step :: "('u, user) repo \<Rightarrow> ('g, gear) repo \<Rightarrow> 'k redis \<Rightarrow> nat \<Rightarrow>
    ('u, 'g, 'c, 'k, 'o) gear_system \<Rightarrow> ('u, 'g, 'c, 'k, 'o) gear_system \<Rightarrow> bool" for U G RD k where
  arrives: "\<forall>f. in_flight f (gy_requests y @ [(q, Finding)]) \<le> k \<Longrightarrow>
    gear_system_step U G RD k y (y\<lparr>gy_requests := gy_requests y @ [(q, Finding)]\<rparr>)"
| advances: "j < length (gy_requests y) \<Longrightarrow> gy_requests y ! j = (q, pc) \<Longrightarrow> advance U G RD now q pc (gy_world y) = (pc', w') \<Longrightarrow>
    gear_system_step U G RD k y (y\<lparr>gy_world := w', gy_requests := (gy_requests y)[j := (q, pc')]\<rparr>)"
| elsewhere: "aw_gear w' = aw_gear (gy_world y) \<Longrightarrow> gear_system_step U G RD k y (y\<lparr>gy_world := w'\<rparr>)"

text \<open>What a request has in hand agrees with the checks it has passed.\<close>

fun pc_ok :: "gear_request \<Rightarrow> gear_pc \<Rightarrow> bool" where
  "pc_ok (Loadout f i b) (Counting g) \<longleftrightarrow> g_freelanceId g = f \<and> g_status g = GearStatus.VALIDATED"
| "pc_ok (Loadout f i b) (Saving g) \<longleftrightarrow> g_freelanceId g = f \<and> (g_isInLoadout g \<longrightarrow> g_status g = GearStatus.VALIDATED)"
| "pc_ok (Review i d) (Saving g) \<longleftrightarrow> \<not> g_isInLoadout g"
| "pc_ok q pc \<longleftrightarrow> True"

text \<open>The items a freelance is about to pin.\<close>

fun about_to_pin :: "string \<Rightarrow> gear_request \<times> gear_pc \<Rightarrow> string set" where
  "about_to_pin f (Loadout f' i b, Saving g) = (if f' = f \<and> g_isInLoadout g then {g_id g} else {})"
| "about_to_pin f p = {}"

definition armed :: "string \<Rightarrow> (gear_request \<times> gear_pc) list \<Rightarrow> string set" where
  "armed f ps = (\<Union>p \<in> set ps. about_to_pin f p)"


section \<open>The showcase\<close>

lemma under_way_returned [simp]: "\<not> under_way f (q, Returned r)"
  by (cases q) auto

lemma under_way_continues: "under_way f (q, pc') \<Longrightarrow> \<forall>r. pc \<noteq> Returned r \<Longrightarrow> under_way f (q, pc)"
  by (cases q) auto

lemma in_flight_update:
  assumes "j < length ps" "ps ! j = p" "under_way f p' \<longrightarrow> under_way f p"
  shows "in_flight f (ps[j := p']) \<le> in_flight f ps"
  using assms
proof (induction ps arbitrary: j)
  case (Cons a ps)
  then show ?case by (cases j) (auto simp: in_flight_def)
qed simp

lemma armed_finite [simp]: "finite (armed f ps)"
proof -
  have "finite (about_to_pin f p)" for p by (induction f p rule: about_to_pin.induct) auto
  then show ?thesis by (simp add: armed_def)
qed

lemma card_armed: "card (armed f ps) \<le> in_flight f ps"
proof (induction ps)
  case (Cons p ps)
  have "card (about_to_pin f p) \<le> (if under_way f p then 1 else 0)" by (induction f p rule: about_to_pin.induct) auto
  moreover have "card (armed f (p # ps)) \<le> card (about_to_pin f p) + card (armed f ps)"
    using card_Un_le by (simp add: armed_def)
  ultimately show ?case using Cons.IH by (auto simp: in_flight_def split: if_splits)
qed (simp add: armed_def in_flight_def)

lemma armed_update:
  assumes "j < length ps" "ps ! j = p"
  shows "armed f (ps[j := p']) \<subseteq> armed f ps \<union> about_to_pin f p'" "about_to_pin f p \<subseteq> armed f ps"
  using set_update_subset_insert [of ps j p'] nth_mem [OF assms(1)] assms(2) by (auto simp: armed_def)

text \<open>What a step does to the rows: it leaves them, or writes the row in hand.\<close>

definition showcase :: "(string \<rightharpoonup> gear) \<Rightarrow> bool" where
  "showcase t \<longleftrightarrow> (\<forall>g \<in> ran t. g_isInLoadout g \<longrightarrow> g_status g = GearStatus.VALIDATED)"

lemma showcase_upd: "showcase t \<Longrightarrow> (g_isInLoadout g \<Longrightarrow> g_status g = GearStatus.VALIDATED) \<Longrightarrow> showcase (t(i \<mapsto> g))"
  by (auto simp: showcase_def ran_def)

text \<open>
  A step pins what was about to be pinned, and what is about to be pinned after it is pinned already or was counted.
\<close>

definition effect :: "('g \<Rightarrow> string \<rightharpoonup> gear) \<Rightarrow> string \<Rightarrow> gear_request \<Rightarrow> gear_pc \<Rightarrow> ('u, 'g, 'c, 'k, 'o) app_world \<Rightarrow> gear_pc \<Rightarrow> ('u, 'g, 'c, 'k, 'o) app_world \<Rightarrow> bool" where
  "effect tblg f q pc w pc' w' \<longleftrightarrow> pc_ok q pc' \<and> showcase (tblg (aw_gear w')) \<and> (under_way f (q, pc') \<longrightarrow> under_way f (q, pc)) \<and>
     pinned (tblg (aw_gear w')) f \<subseteq> pinned (tblg (aw_gear w)) f \<union> about_to_pin f (q, pc) \<and>
     (about_to_pin f (q, pc') \<subseteq> pinned (tblg (aw_gear w')) f \<or> card (pinned (tblg (aw_gear w')) f) < LOADOUT_MAX_SLOTS)"

text \<open>The invariant of the system.\<close>

definition system_ok :: "('g \<Rightarrow> string \<rightharpoonup> gear) \<Rightarrow> nat \<Rightarrow> ('u, 'g, 'c, 'k, 'o) gear_system \<Rightarrow> bool" where
  "system_ok tblg k y \<longleftrightarrow> showcase (tblg (aw_gear (gy_world y))) \<and> (\<forall>(q, pc) \<in> set (gy_requests y). pc_ok q pc) \<and>
     (\<forall>f. in_flight f (gy_requests y) \<le> k \<and>
        card (pinned (tblg (aw_gear (gy_world y))) f \<union> armed f (gy_requests y)) \<le> 3 + k)"

context gear_rows
begin

lemma find_effect:
  assumes "atGear (repo_findOne G Q) w = (r, w')"
  shows "tblg (aw_gear w') = tblg (aw_gear w)" "r = Inr (Some g) \<Longrightarrow> tblg (aw_gear w) (g_id g) = Some g \<and> Q g"
  using assms by (auto simp: at_iff dest: G.findOne_frame G.findOne_Some)

lemma save_effect:
  assumes "atGear (repo_save G g) w = (r, w')"
  shows "tblg (aw_gear w') = tblg (aw_gear w) \<or> tblg (aw_gear w') = (tblg (aw_gear w))(g_id g \<mapsto> g)"
  using assms by (cases r) (auto simp: at_iff dest: G.save_frame G.save_row)

lemma save_pins:
  assumes "atGear (repo_save G g) w = (r, w')" "showcase (tblg (aw_gear w))" "g_isInLoadout g \<longrightarrow> g_status g = GearStatus.VALIDATED"
  shows "showcase (tblg (aw_gear w'))"
    "pinned (tblg (aw_gear w')) f \<subseteq> pinned (tblg (aw_gear w)) f \<union> (if g_freelanceId g = f \<and> g_isInLoadout g then {g_id g} else {})"
  using save_effect [OF assms(1)] assms(2,3) by (auto intro!: showcase_upd simp: pinned_def matching_upd split: if_splits)

lemma effect_loadout:
  assumes "advance U G RD now (Loadout f' i b) pc w = (pc', w')" "pc_ok (Loadout f' i b) pc" "showcase (tblg (aw_gear w))"
  shows "effect tblg f (Loadout f' i b) pc w pc' w'"
proof (cases pc)
  case Finding
  note run = assms(1) [unfolded Finding, simplified]
  from run show ?thesis
  proof (rule continueE)
    fix x assume x: "atGear (repo_findOne G (\<lambda>g. g_id g = i \<and> g_freelanceId g = f')) w = (Inr x, w')"
      "pc' = (case x of None \<Rightarrow> Returned (Inl (NotFound GearNotFound))
         | Some g \<Rightarrow> if b \<and> g_status g \<noteq> GearStatus.VALIDATED then Returned (Inl (BadRequest OnlyValidatedGear))
             else if b \<and> \<not> g_isInLoadout g then Counting g else Saving (g\<lparr>g_isInLoadout := b\<rparr>))"
    note found = find_effect [OF x(1)]
    show ?thesis
    proof (cases x)
      case (Some g)
      then have g: "tblg (aw_gear w) i = Some g" "g_id g = i" "g_freelanceId g = f'" using found(2) [of g] by auto
      have "g_isInLoadout g \<Longrightarrow> f' = f \<Longrightarrow> i \<in> pinned (tblg (aw_gear w)) f" using g by (auto simp: pinned_def matching_def)
      with Some g x(2) found(1) assms(3) Finding show ?thesis by (auto simp: effect_def)
    qed (use x found(1) assms(3) Finding in \<open>auto simp: effect_def\<close>)
  qed (use assms(3) Finding in \<open>auto simp: effect_def dest: find_effect(1)\<close>)
next
  case (Counting g)
  from assms(1) [unfolded Counting, simplified] show ?thesis
  proof (rule continueE)
    fix n assume n: "atGear (repo_count G (\<lambda>x. g_freelanceId x = f' \<and> g_isInLoadout x)) w = (Inr n, w')"
      "pc' = (if LOADOUT_MAX_SLOTS \<le> n then Returned (Inl (BadRequest LoadoutFull)) else Saving (g\<lparr>g_isInLoadout := b\<rparr>))"
    have "tblg (aw_gear w') = tblg (aw_gear w)" "n = card (pinned (tblg (aw_gear w)) f')"
      using n(1) by (auto simp: at_iff pinned_def dest: G.count_frame G.count_rows)
    with n(2) assms(2,3) Counting show ?thesis by (auto simp: effect_def)
  qed (use assms(3) Counting in \<open>auto simp: effect_def at_iff dest: G.count_frame\<close>)
next
  case (Saving g)
  from assms(1) [unfolded Saving, simplified] obtain r where r: "atGear (repo_save G g) w = (r, w')" "pc' = Returned r"
    by (cases "atGear (repo_save G g) w") auto
  with save_pins(1) [OF r(1) assms(3)] save_pins(2) [OF r(1) assms(3), of f] assms(2) Saving show ?thesis by (auto simp: effect_def split: if_splits)
qed (use assms in \<open>auto simp: effect_def\<close>)

lemma effect_review:
  assumes "advance U G RD now (Review i d) pc w = (pc', w')" "pc_ok (Review i d) pc" "showcase (tblg (aw_gear w))"
  shows "effect tblg f (Review i d) pc w pc' w'"
proof (cases pc)
  case Finding
  from assms(1) [unfolded Finding, simplified] show ?thesis
  proof (rule continueE)
    fix x assume x: "atGear (repo_findOne G (\<lambda>g. g_id g = i)) w = (Inr x, w')"
      "pc' = (case x of None \<Rightarrow> Returned (Inl (NotFound GearNotFound))
         | Some g \<Rightarrow> if g_status g \<noteq> GearStatus.PENDING then Returned (Inl (Conflict GearAlreadyReviewed))
             else Saving (g\<lparr>g_status := d, g_isInLoadout := (if d = GearStatus.REJECTED then False else g_isInLoadout g)\<rparr>))"
    note found = find_effect [OF x(1)]
    show ?thesis
    proof (cases x)
      case (Some g)
      then have "tblg (aw_gear w) i = Some g" using found(2) [of g] by auto
      then have "g_status g = GearStatus.PENDING \<Longrightarrow> \<not> g_isInLoadout g" using assms(3) by (auto simp: showcase_def ran_def)
      with Some x(2) found(1) assms(3) Finding show ?thesis by (auto simp: effect_def)
    qed (use x found(1) assms(3) Finding in \<open>auto simp: effect_def\<close>)
  qed (use assms(3) Finding in \<open>auto simp: effect_def dest: find_effect(1)\<close>)
next
  case (Saving g)
  then have g: "\<not> g_isInLoadout g" using assms(2) by simp
  from assms(1) [unfolded Saving, simplified] obtain r where "atGear (repo_save G g) w = (r, w')" "(\<exists>r. pc' = Returned r) \<or> (\<exists>h. pc' = Publishing h)"
    by (rule continueE) blast+
  with save_pins(1) [OF this(1) assms(3)] save_pins(2) [OF this(1) assms(3), of f] g Saving show ?thesis by (auto simp: effect_def)
next
  case (Publishing g)
  from assms(1) [unfolded Publishing, simplified] have "aw_gear w' = aw_gear w" "\<exists>r. pc' = Returned r"
    by (rule continueE; auto simp: at_iff)+
  then show ?thesis using assms(3) Publishing by (auto simp: effect_def)
qed (use assms in \<open>auto simp: effect_def\<close>)

lemma effect_add:
  assumes "advance U G RD now (Add f' dto) pc w = (pc', w')" "showcase (tblg (aw_gear w))"
  shows "effect tblg f (Add f' dto) pc w pc' w'"
proof (cases pc)
  case Finding
  from assms(1) [unfolded Finding, simplified] have "aw_gear w' = aw_gear w"
    by (rule continueE) (auto simp: at_iff)
  then show ?thesis using assms(2) by (simp add: effect_def)
next
  case (Inserting u)
  from assms(1) [unfolded Inserting, simplified] obtain r where r: "atGear (repo_insert G (new_gear (u_id u) dto)) w = (r, w')"
    by (cases "atGear (repo_insert G (new_gear (u_id u) dto)) w") auto
  then have "tblg (aw_gear w') = tblg (aw_gear w) \<or> (\<exists>g. \<not> g_isInLoadout g \<and> tblg (aw_gear w') = (tblg (aw_gear w))(g_id g \<mapsto> g))"
  proof (cases r)
    case (Inr h)
    then obtain i t where "h = new_gear (u_id u) dto i t" "tblg (aw_gear w') = (tblg (aw_gear w))(g_id h \<mapsto> h)"
      using r by (auto simp: at_iff dest: G.insert_row)
    then show ?thesis by (intro disjI2 exI [of _ h]) (simp add: new_gear_def)
  qed (use r in \<open>auto simp: at_iff dest: G.insert_frame\<close>)
  then show ?thesis using assms(2) pinned_upd_unpinned by (fastforce simp: effect_def intro: showcase_upd)
qed (use assms in \<open>auto simp: effect_def\<close>)

lemma advance_effect:
  "advance U G RD now q pc w = (pc', w') \<Longrightarrow> pc_ok q pc \<Longrightarrow> showcase (tblg (aw_gear w)) \<Longrightarrow> effect tblg f q pc w pc' w'"
  by (cases q) (simp_all add: effect_loadout effect_review effect_add)

lemma pinned_finite: "finite (pinned (tblg s) f)"
  using G.tbl_finite by (simp add: pinned_def)

lemma system_ok_step:
  assumes "gear_system_step U G RD k y y'" "system_ok tblg k y"
  shows "system_ok tblg k y'"
  using assms(1)
proof (cases rule: gear_system_step.cases)
  case (arrives q)
  have "armed f (gy_requests y @ [(q, Finding)]) = armed f (gy_requests y)" for f by (cases q) (auto simp: armed_def)
  with arrives assms(2) show ?thesis by (cases q) (auto simp: system_ok_def)
next
  case (advances j q pc now pc' w')
  let ?t = "tblg (aw_gear (gy_world y))" and ?t' = "tblg (aw_gear w')" and ?ps = "gy_requests y"
  let ?ps' = "?ps[j := (q, pc')]"
  have "(q, pc) \<in> set ?ps" using nth_mem [OF advances(2)] advances(3) by simp
  then have "pc_ok q pc" using assms(2) by (auto simp: system_ok_def)
  then have eff: "effect tblg f q pc (gy_world y) pc' w'" for f
    using advance_effect [OF advances(4)] assms(2) by (simp add: system_ok_def)
  have fl: "in_flight f ?ps' \<le> k" for f
    using in_flight_update [OF advances(2,3), of f "(q, pc')"] eff [of f] assms(2) unfolding effect_def system_ok_def
    by (meson order_trans)
  have "card (pinned ?t' f \<union> armed f ?ps') \<le> 3 + k" for f
  proof (cases "card (pinned ?t' f) < LOADOUT_MAX_SLOTS")
    case True
    then show ?thesis
      using card_Un_le [of "pinned ?t' f" "armed f ?ps'"] card_armed [of f ?ps'] fl [of f] by (simp add: LOADOUT_MAX_SLOTS_def)
  next
    case False
    then have "pinned ?t' f \<union> armed f ?ps' \<subseteq> pinned ?t f \<union> armed f ?ps"
      using eff [of f] armed_update [OF advances(2,3), of f] unfolding effect_def by blast
    then have "card (pinned ?t' f \<union> armed f ?ps') \<le> card (pinned ?t f \<union> armed f ?ps)"
      by (rule card_mono [rotated]) (simp add: pinned_finite)
    then show ?thesis using assms(2) unfolding system_ok_def by (meson order_trans)
  qed
  moreover have "\<forall>(q, pc) \<in> set ?ps'. pc_ok q pc"
    using set_update_subset_insert [of ?ps j "(q, pc')"] eff assms(2) by (auto simp: system_ok_def effect_def)
  ultimately show ?thesis using fl eff advances(1) by (simp add: system_ok_def effect_def)
qed (use assms(2) in \<open>simp add: system_ok_def\<close>)

end

section \<open>Schedules\<close>

definition turn :: "('u, user) repo \<Rightarrow> ('g, gear) repo \<Rightarrow> 'k redis \<Rightarrow> nat \<Rightarrow> nat \<Rightarrow>
    ('u, 'g, 'c, 'k, 'o) gear_system \<Rightarrow> ('u, 'g, 'c, 'k, 'o) gear_system" where
  "turn U G RD now j y = (case gy_requests y ! j of (q, pc) \<Rightarrow>
     case advance U G RD now q pc (gy_world y) of (pc', w') \<Rightarrow> y\<lparr>gy_world := w', gy_requests := (gy_requests y)[j := (q, pc')]\<rparr>)"

lemma turn_step: "j < length (gy_requests y) \<Longrightarrow> gear_system_step U G RD k y (turn U G RD now j y)"
  by (auto simp: turn_def intro: gear_system_step.advances split: prod.split)

lemma turns_steps:
  "\<forall>j \<in> set js. j < length (gy_requests y) \<Longrightarrow> (gear_system_step U G RD k)\<^sup>*\<^sup>* y (fold (turn U G RD now) js y)"
proof (induction js arbitrary: y)
  case (Cons j js)
  have "length (gy_requests (turn U G RD now j y)) = length (gy_requests y)" by (simp add: turn_def split: prod.split)
  with Cons have "(gear_system_step U G RD k)\<^sup>*\<^sup>* (turn U G RD now j y) (fold (turn U G RD now) js (turn U G RD now j y))" by simp
  moreover have "gear_system_step U G RD k y (turn U G RD now j y)" using Cons.prems by (intro turn_step) simp
  ultimately show ?case by (simp add: converse_rtranclp_into_rtranclp)
qed simp

text \<open>Three items pinned, and two requests that each pin another one: both count three before either has saved.\<close>

definition shelf :: "bool \<Rightarrow> gear list" where
  "shelf pin = [mk_gear ''g1'' GearStatus.VALIDATED True, mk_gear ''g2'' GearStatus.VALIDATED True, mk_gear ''g3'' GearStatus.VALIDATED True,
     mk_gear ''g4'' GearStatus.VALIDATED pin, mk_gear ''g5'' GearStatus.VALIDATED pin]"

definition two_pins :: "(user list, gear list, unit, redis_view, unit) gear_system" where
  "two_pins = \<lparr>gy_world = gear_world (shelf False), gy_requests = [(Loadout ''f1'' ''g4'' True, Finding), (Loadout ''f1'' ''g5'' True, Finding)]\<rparr>"

lemma two_pins_run:
  "aw_gear (gy_world (fold (turn users_table (gear_table {''f1''}) mem_redis 10) [0, 1, 0, 1, 0, 1] two_pins)) = shelf True"
  by code_simp

text \<open>Two admins review the same item, one each way: both are answered and both publish, and the last one to save decides.\<close>

definition two_reviews :: "(user list, gear list, unit, redis_view, unit) gear_system" where
  "two_reviews = \<lparr>gy_world = gear_world [mk_gear ''g1'' GearStatus.PENDING False],
     gy_requests = [(Review ''g1'' GearStatus.VALIDATED, Finding), (Review ''g1'' GearStatus.REJECTED, Finding)]\<rparr>"

lemma both_reviews_answered:
  "let y = fold (turn users_table (gear_table {''f1''}) mem_redis 10) [0, 1, 0, 1, 0, 1] two_reviews
   in map (\<lambda>(q, pc). case pc of Returned (Inr g) \<Rightarrow> Some (g_status g) | _ \<Rightarrow> None) (gy_requests y) =
        [Some GearStatus.VALIDATED, Some GearStatus.REJECTED] \<and>
      map g_status (aw_gear (gy_world y)) = [GearStatus.REJECTED]"
  by code_simp

section \<open>Property\<close>

text \<open>
  C15. The showcase when requests overlap. Any number of requests that declare, review and pin gear interleave at their awaits, at most
  \<open>k\<close> of them pinning or unpinning for one freelance. Starting from a table with at most four pinned items per freelance, all of them
  validated, there are never more than \<open>3 + k\<close> pinned items of one freelance, and every pinned item is validated.
\<close>

theorem showcase_interleaved:
  assumes "repository G tblg g_id" "1 \<le> k" "loadout_ok (tblg (aw_gear (gy_world y0)))" "gy_requests y0 = []"
    and "(gear_system_step U G RD k)\<^sup>*\<^sup>* y0 y"
  shows "card (pinned (tblg (aw_gear (gy_world y))) f) \<le> 3 + k \<and>
    (\<forall>g \<in> ran (tblg (aw_gear (gy_world y))). g_isInLoadout g \<longrightarrow> g_status g = GearStatus.VALIDATED)"
proof -
  have rows: "gear_rows G tblg" using assms(1) by (rule gear_rows.intro)
  have "system_ok tblg k y0"
    using assms(2-4) by (auto simp: system_ok_def loadout_ok_def showcase_def armed_def in_flight_def LOADOUT_MAX_SLOTS_def intro: order_trans)
  from assms(5) this have "system_ok tblg k y" by (induction rule: rtranclp_induct) (auto intro: gear_rows.system_ok_step [OF rows])
  moreover have "card (pinned (tblg (aw_gear (gy_world y))) f) \<le>
      card (pinned (tblg (aw_gear (gy_world y))) f \<union> armed f (gy_requests y))"
    by (rule card_mono) (simp_all add: gear_rows.pinned_finite [OF rows])
  ultimately show ?thesis by (auto simp: system_ok_def showcase_def intro: order_trans)
qed

text \<open>Five pinned items with two requests: the bound is reached, and the four places are not kept.\<close>

theorem showcase_interleaved_witness:
  "\<exists>y. (gear_system_step users_table (gear_table {''f1''}) mem_redis 2)\<^sup>*\<^sup>*
      \<lparr>gy_world = gear_world (shelf False), gy_requests = []\<rparr> y \<and>
     card (pinned (mem_tbl g_id (aw_gear (gy_world y))) ''f1'') = 5"
proof -
  let ?S = "gear_system_step users_table (gear_table {''f1''}) mem_redis 2"
  let ?start = "\<lparr>gy_world = gear_world (shelf False), gy_requests = []\<rparr>"
  let ?y = "fold (turn users_table (gear_table {''f1''}) mem_redis 10) [0, 1, 0, 1, 0, 1] two_pins"
  let ?one = "?start\<lparr>gy_requests := gy_requests ?start @ [(Loadout ''f1'' ''g4'' True, Finding)]\<rparr>"
  have "?S ?start ?one" by (rule gear_system_step.arrives) (simp add: in_flight_def)
  moreover have "?S ?one (?one\<lparr>gy_requests := gy_requests ?one @ [(Loadout ''f1'' ''g5'' True, Finding)]\<rparr>)"
    by (rule gear_system_step.arrives) (simp add: in_flight_def)
  ultimately have "?S\<^sup>*\<^sup>* ?start two_pins" by (simp add: two_pins_def)
  moreover have "?S\<^sup>*\<^sup>* two_pins ?y" by (rule turns_steps) (simp add: two_pins_def)
  ultimately have run: "?S\<^sup>*\<^sup>* ?start ?y" by (rule rtranclp_trans)
  have tbl: "mem_tbl g_id (shelf pin) = [''g1'' \<mapsto> mk_gear ''g1'' GearStatus.VALIDATED True, ''g2'' \<mapsto> mk_gear ''g2'' GearStatus.VALIDATED True,
      ''g3'' \<mapsto> mk_gear ''g3'' GearStatus.VALIDATED True, ''g4'' \<mapsto> mk_gear ''g4'' GearStatus.VALIDATED pin,
      ''g5'' \<mapsto> mk_gear ''g5'' GearStatus.VALIDATED pin]" for pin
    by (auto simp: mem_tbl_def shelf_def fun_eq_iff)
  have three: "pinned (mem_tbl g_id (shelf False)) f = (if f = ''f1'' then {''g1'', ''g2'', ''g3''} else {})" for f
    unfolding tbl by (auto simp: pinned_def matching_def split: if_splits)
  then have ok: "loadout_ok (mem_tbl g_id (aw_gear (gy_world ?start)))"
    unfolding loadout_ok_def by (auto simp: gear_world_def LOADOUT_MAX_SLOTS_def tbl ran_def split: if_splits)
  have five: "{''g1'', ''g2'', ''g3'', ''g4'', ''g5''} \<subseteq> pinned (mem_tbl g_id (aw_gear (gy_world ?y))) ''f1''"
    unfolding two_pins_run tbl by (auto simp: pinned_def matching_def)
  have "card (pinned (mem_tbl g_id (aw_gear (gy_world ?y))) ''f1'') \<le> 3 + 2"
    using showcase_interleaved [OF gear_tbl.repository_axioms _ ok _ run] by simp
  moreover have "5 \<le> card (pinned (mem_tbl g_id (aw_gear (gy_world ?y))) ''f1'')"
    using card_mono [OF gear_rows.pinned_finite [OF gear_rows.intro [OF gear_tbl.repository_axioms]] five] by simp
  ultimately have "card (pinned (mem_tbl g_id (aw_gear (gy_world ?y))) ''f1'') = 5" by linarith
  with run show ?thesis by blast
qed

end
