(* ===== verification/CertInterleaving.thy ===== *)
theory CertInterleaving
  imports Certifications
begin

text \<open>
  The handlers of \<open>certifications/certification.service.ts\<close> that write, cut at their \<open>await\<close>s, and the steps of several requests
  interleaved. Run alone a request is the procedure of Certifications (\<open>cert_request_alone\<close>). \<open>certificates_interleaved\<close> is what holds
  however they overlap: what was reviewed is purged, what is stored is clean, and with at most \<open>k\<close> requests under way that concern one
  brevet it is declared on at most \<open>k\<close> accounts. For \<open>k = 1\<close> this is the promise of the duplicate check;
  \<open>same_brevet_twice\<close> and \<open>both_decisions_answered\<close> are what two requests can do.
\<close>

section \<open>Requests and their program counters\<close>

text \<open>An upload, with the UUID it draws, and a decision.\<close>

datatype cert_request = Upload string string UploadCertificationDto "upload_file option" | Decide string ReviewCertificationDto

text \<open>What a request waits for next, with what it has in hand.\<close>

datatype cert_pc = Checking | Stripping bytes | Putting bytes | Recording | Purging certification | Deciding certification
  | Answered "exn + PublicCertification"

fun proceed :: "(exn + 'a) \<times> 'w \<Rightarrow> ('a \<Rightarrow> cert_pc) \<Rightarrow> cert_pc \<times> 'w" where
  "proceed (r, w) f = (case r of Inl e \<Rightarrow> Answered (Inl e) | Inr x \<Rightarrow> f x, w)"

text \<open>The steps of the two handlers, an await each.\<close>

fun advance_upload :: "('c, certification) repo \<Rightarrow> 'o storage_service \<Rightarrow> 'd pdf_lib \<Rightarrow> string option \<Rightarrow> string \<Rightarrow> string \<Rightarrow>
    UploadCertificationDto \<Rightarrow> upload_file option \<Rightarrow> cert_pc \<Rightarrow>
    ('u, 'g, 'c, 'k, 'o) app_world \<Rightarrow> cert_pc \<times> ('u, 'g, 'c, 'k, 'o) app_world" where
  "advance_upload C S P env f i dto file Checking w = (case check_file env file of
     Inl e \<Rightarrow> (Answered (Inl e), w)
   | Inr buffer \<Rightarrow> proceed (atCerts (repo_findOne C (\<lambda>c. c_type c = uc_type dto \<and> c_number c = uc_number dto \<and>
        active_status (c_status c) \<and> c_freelanceId c \<noteq> f)) w) (\<lambda>duplicate.
        if duplicate \<noteq> None then Answered (Inl (Conflict DuplicateCertification)) else Stripping buffer))"
| "advance_upload C S P env f i dto file (Stripping buffer) w = (case stripPdfMetadata P buffer of
     Inl e \<Rightarrow> (Answered (Inl e), w) | Inr cleaned \<Rightarrow> (Putting cleaned, w))"
| "advance_upload C S P env f i dto file (Putting cleaned) w =
     proceed (atObjects (st_put S (s3Key_of f i) cleaned ''application/pdf'') w) (\<lambda>_. Recording)"
| "advance_upload C S P env f i dto file Recording w =
     proceed (atCerts (repo_insert C (\<lambda>_ uploadedAt. new_certification f i dto uploadedAt)) w) (\<lambda>saved. Answered (Inr (toPublic saved)))"
| "advance_upload C S P env f i dto file pc w = (pc, w)"

fun advance_review :: "('c, certification) repo \<Rightarrow> 'o storage_service \<Rightarrow> nat \<Rightarrow> string \<Rightarrow> ReviewCertificationDto \<Rightarrow> cert_pc \<Rightarrow>
    ('u, 'g, 'c, 'k, 'o) app_world \<Rightarrow> cert_pc \<times> ('u, 'g, 'c, 'k, 'o) app_world" where
  "advance_review C S now i dto Checking w =
     proceed (atCerts (repo_findOne C (\<lambda>c. c_id c = i)) w) (\<lambda>found. case found of
       None \<Rightarrow> Answered (Inl (NotFound CertificationNotFound))
     | Some c \<Rightarrow>
         if c_status c \<noteq> CertificationStatus.PENDING then Answered (Inl (Conflict CertificationAlreadyReviewed))
         else if truthy_str (c_s3Key c) then Purging (decide now dto c) else Deciding (decide now dto c))"
| "advance_review C S now i dto (Purging c) w =
     proceed (atObjects (st_delete S (the (c_s3Key c))) w) (\<lambda>_. Deciding (c\<lparr>c_s3Key := None, c_purgedAt := Some now\<rparr>))"
| "advance_review C S now i dto (Deciding c) w =
     proceed (atCerts (repo_save C c) w) (\<lambda>saved. Answered (Inr (toPublic saved)))"
| "advance_review C S now i dto pc w = (pc, w)"

fun advance_cert :: "('c, certification) repo \<Rightarrow> 'o storage_service \<Rightarrow> 'd pdf_lib \<Rightarrow> string option \<Rightarrow> nat \<Rightarrow> cert_request \<Rightarrow> cert_pc \<Rightarrow>
    ('u, 'g, 'c, 'k, 'o) app_world \<Rightarrow> cert_pc \<times> ('u, 'g, 'c, 'k, 'o) app_world" where
  "advance_cert C S P env now (Upload f i dto file) pc w = advance_upload C S P env f i dto file pc w"
| "advance_cert C S P env now (Decide i dto) pc w = advance_review C S now i dto pc w"

text \<open>A request alone: four steps are enough, since no handler awaits more often.\<close>

definition run_cert :: "('c, certification) repo \<Rightarrow> 'o storage_service \<Rightarrow> 'd pdf_lib \<Rightarrow> string option \<Rightarrow> nat \<Rightarrow> cert_request \<Rightarrow>
    ('u, 'g, 'c, 'k, 'o) app_world \<Rightarrow> cert_pc \<times> ('u, 'g, 'c, 'k, 'o) app_world" where
  "run_cert C S P env now q w = ((\<lambda>(pc, w). advance_cert C S P env now q pc w) ^^ 4) (Checking, w)"

fun cert_handler :: "('c, certification) repo \<Rightarrow> 'o storage_service \<Rightarrow> 'd pdf_lib \<Rightarrow> string option \<Rightarrow> nat \<Rightarrow> cert_request \<Rightarrow>
    ('u, 'g, 'c, 'k, 'o, PublicCertification) app" where
  "cert_handler C S P env now (Upload f i dto file) = uploadCertification C S P env i f dto file"
| "cert_handler C S P env now (Decide i dto) = reviewCertification C S now i dto"

lemma advance_cert_Answered [simp]: "advance_cert C S P env now q (Answered r) w = (Answered r, w)"
  by (cases q) simp_all

lemma proceedE:
  assumes "proceed p f = (pc', w')"
  obtains e where "p = (Inl e, w')" "pc' = Answered (Inl e)" | x where "p = (Inr x, w')" "pc' = f x"
  using assms by (cases p) (auto split: sum.splits)

lemma proceed_case: "proceed p f = (case fst p of Inl e \<Rightarrow> Answered (Inl e) | Inr x \<Rightarrow> f x, snd p)"
  by (cases p) simp

lemma decide_fields [simp]:
  "c_id (decide now dto c) = c_id c" "c_freelanceId (decide now dto c) = c_freelanceId c" "c_type (decide now dto c) = c_type c"
  "c_number (decide now dto c) = c_number c" "c_status (decide now dto c) = rc_decision dto" "c_s3Key (decide now dto c) = c_s3Key c"
  by (simp_all add: decide_def)

lemma cert_request_alone: "run_cert C S P env now q w = map_prod Answered id (cert_handler C S P env now q w)"
  by (cases q) (auto simp: run_cert_def eval_nat_numeral uploadCertification_def reviewCertification_def purge_def proceed_case
      bindP_def liftE_def throwP_def returnP_def split: sum.splits prod.splits option.splits if_splits)

section \<open>Overlapping requests\<close>

type_synonym brevet = "CertificationType \<times> string"

definition brevet_of :: "certification \<Rightarrow> brevet" where
  "brevet_of c = (c_type c, c_number c)"

record ('u, 'g, 'c, 'k, 'o) cert_system =
  cy_world :: "('u, 'g, 'c, 'k, 'o) app_world"
  cy_requests :: "(cert_request \<times> cert_pc) list"

text \<open>The requests under way that concern a brevet: uploads of it, and decisions that have a certificate of it in hand.\<close>

fun engaged :: "brevet \<Rightarrow> cert_request \<times> cert_pc \<Rightarrow> bool" where
  "engaged b (Upload f i dto file, Answered r) \<longleftrightarrow> False"
| "engaged b (Upload f i dto file, pc) \<longleftrightarrow> (uc_type dto, uc_number dto) = b"
| "engaged b (Decide i dto, Purging c) \<longleftrightarrow> brevet_of c = b"
| "engaged b (Decide i dto, Deciding c) \<longleftrightarrow> brevet_of c = b"
| "engaged b (Decide i dto, pc) \<longleftrightarrow> False"

definition cert_load :: "brevet \<Rightarrow> (cert_request \<times> cert_pc) list \<Rightarrow> nat" where
  "cert_load b ps = length (filter (engaged b) ps)"

fun upload_id :: "cert_request \<Rightarrow> string option" where
  "upload_id (Upload f i dto file) = Some i"
| "upload_id (Decide i dto) = None"

text \<open>
  A UUID that an upload draws is not used yet and has no slash; a decision has passed the validation of its DTO. At most \<open>k\<close> requests
  under way concern one brevet.
\<close>

fun admissible :: "(string \<rightharpoonup> certification) \<Rightarrow> cert_request list \<Rightarrow> cert_request \<Rightarrow> bool" where
  "admissible t qs (Upload f i dto file) \<longleftrightarrow> t i = None \<and> CHR 0x2F \<notin> set i \<and> (\<forall>q \<in> set qs. upload_id q \<noteq> Some i)"
| "admissible t qs (Decide i dto) \<longleftrightarrow> rc_decision dto \<in> set CERT_REVIEW_DECISIONS"

inductive cert_system_step :: "('c, certification) repo \<Rightarrow> ('c \<Rightarrow> string \<rightharpoonup> certification) \<Rightarrow> 'o storage_service \<Rightarrow> 'd pdf_lib \<Rightarrow>
    string option \<Rightarrow> nat \<Rightarrow> ('u, 'g, 'c, 'k, 'o) cert_system \<Rightarrow> ('u, 'g, 'c, 'k, 'o) cert_system \<Rightarrow> bool" for C tblc S P env k where
  arrives: "admissible (tblc (aw_certs (cy_world y))) (map fst (cy_requests y)) q \<Longrightarrow>
    \<forall>b. cert_load b (cy_requests y @ [(q, Checking)]) \<le> k \<Longrightarrow>
    cert_system_step C tblc S P env k y (y\<lparr>cy_requests := cy_requests y @ [(q, Checking)]\<rparr>)"
| advances: "j < length (cy_requests y) \<Longrightarrow> cy_requests y ! j = (q, pc) \<Longrightarrow>
    advance_cert C S P env now q pc (cy_world y) = (pc', w') \<Longrightarrow> \<forall>b. cert_load b ((cy_requests y)[j := (q, pc')]) \<le> k \<Longrightarrow>
    cert_system_step C tblc S P env k y (y\<lparr>cy_world := w', cy_requests := (cy_requests y)[j := (q, pc')]\<rparr>)"
| elsewhere: "aw_certs w' = aw_certs (cy_world y) \<Longrightarrow> aw_objects w' = aw_objects (cy_world y) \<Longrightarrow>
    cert_system_step C tblc S P env k y (y\<lparr>cy_world := w'\<rparr>)"

section \<open>What a step changes\<close>

definition document_of :: "certification \<Rightarrow> string" where
  "document_of c = s3Key_of (c_freelanceId c) (c_id c)"

text \<open>A certificate in hand: decided, and of the identity of its row.\<close>

definition held :: "(string \<rightharpoonup> certification) \<Rightarrow> certification \<Rightarrow> bool" where
  "held t c \<longleftrightarrow> c_status c \<noteq> CertificationStatus.PENDING \<and>
     (\<exists>d. t (c_id c) = Some d \<and> c_freelanceId d = c_freelanceId c \<and> brevet_of d = brevet_of c)"

fun cert_pc_ok :: "'d pdf_lib \<Rightarrow> (string \<rightharpoonup> certification) \<Rightarrow> (string \<rightharpoonup> bytes \<times> string) \<Rightarrow> cert_request \<times> cert_pc \<Rightarrow> bool" where
  "cert_pc_ok P t objs (Upload f i dto file, pc) \<longleftrightarrow> CHR 0x2F \<notin> set i \<and> (case pc of
     Answered r \<Rightarrow> True
   | Stripping buffer \<Rightarrow> t i = None \<and> isPdf buffer
   | Putting body \<Rightarrow> t i = None \<and> (\<exists>raw. isPdf raw \<and> stripPdfMetadata P raw = Inr body)
   | _ \<Rightarrow> t i = None)"
| "cert_pc_ok P t objs (Decide i dto, pc) \<longleftrightarrow> rc_decision dto \<noteq> CertificationStatus.PENDING \<and> (case pc of
     Purging c \<Rightarrow> held t c \<and> c_s3Key c = Some (document_of c)
   | Deciding c \<Rightarrow> held t c \<and> c_s3Key c = None \<and> objs (document_of c) = None
   | _ \<Rightarrow> True)"

text \<open>The accounts that a brevet is declared on, and those that it is about to be declared on (again).\<close>

definition holders :: "brevet \<Rightarrow> (string \<rightharpoonup> certification) \<Rightarrow> string set" where
  "holders b t = c_freelanceId ` {c \<in> ran t. brevet_of c = b \<and> active_status (c_status c)}"

fun pending_holder :: "brevet \<Rightarrow> cert_request \<times> cert_pc \<Rightarrow> string set" where
  "pending_holder b (Upload f i dto file, Checking) = {}"
| "pending_holder b (Upload f i dto file, Answered r) = {}"
| "pending_holder b (Upload f i dto file, pc) = (if (uc_type dto, uc_number dto) = b then {f} else {})"
| "pending_holder b (Decide i dto, Purging c) = (if brevet_of c = b then {c_freelanceId c} else {})"
| "pending_holder b (Decide i dto, Deciding c) = (if brevet_of c = b then {c_freelanceId c} else {})"
| "pending_holder b (Decide i dto, pc) = {}"

definition pending_holders :: "brevet \<Rightarrow> (cert_request \<times> cert_pc) list \<Rightarrow> string set" where
  "pending_holders b ps = (\<Union>p \<in> set ps. pending_holder b p)"

text \<open>The rows and the documents after a step of \<open>q\<close>.\<close>

definition rows_after :: "cert_request \<Rightarrow> (string \<rightharpoonup> certification) \<Rightarrow> (string \<rightharpoonup> certification) \<Rightarrow> bool" where
  "rows_after q t t' \<longleftrightarrow> t' = t \<or> (\<exists>i c. upload_id q = Some i \<and> t i = None \<and> t' = t(i \<mapsto> c)) \<or> (\<exists>c. held t c \<and> t' = t(c_id c \<mapsto> c))"

definition objects_after :: "cert_request \<Rightarrow> (string \<rightharpoonup> certification) \<Rightarrow> (string \<rightharpoonup> bytes \<times> string) \<Rightarrow> (string \<rightharpoonup> bytes \<times> string) \<Rightarrow> bool" where
  "objects_after q t objs objs' \<longleftrightarrow> objs' = objs \<or> (\<exists>k. objs' = objs(k := None)) \<or>
     (\<exists>f i v. upload_id q = Some i \<and> CHR 0x2F \<notin> set i \<and> t i = None \<and> objs' = objs(s3Key_of f i \<mapsto> v))"

definition cert_effect :: "'d pdf_lib \<Rightarrow> brevet \<Rightarrow> cert_request \<Rightarrow> cert_pc \<Rightarrow> (string \<rightharpoonup> certification) \<Rightarrow> (string \<rightharpoonup> bytes \<times> string) \<Rightarrow>
    cert_pc \<Rightarrow> (string \<rightharpoonup> certification) \<Rightarrow> (string \<rightharpoonup> bytes \<times> string) \<Rightarrow> bool" where
  "cert_effect P b q pc t objs pc' t' objs' \<longleftrightarrow> rows_ok t' objs' \<and> stored_clean P objs' \<and> cert_pc_ok P t' objs' (q, pc') \<and>
     rows_after q t t' \<and> objects_after q t objs objs' \<and>
     (holders b t' \<union> pending_holder b (q, pc') \<subseteq> holders b t \<union> pending_holder b (q, pc) \<or> holders b t' \<subseteq> pending_holder b (q, pc'))"

lemma rows_okD:
  assumes "rows_ok t objs" "t i = Some c"
  shows "CHR 0x2F \<notin> set i" "c_status c = CertificationStatus.PENDING \<Longrightarrow> c_s3Key c = Some (s3Key_of (c_freelanceId c) i)"
    "c_status c \<noteq> CertificationStatus.PENDING \<Longrightarrow> c_s3Key c = None \<and> objs (s3Key_of (c_freelanceId c) i) = None"
  using assms by (auto simp: rows_ok_def)

lemma rows_ok_put: "rows_ok t objs \<Longrightarrow> t i = None \<Longrightarrow> CHR 0x2F \<notin> set i \<Longrightarrow> rows_ok t (objs(s3Key_of f i \<mapsto> v))"
  unfolding rows_ok_def using s3Key_of_inject [of _ i _ f] by fastforce

lemma rows_ok_delete: "rows_ok t objs \<Longrightarrow> rows_ok t (objs(k := None))"
  by (auto simp: rows_ok_def)

lemma rows_ok_new: "rows_ok t objs \<Longrightarrow> CHR 0x2F \<notin> set i \<Longrightarrow> rows_ok (t(i \<mapsto> new_certification f i dto up)) objs"
  by (auto simp: rows_ok_def)

lemma rows_ok_decided:
  "rows_ok t objs \<Longrightarrow> held t c \<Longrightarrow> c_s3Key c = None \<Longrightarrow> objs (document_of c) = None \<Longrightarrow> rows_ok (t(c_id c \<mapsto> c)) objs"
  by (auto simp: rows_ok_def held_def document_of_def)

lemma stored_clean_put: "stored_clean P objs \<Longrightarrow> isPdf raw \<Longrightarrow> stripPdfMetadata P raw = Inr body \<Longrightarrow> stored_clean P (objs(k \<mapsto> (body, ct)))"
  by (auto simp: stored_clean_def)

lemma stored_clean_delete: "stored_clean P objs \<Longrightarrow> stored_clean P (objs(k := None))"
  by (auto simp: stored_clean_def)

text \<open>What others have in hand is not touched.\<close>

lemma cert_pc_ok_others:
  assumes "rows_ok t objs" "rows_after q t t'" "objects_after q t objs objs'" "cert_pc_ok P t objs p"
    and "upload_id (fst p) = None \<or> upload_id (fst p) \<noteq> upload_id q"
  shows "cert_pc_ok P t' objs' p"
proof -
  have held: "held t' c" if "held t c" for c
    using that assms(2) by (auto simp: rows_after_def held_def split: if_splits)
  have gone: "objs' (document_of c) = None" if c: "held t c" "objs (document_of c) = None" for c
  proof (cases "\<exists>f i v. upload_id q = Some i \<and> CHR 0x2F \<notin> set i \<and> t i = None \<and> objs' = objs(s3Key_of f i \<mapsto> v)")
    case True
    then obtain f i v where i: "CHR 0x2F \<notin> set i" "t i = None" "objs' = objs(s3Key_of f i \<mapsto> v)" by blast
    obtain d where d: "t (c_id c) = Some d" using c(1) by (auto simp: held_def)
    with i(2) have "c_id c \<noteq> i" by auto
    then have "document_of c \<noteq> s3Key_of f i"
      unfolding document_of_def using s3Key_of_inject [OF rows_okD(1) [OF assms(1) d] i(1)] by blast
    with i(3) c(2) show ?thesis by simp
  next
    case False
    then have "objs' = objs \<or> (\<exists>k. objs' = objs(k := None))" using assms(3) unfolding objects_after_def by blast
    with c(2) show ?thesis by auto
  qed
  have free: "t' i = None" if "t i = None" "upload_id q \<noteq> Some i" for i
    using that assms(2) by (auto simp: rows_after_def held_def)
  show ?thesis
  proof (cases p)
    case (Pair q' pc)
    show ?thesis
    proof (cases q')
      case (Upload f i dto x)
      with assms(5) Pair have "upload_id q \<noteq> Some i" by auto
      with assms(4) Upload Pair free show ?thesis by (auto split: cert_pc.splits)
    next
      case (Decide i dto)
      with assms(4) Pair held gone show ?thesis by (auto split: cert_pc.splits)
    qed
  qed
qed

context cert_store
begin

text \<open>The accesses of a step.\<close>

lemma put_effect: "st_put S k body ct s = (r, s') \<Longrightarrow> objects s' = objects s \<or> objects s' = (objects s)(k \<mapsto> (body, ct))"
  by (cases r) (auto dest: S.put_ok S.put_fail)

lemma delete_effect: "st_delete S k s = (r, s') \<Longrightarrow> objects s' = objects s \<or> objects s' = (objects s)(k := None)"
  by (cases r) (auto dest: S.delete_ok S.delete_fail)

lemma save_cert_effect: "repo_save C c s = (r, s') \<Longrightarrow> tblc s' = tblc s \<or> tblc s' = (tblc s)(c_id c \<mapsto> c)"
  by (cases r) (auto dest: C.save_row C.save_frame)

lemma access_effect:
  "atCerts (repo_findOne C Q) w = (rf, w') \<Longrightarrow> tblc (aw_certs w') = tblc (aw_certs w) \<and> aw_objects w' = aw_objects w"
  "atObjects (st_put S k body ct) w = (rp, w') \<Longrightarrow> aw_certs w' = aw_certs w \<and>
     (objects (aw_objects w') = objects (aw_objects w) \<or> objects (aw_objects w') = (objects (aw_objects w))(k \<mapsto> (body, ct)))"
  "atObjects (st_delete S k) w = (rd, w') \<Longrightarrow> aw_certs w' = aw_certs w \<and>
     (objects (aw_objects w') = objects (aw_objects w) \<or> objects (aw_objects w') = (objects (aw_objects w))(k := None))"
  "atObjects (st_delete S k) w = (Inr u, w') \<Longrightarrow> objects (aw_objects w') = (objects (aw_objects w))(k := None)"
  "atCerts (repo_save C c) w = (rs, w') \<Longrightarrow> aw_objects w' = aw_objects w \<and>
     (tblc (aw_certs w') = tblc (aw_certs w) \<or> tblc (aw_certs w') = (tblc (aw_certs w))(c_id c \<mapsto> c))"
  by (auto simp: at_iff dest: C.findOne_frame put_effect delete_effect save_cert_effect S.delete_ok)

lemma record_effect:
  assumes "atCerts (repo_insert C (\<lambda>_ up. new_certification f i dto up)) w = (r, w')"
  shows "aw_objects w' = aw_objects w \<and> (tblc (aw_certs w') = tblc (aw_certs w) \<or>
     (\<exists>up. tblc (aw_certs w') = (tblc (aw_certs w))(i \<mapsto> new_certification f i dto up)))"
proof (cases r)
  case (Inl e)
  with assms show ?thesis by (auto simp: at_iff dest: C.insert_frame)
next
  case (Inr c)
  with assms C.insert_row [of "\<lambda>_ up. new_certification f i dto up" "aw_certs w" c]
  show ?thesis by (fastforce simp: at_iff)
qed

lemma upload_effect:
  assumes run: "advance_cert C S P env now (Upload f i dto x) pc w = (pc', w')"
    and ok: "rows_ok (tblc (aw_certs w)) (objects (aw_objects w))" "stored_clean P (objects (aw_objects w))"
      "cert_pc_ok P (tblc (aw_certs w)) (objects (aw_objects w)) (Upload f i dto x, pc)"
  shows "cert_effect P b (Upload f i dto x) pc (tblc (aw_certs w)) (objects (aw_objects w)) pc' (tblc (aw_certs w')) (objects (aw_objects w'))"
proof (cases pc)
  case Checking
  show ?thesis
  proof (cases "check_file env x")
    case (Inl e)
    with run Checking ok show ?thesis by (auto simp: cert_effect_def rows_after_def objects_after_def)
  next
    case (Inr buffer)
    note check = check_file_Inr [OF Inr]
    from run [unfolded Checking] Inr have "proceed (atCerts (repo_findOne C (\<lambda>c. c_type c = uc_type dto \<and> c_number c = uc_number dto \<and>
        active_status (c_status c) \<and> c_freelanceId c \<noteq> f)) w) (\<lambda>duplicate.
        if duplicate \<noteq> None then Answered (Inl (Conflict DuplicateCertification)) else Stripping buffer) = (pc', w')" by simp
    then show ?thesis
    proof (rule proceedE)
      fix d assume d: "atCerts (repo_findOne C (\<lambda>c. c_type c = uc_type dto \<and> c_number c = uc_number dto \<and>
          active_status (c_status c) \<and> c_freelanceId c \<noteq> f)) w = (Inr d, w')"
        "pc' = (if d \<noteq> None then Answered (Inl (Conflict DuplicateCertification)) else Stripping buffer)"
      obtain y where "repo_findOne C (\<lambda>c. c_type c = uc_type dto \<and> c_number c = uc_number dto \<and>
          active_status (c_status c) \<and> c_freelanceId c \<noteq> f) (aw_certs w) = (Inr d, y)"
        using d(1) by (auto simp: at_iff)
      note find_duplicate [OF this]
      then have "d = None \<Longrightarrow> brevet_of c = (uc_type dto, uc_number dto) \<Longrightarrow> c \<in> ran (tblc (aw_certs w)) \<Longrightarrow> active_status (c_status c) \<Longrightarrow>
          c_freelanceId c = f" for c
        by (auto simp: declared_elsewhere_def brevet_of_def)
      then have "d = None \<Longrightarrow> (uc_type dto, uc_number dto) = b \<Longrightarrow> holders b (tblc (aw_certs w)) \<subseteq> {f}" by (auto simp: holders_def)
      with d(2) access_effect(1) [OF d(1)] ok check Checking show ?thesis
        by (auto simp: cert_effect_def rows_after_def objects_after_def)
    next
      fix e assume e: "atCerts (repo_findOne C (\<lambda>c. c_type c = uc_type dto \<and> c_number c = uc_number dto \<and>
          active_status (c_status c) \<and> c_freelanceId c \<noteq> f)) w = (Inl e, w')" "pc' = Answered (Inl e)"
      from access_effect(1) [OF e(1)] e(2) ok Checking show ?thesis by (auto simp: cert_effect_def rows_after_def objects_after_def)
    qed
  qed
next
  case (Stripping buffer)
  with run ok show ?thesis
    by (auto simp: cert_effect_def rows_after_def objects_after_def split: sum.splits)
next
  case (Putting body)
  then obtain raw where raw: "isPdf raw" "stripPdfMetadata P raw = Inr body" and free: "tblc (aw_certs w) i = None" "CHR 0x2F \<notin> set i"
    using ok(3) by auto
  from run [unfolded Putting, simplified] obtain r where r: "atObjects (st_put S (s3Key_of f i) body ''application/pdf'') w = (r, w')"
    "pc' = Recording \<or> (\<exists>e. pc' = Answered (Inl e))" by (rule proceedE) auto
  from access_effect(2) [OF r(1)] r(2) ok free Putting show ?thesis
    unfolding cert_effect_def rows_after_def objects_after_def
    by (auto intro: rows_ok_put stored_clean_put [OF _ raw])
next
  case Recording
  from run [unfolded Recording, simplified]
  obtain r a where r: "atCerts (repo_insert C (\<lambda>_ up. new_certification f i dto up)) w = (r, w')" "pc' = Answered a"
    by (rule proceedE) auto
  have "holders b (t(i \<mapsto> new_certification f i dto up)) \<subseteq> holders b t \<union> (if (uc_type dto, uc_number dto) = b then {f} else {})" for t up
    by (auto simp: holders_def brevet_of_def ran_def split: if_splits)
  then have "holders b (tblc (aw_certs w')) \<subseteq> holders b (tblc (aw_certs w)) \<union> pending_holder b (Upload f i dto x, pc)"
    using record_effect [OF r(1)] Recording by (elim conjE disjE exE) simp_all
  with record_effect [OF r(1)] r(2) ok Recording show ?thesis
    by (auto simp: cert_effect_def rows_after_def objects_after_def intro: rows_ok_new)
qed (use run ok in \<open>auto simp: cert_effect_def rows_after_def objects_after_def\<close>)

lemma decide_effect:
  assumes run: "advance_cert C S P env now (Decide i dto) pc w = (pc', w')"
    and ok: "rows_ok (tblc (aw_certs w)) (objects (aw_objects w))" "stored_clean P (objects (aw_objects w))"
      "cert_pc_ok P (tblc (aw_certs w)) (objects (aw_objects w)) (Decide i dto, pc)"
  shows "cert_effect P b (Decide i dto) pc (tblc (aw_certs w)) (objects (aw_objects w)) pc' (tblc (aw_certs w')) (objects (aw_objects w'))"
proof (cases pc)
  case Checking
  from run [unfolded Checking, simplified] show ?thesis
  proof (rule proceedE)
    fix found assume found: "atCerts (repo_findOne C (\<lambda>c. c_id c = i)) w = (Inr found, w')"
      "pc' = (case found of None \<Rightarrow> Answered (Inl (NotFound CertificationNotFound))
         | Some c \<Rightarrow> if c_status c \<noteq> CertificationStatus.PENDING then Answered (Inl (Conflict CertificationAlreadyReviewed))
             else if truthy_str (c_s3Key c) then Purging (decide now dto c) else Deciding (decide now dto c))"
    show ?thesis
    proof (cases found)
      case (Some c)
      obtain y where "repo_findOne C (\<lambda>c. c_id c = i) (aw_certs w) = (Inr (Some c), y)" using found(1) Some by (auto simp: at_iff)
      from find_cert(1) [OF this] have c: "tblc (aw_certs w) i = Some c" "c_id c = i" using C.tbl_key [of "aw_certs w" i c] by auto
      have "c_status c = CertificationStatus.PENDING \<Longrightarrow> c_s3Key c = Some (document_of c) \<and> c_freelanceId c \<in> holders (brevet_of c) (tblc (aw_certs w))"
        using rows_okD(2) [OF ok(1) c(1)] c by (auto simp: document_of_def holders_def active_status_def ran_def)
      with Some found(2) access_effect(1) [OF found(1)] ok c Checking show ?thesis
        by (auto simp: cert_effect_def rows_after_def objects_after_def held_def brevet_of_def document_of_def truthy_str_def)
    qed (use found access_effect(1) [OF found(1)] ok Checking in \<open>auto simp: cert_effect_def rows_after_def objects_after_def\<close>)
  next
    fix e assume e: "atCerts (repo_findOne C (\<lambda>c. c_id c = i)) w = (Inl e, w')" "pc' = Answered (Inl e)"
    from access_effect(1) [OF e(1)] e(2) ok Checking show ?thesis by (auto simp: cert_effect_def rows_after_def objects_after_def)
  qed
next
  case (Purging c)
  then have c: "held (tblc (aw_certs w)) c" "c_s3Key c = Some (document_of c)" using ok(3) by simp_all
  from run [unfolded Purging, simplified] show ?thesis
  proof (rule proceedE)
    fix u assume u: "atObjects (st_delete S (the (c_s3Key c))) w = (Inr u, w')" "pc' = Deciding (c\<lparr>c_s3Key := None, c_purgedAt := Some now\<rparr>)"
    from access_effect(3,4) [OF u(1)] u(2) ok c Purging show ?thesis
      by (auto simp: cert_effect_def rows_after_def objects_after_def held_def brevet_of_def document_of_def
          intro: rows_ok_delete stored_clean_delete)
  next
    fix e assume e: "atObjects (st_delete S (the (c_s3Key c))) w = (Inl e, w')" "pc' = Answered (Inl e)"
    from access_effect(3) [OF e(1)] e(2) ok Purging show ?thesis
      by (auto simp: cert_effect_def rows_after_def objects_after_def intro: rows_ok_delete stored_clean_delete)
  qed
next
  case (Deciding c)
  then have c: "held (tblc (aw_certs w)) c" "c_s3Key c = None" "objects (aw_objects w) (document_of c) = None" using ok(3) by simp_all
  from run [unfolded Deciding, simplified] obtain r a where r: "atCerts (repo_save C c) w = (r, w')" "pc' = Answered a"
    by (rule proceedE) auto
  have "holders b (t(c_id c \<mapsto> c)) \<subseteq> holders b t \<union> (if brevet_of c = b then {c_freelanceId c} else {})" for t
    by (auto simp: holders_def ran_def split: if_splits)
  then have "holders b (tblc (aw_certs w')) \<subseteq> holders b (tblc (aw_certs w)) \<union> pending_holder b (Decide i dto, pc)"
    using access_effect(5) [OF r(1)] Deciding by (elim conjE disjE) simp_all
  with access_effect(5) [OF r(1)] r(2) ok c Deciding show ?thesis
    by (auto simp: cert_effect_def rows_after_def objects_after_def intro: rows_ok_decided)
qed (use run ok in \<open>auto simp: cert_effect_def rows_after_def objects_after_def\<close>)

lemma advance_cert_effect:
  "advance_cert C S P env now q pc w = (pc', w') \<Longrightarrow> rows_ok (tblc (aw_certs w)) (objects (aw_objects w)) \<Longrightarrow>
    stored_clean P (objects (aw_objects w)) \<Longrightarrow> cert_pc_ok P (tblc (aw_certs w)) (objects (aw_objects w)) (q, pc) \<Longrightarrow>
    cert_effect P b q pc (tblc (aw_certs w)) (objects (aw_objects w)) pc' (tblc (aw_certs w')) (objects (aw_objects w'))"
  by (cases q) (simp_all add: upload_effect decide_effect)

end

section \<open>Invariant\<close>

definition cert_system_ok :: "'d pdf_lib \<Rightarrow> nat \<Rightarrow> (string \<rightharpoonup> certification) \<Rightarrow> (string \<rightharpoonup> bytes \<times> string) \<Rightarrow> (cert_request \<times> cert_pc) list \<Rightarrow> bool" where
  "cert_system_ok P k t objs ps \<longleftrightarrow> rows_ok t objs \<and> stored_clean P objs \<and> (\<forall>p \<in> set ps. cert_pc_ok P t objs p) \<and>
     (\<forall>m n. m < length ps \<longrightarrow> n < length ps \<longrightarrow> m \<noteq> n \<longrightarrow> upload_id (fst (ps ! m)) = None \<or> upload_id (fst (ps ! m)) \<noteq> upload_id (fst (ps ! n))) \<and>
     (\<forall>b. cert_load b ps \<le> k \<and> card (holders b t \<union> pending_holders b ps) \<le> k)"

lemma pending_holder_finite [simp]: "finite (pending_holder b p)"
  by (induction b p rule: pending_holder.induct) auto

lemma pending_holders_finite [simp]: "finite (pending_holders b ps)"
  by (simp add: pending_holders_def)

lemma card_pending_holders: "card (pending_holders b ps) \<le> cert_load b ps"
proof (induction ps)
  case (Cons p ps)
  have "card (pending_holder b p) \<le> (if engaged b p then 1 else 0)" by (induction b p rule: pending_holder.induct) auto
  moreover have "card (pending_holders b (p # ps)) \<le> card (pending_holder b p) + card (pending_holders b ps)"
    using card_Un_le by (simp add: pending_holders_def)
  ultimately show ?case using Cons.IH by (auto simp: cert_load_def split: if_splits)
qed (simp add: pending_holders_def cert_load_def)

lemma pending_holders_update:
  assumes "j < length ps" "ps ! j = p"
  shows "pending_holders b (ps[j := p']) \<subseteq> pending_holders b ps \<union> pending_holder b p'" "pending_holder b p \<subseteq> pending_holders b ps"
    "pending_holder b p' \<subseteq> pending_holders b (ps[j := p'])"
  using set_update_subset_insert [of ps j p'] nth_mem [OF assms(1)] assms set_update_memI [OF assms(1), of p']
  by (auto simp: pending_holders_def)

context cert_store
begin

lemma holders_finite: "finite (holders b (tblc s))"
proof -
  have "finite (ran (tblc s))" using C.tbl_finite by (rule finite_ran)
  then show ?thesis by (simp add: holders_def)
qed

lemma cert_system_step_ok:
  assumes "cert_system_step C tblc S P env k y y'"
    and "cert_system_ok P k (tblc (aw_certs (cy_world y))) (objects (aw_objects (cy_world y))) (cy_requests y)"
  shows "cert_system_ok P k (tblc (aw_certs (cy_world y'))) (objects (aw_objects (cy_world y'))) (cy_requests y')"
  using assms(1)
proof (cases rule: cert_system_step.cases)
  case (arrives q)
  let ?ps = "cy_requests y" and ?t = "tblc (aw_certs (cy_world y))" and ?objs = "objects (aw_objects (cy_world y))"
  have "pending_holders b (?ps @ [(q, Checking)]) = pending_holders b ?ps" for b by (cases q) (auto simp: pending_holders_def)
  moreover have "cert_pc_ok P ?t ?objs (q, Checking)" using arrives(2) by (cases q) (auto simp: CERT_REVIEW_DECISIONS_def)
  moreover have new: "upload_id (fst (?ps ! m)) \<noteq> upload_id q \<or> upload_id q = None" if "m < length ?ps" for m
    using arrives(2) nth_mem [OF that] by (cases q) auto
  have "upload_id (fst ((?ps @ [(q, Checking)]) ! m)) = None \<or>
      upload_id (fst ((?ps @ [(q, Checking)]) ! m)) \<noteq> upload_id (fst ((?ps @ [(q, Checking)]) ! n))"
    if mn: "m < Suc (length ?ps)" "n < Suc (length ?ps)" "m \<noteq> n" for m n
  proof -
    consider "m < length ?ps" "n < length ?ps" | "m = length ?ps" "n < length ?ps" | "m < length ?ps" "n = length ?ps"
      using mn by linarith
    then show ?thesis
    proof cases
      case 1
      with mn(3) assms(2) show ?thesis by (simp add: cert_system_ok_def nth_append)
    qed (use new [of m] new [of n] in \<open>auto simp: nth_append\<close>)
  qed
  ultimately show ?thesis using assms(2) arrives(1,3) by (simp add: cert_system_ok_def)
next
  case (advances j q pc now pc' w')
  let ?t = "tblc (aw_certs (cy_world y))" and ?t' = "tblc (aw_certs w')" and ?ps = "cy_requests y"
  let ?objs = "objects (aw_objects (cy_world y))" and ?objs' = "objects (aw_objects w')"
  let ?ps' = "?ps[j := (q, pc')]"
  note ok = assms(2) [unfolded cert_system_ok_def]
  have "(q, pc) \<in> set ?ps" using nth_mem [OF advances(2)] advances(3) by simp
  then have "cert_pc_ok P ?t ?objs (q, pc)" using ok by blast
  then have eff: "cert_effect P b q pc ?t ?objs pc' ?t' ?objs'" for b
    using advance_cert_effect [OF advances(4)] ok by blast
  have "cert_pc_ok P ?t' ?objs' p" if p: "p \<in> set ?ps'" for p
  proof -
    obtain m where m: "m < length ?ps" "p = ?ps' ! m" using p by (metis in_set_conv_nth length_list_update)
    show ?thesis
    proof (cases "m = j")
      case True
      with m eff show ?thesis by (simp add: cert_effect_def)
    next
      case False
      then have "p = ?ps ! m" using m by simp
      moreover have "upload_id (fst (?ps ! m)) = None \<or> upload_id (fst (?ps ! m)) \<noteq> upload_id (fst (?ps ! j))"
        using ok m(1) advances(2) False by blast
      ultimately show ?thesis
        using cert_pc_ok_others [of ?t ?objs q ?t' ?objs' P p] ok eff m(1) advances(3) by (auto simp: cert_effect_def)
    qed
  qed
  moreover have "card (holders b ?t' \<union> pending_holders b ?ps') \<le> k" for b
  proof (cases "holders b ?t' \<subseteq> pending_holder b (q, pc')")
    case True
    then have "holders b ?t' \<union> pending_holders b ?ps' = pending_holders b ?ps'"
      using pending_holders_update(3) [OF advances(2,3)] by blast
    with card_pending_holders [of b ?ps'] advances(5) show ?thesis using order_trans by metis
  next
    case False
    then have "holders b ?t' \<union> pending_holders b ?ps' \<subseteq> holders b ?t \<union> pending_holders b ?ps"
      using eff [of b] pending_holders_update [OF advances(2,3), of b] unfolding cert_effect_def by blast
    then have "card (holders b ?t' \<union> pending_holders b ?ps') \<le> card (holders b ?t \<union> pending_holders b ?ps)"
      by (rule card_mono [rotated]) (simp add: holders_finite)
    with ok show ?thesis using order_trans by blast
  qed
  moreover have "upload_id (fst (?ps' ! m)) = upload_id (fst (?ps ! m))" if "m < length ?ps" for m
    using advances(3) that by (cases "m = j") simp_all
  ultimately show ?thesis using ok eff advances(1,5) by (simp add: cert_system_ok_def cert_effect_def)
qed (use assms(2) in simp)

end

section \<open>Schedules\<close>

definition turn_cert :: "('c, certification) repo \<Rightarrow> 'o storage_service \<Rightarrow> 'd pdf_lib \<Rightarrow> string option \<Rightarrow> nat \<Rightarrow> nat \<Rightarrow>
    ('u, 'g, 'c, 'k, 'o) cert_system \<Rightarrow> ('u, 'g, 'c, 'k, 'o) cert_system" where
  "turn_cert C S P env now j y = (case cy_requests y ! j of (q, pc) \<Rightarrow>
     case advance_cert C S P env now q pc (cy_world y) of (pc', w') \<Rightarrow> y\<lparr>cy_world := w', cy_requests := (cy_requests y)[j := (q, pc')]\<rparr>)"

lemma cert_load_le: "cert_load b ps \<le> length ps"
  by (simp add: cert_load_def)

lemma turns_cert_steps:
  "\<forall>j \<in> set js. j < length (cy_requests y) \<Longrightarrow> length (cy_requests y) \<le> k \<Longrightarrow>
    (cert_system_step C tblc S P env k)\<^sup>*\<^sup>* y (fold (turn_cert C S P env now) js y)"
proof (induction js arbitrary: y)
  case (Cons j js)
  have len: "length (cy_requests (turn_cert C S P env now j y)) = length (cy_requests y)" by (simp add: turn_cert_def split: prod.split)
  with Cons have "(cert_system_step C tblc S P env k)\<^sup>*\<^sup>* (turn_cert C S P env now j y) (fold (turn_cert C S P env now) js (turn_cert C S P env now j y))"
    by simp
  moreover have "cert_system_step C tblc S P env k y (turn_cert C S P env now j y)"
  proof -
    have "cert_load b ((cy_requests y)[j := p]) \<le> k" for b p
      using cert_load_le [of b "(cy_requests y)[j := p]"] Cons.prems(2) by simp
    then show ?thesis
      using Cons.prems(1) by (auto simp: turn_cert_def intro: cert_system_step.advances split: prod.split)
  qed
  ultimately show ?case by (simp add: converse_rtranclp_into_rtranclp)
qed simp

text \<open>Two freelances upload the same brevet: both look for a duplicate before either has recorded its row.\<close>

definition two_uploads :: "(unit, unit, certification list, unit, string \<rightharpoonup> bytes \<times> string) cert_system" where
  "two_uploads = \<lparr>cy_world = cert_world [] Map.empty, cy_requests =
     [(Upload ''f1'' ''c1'' dto1 pdf_file, Checking), (Upload ''f2'' ''c2'' dto1 pdf_file, Checking)]\<rparr>"

definition both_turns :: "nat list" where
  "both_turns = [0, 1, 0, 1, 0, 1, 0, 1]"

lemma same_brevet_twice:
  "aw_certs (cy_world (fold (turn_cert (certifications_table {''f1'', ''f2''}) FakeStorageService mem_pdf None 10) both_turns two_uploads)) =
    [new_certification ''f1'' ''c1'' dto1 0, new_certification ''f2'' ''c2'' dto1 1]"
  by (simp add: both_turns_def two_uploads_def turn_cert_def pdf_file_passes atCerts_def atObjects_def liftP_def table_run table_rows
      FakeStorageService_def Fake_put_def)

text \<open>Two admins decide on the same certificate, one each way: both are answered, and the last one to be saved stays.\<close>

definition two_decisions :: "(unit, unit, certification list, unit, string \<rightharpoonup> bytes \<times> string) cert_system" where
  "two_decisions = \<lparr>cy_world = cert_world [uploaded_row] Map.empty, cy_requests =
     [(Decide ''c1'' \<lparr>rc_decision = CertificationStatus.VALIDATED, rc_validUntil = None\<rparr>, Checking),
      (Decide ''c1'' \<lparr>rc_decision = CertificationStatus.REJECTED, rc_validUntil = None\<rparr>, Checking)]\<rparr>"

lemma both_decisions_answered:
  "let y = fold (turn_cert (certifications_table {''f1''}) FakeStorageService mem_pdf None 10) [0, 1, 0, 1, 0, 1] two_decisions
   in map (\<lambda>(q, pc). case pc of Answered (Inr c) \<Rightarrow> Some (pc_status c) | _ \<Rightarrow> None) (cy_requests y) =
        [Some CertificationStatus.VALIDATED, Some CertificationStatus.REJECTED] \<and>
      map c_status (aw_certs (cy_world y)) = [CertificationStatus.REJECTED]"
  by code_simp

section \<open>Property\<close>

text \<open>
  C20. Certificates when requests overlap. Any number of uploads and decisions interleave at their awaits, with failures of the database and of the storage
  anywhere, at most \<open>k\<close> of those under way concerning one brevet. From an empty table and an empty storage: a brevet is declared (pending or
  validated) on at most \<open>k\<close> accounts; a certificate that was decided has no storage key, and its document is not stored any more; and whatever is stored
  came out of the metadata strip of a file that begins like a PDF.
\<close>

theorem certificates_interleaved:
  assumes "repository C tblc c_id" "storage_port S objects" "tblc (aw_certs (cy_world y0)) = Map.empty"
    "objects (aw_objects (cy_world y0)) = Map.empty" "cy_requests y0 = []"
    and "(cert_system_step C tblc S P env k)\<^sup>*\<^sup>* y0 y"
  shows "card (holders b (tblc (aw_certs (cy_world y)))) \<le> k \<and>
    (\<forall>i c. tblc (aw_certs (cy_world y)) i = Some c \<and> c_status c \<noteq> CertificationStatus.PENDING \<longrightarrow>
       c_s3Key c = None \<and> objects (aw_objects (cy_world y)) (s3Key_of (c_freelanceId c) i) = None) \<and>
    (\<forall>key body ct. objects (aw_objects (cy_world y)) key = Some (body, ct) \<longrightarrow> (\<exists>raw. isPdf raw \<and> stripPdfMetadata P raw = Inr body))"
proof -
  have cs: "cert_store C tblc S objects" using assms(1,2) by (rule cert_store.intro)
  have "cert_system_ok P k (tblc (aw_certs (cy_world y0))) (objects (aw_objects (cy_world y0))) (cy_requests y0)"
    using assms(3-5) by (simp add: cert_system_ok_def rows_ok_def stored_clean_def holders_def pending_holders_def cert_load_def)
  from assms(6) this have ok: "cert_system_ok P k (tblc (aw_certs (cy_world y))) (objects (aw_objects (cy_world y))) (cy_requests y)"
    by (induction rule: rtranclp_induct) (auto intro: cert_store.cert_system_step_ok [OF cs])
  have "card (holders b (tblc (aw_certs (cy_world y)))) \<le> card (holders b (tblc (aw_certs (cy_world y))) \<union> pending_holders b (cy_requests y))"
    by (rule card_mono) (simp_all add: cert_store.holders_finite [OF cs])
  also have "\<dots> \<le> k" using ok unfolding cert_system_ok_def by blast
  finally have few: "card (holders b (tblc (aw_certs (cy_world y)))) \<le> k" .
  have rows: "rows_ok (tblc (aw_certs (cy_world y))) (objects (aw_objects (cy_world y)))" "stored_clean P (objects (aw_objects (cy_world y)))"
    using ok by (simp_all add: cert_system_ok_def)
  from few rows_okD(3) [OF rows(1)] rows(2) show ?thesis unfolding stored_clean_def by blast
qed

text \<open>Two overlapping uploads put one brevet on two accounts: the bound is reached.\<close>

theorem certificates_interleaved_witness:
  "\<exists>y. (cert_system_step (certifications_table {''f1'', ''f2''}) (mem_tbl c_id) FakeStorageService mem_pdf None 2)\<^sup>*\<^sup>*
      \<lparr>cy_world = cert_world [] Map.empty, cy_requests = []\<rparr> y \<and>
     card (holders (DGAC_DRONE, ''N1'') (mem_tbl c_id (aw_certs (cy_world y)))) = 2"
proof -
  let ?S = "cert_system_step (certifications_table {''f1'', ''f2''}) (mem_tbl c_id) FakeStorageService mem_pdf None 2"
  let ?y = "fold (turn_cert (certifications_table {''f1'', ''f2''}) FakeStorageService mem_pdf None 10) both_turns two_uploads"
  let ?start = "\<lparr>cy_world = cert_world [] Map.empty, cy_requests = []\<rparr> :: (unit, unit, certification list, unit, string \<rightharpoonup> bytes \<times> string) cert_system"
  let ?one = "?start\<lparr>cy_requests := cy_requests ?start @ [(Upload ''f1'' ''c1'' dto1 pdf_file, Checking)]\<rparr>"
  let ?b = "(DGAC_DRONE, ''N1'')"
  have load: "cert_load b [p, q] \<le> 2" "cert_load b [p] \<le> 2" for b p q using cert_load_le [of b "[p, q]"] cert_load_le [of b "[p]"] by simp_all
  have "?S ?start ?one" by (rule cert_system_step.arrives) (simp_all add: mem_tbl_def load)
  moreover have "?S ?one (?one\<lparr>cy_requests := cy_requests ?one @ [(Upload ''f2'' ''c2'' dto1 pdf_file, Checking)]\<rparr>)"
    by (rule cert_system_step.arrives) (simp_all add: mem_tbl_def load)
  moreover have empty: "mem_tbl c_id (aw_certs (cy_world ?start)) = Map.empty" "aw_objects (cy_world ?start) = Map.empty" "cy_requests ?start = []"
    by (auto simp: mem_tbl_def fun_eq_iff)
  ultimately have "?S\<^sup>*\<^sup>* ?start two_uploads" by (simp add: two_uploads_def)
  moreover have "?S\<^sup>*\<^sup>* two_uploads ?y" by (rule turns_cert_steps) (simp_all add: two_uploads_def both_turns_def)
  ultimately have run: "?S\<^sup>*\<^sup>* ?start ?y" by (rule rtranclp_trans)
  let ?t = "[''c1'' \<mapsto> new_certification ''f1'' ''c1'' dto1 0, ''c2'' \<mapsto> new_certification ''f2'' ''c2'' dto1 1]"
  have tbl: "mem_tbl c_id (aw_certs (cy_world ?y)) = ?t"
    unfolding same_brevet_twice by (auto simp: mem_tbl_def fun_eq_iff)
  have "new_certification ''f1'' ''c1'' dto1 0 \<in> ran ?t" "new_certification ''f2'' ''c2'' dto1 1 \<in> ran ?t"
    by (rule ranI [of _ "''c1''"], simp, rule ranI [of _ "''c2''"], simp)
  then have "c_freelanceId (new_certification ''f1'' ''c1'' dto1 0) \<in> holders ?b ?t" "c_freelanceId (new_certification ''f2'' ''c2'' dto1 1) \<in> holders ?b ?t"
    unfolding holders_def by (intro imageI; simp add: brevet_of_def dto1_def active_status_def)+
  then have two: "{''f1'', ''f2''} \<subseteq> holders ?b (mem_tbl c_id (aw_certs (cy_world ?y)))"
    unfolding tbl by simp
  obtain y where y: "?S\<^sup>*\<^sup>* ?start y" "{''f1'', ''f2''} \<subseteq> holders ?b (mem_tbl c_id (aw_certs (cy_world y)))" using run two by blast
  have "card {''f1'', ''f2''} \<le> card (holders ?b (mem_tbl c_id (aw_certs (cy_world y))))"
    by (rule card_mono [OF cert_store.holders_finite [OF mem_certs.cert_store_axioms] y(2)])
  moreover have "card (holders ?b (mem_tbl c_id (aw_certs (cy_world y)))) \<le> 2"
    using certificates_interleaved [OF certifications_tbl.repository_axioms fake.storage_port_axioms empty y(1)] by blast
  ultimately have "card (holders ?b (mem_tbl c_id (aw_certs (cy_world y)))) = 2" by simp
  with y(1) show ?thesis by blast
qed

end
