(* ===== verification/ApiContract.thy ===== *)
theory ApiContract
  imports FrontScreens Application Gamification
begin

text \<open>
  Where client and API meet: the routes that the controllers declare (\<open>backend-core/src/*/*.controller.ts\<close>), the requests that the hooks
  of the client send (\<open>frontend-web/src/features/*/use*.ts\<close>, \<open>AuthProvider.tsx\<close>, \<open>TwoFactorSettings.tsx\<close>), and what a
  mutation invalidates in the query cache. \<open>client_calls_routed\<close>: each request has its route, and the pages of a role only send requests
  that the role may send. \<open>cache_coherent\<close>: after a mutation of the locker what stays in the cache is what the API would answer.
\<close>

section \<open>Routes\<close>

text \<open>The segments of a path, in one pass.\<close>

fun path_segments :: "string \<Rightarrow> string \<Rightarrow> string list" where
  "path_segments acc [] = (if acc = [] then [] else [rev acc])"
| "path_segments acc (c # s) =
     (if c = CHR ''/'' then (if acc = [] then path_segments [] s else rev acc # path_segments [] s) else path_segments (c # acc) s)"

lemma path_segments_split:
  "path_segments acc s = filter (\<lambda>x. x \<noteq> []) ((rev acc @ hd (js_split (CHR ''/'') s)) # tl (js_split (CHR ''/'') s))"
proof (induction s arbitrary: acc)
  case (Cons c s)
  have "filter (\<lambda>x. x \<noteq> []) (js_split (CHR ''/'') s) = path_segments [] s" using Cons.IH [of "[]"] by simp
  then show ?case using Cons.IH [of "c # acc"] by simp
qed simp

lemma segments_code [code]: "segments s = path_segments [] (takeWhile (\<lambda>c. c \<noteq> CHR ''#'') s)"
  by (simp add: segments_def path_segments_split)

datatype verb = GET | POST | PATCH

datatype access = Public | Authenticated | Reserved "UserRole list"

record api_route =
  ar_verb :: verb
  ar_controller :: string
  ar_path :: string
  ar_access :: access
  ar_handler :: string

definition route :: "verb \<Rightarrow> string \<Rightarrow> string \<Rightarrow> access \<Rightarrow> string \<Rightarrow> api_route" where
  "route v c p a h = \<lparr>ar_verb = v, ar_controller = c, ar_path = p, ar_access = a, ar_handler = h\<rparr>"

definition AuthController :: "api_route list" where
  "AuthController = [
     route POST ''api/v1/auth'' ''register'' Public ''register'',
     route POST ''api/v1/auth'' ''login'' Public ''login'',
     route POST ''api/v1/auth'' ''refresh'' Public ''refresh'',
     route POST ''api/v1/auth'' ''logout'' Public ''logout'']"

definition TwoFactorController :: "api_route list" where
  "TwoFactorController = [
     route GET ''api/v1/auth/2fa'' ''status'' Authenticated ''status'',
     route POST ''api/v1/auth/2fa'' ''enroll'' Authenticated ''enroll'',
     route POST ''api/v1/auth/2fa'' ''confirm'' Authenticated ''confirm'',
     route POST ''api/v1/auth/2fa'' ''verify'' Public ''verify'',
     route POST ''api/v1/auth/2fa'' ''disable'' Authenticated ''disable'',
     route POST ''api/v1/auth/2fa'' ''backup-codes/regenerate'' Authenticated ''regenerateBackupCodes'']"

definition GearController :: "api_route list" where
  "GearController = [
     route POST ''api/v1/gear'' [] (Reserved [FREELANCE]) ''addGear'',
     route GET ''api/v1/gear'' ''me'' (Reserved [FREELANCE]) ''getMyGear'',
     route GET ''api/v1/gear'' ''freelance/:freelanceId'' (Reserved [RECRUITER]) ''getPublicFreelanceGear'',
     route GET ''api/v1/gear'' ''pending'' (Reserved [ADMIN]) ''getPending'',
     route PATCH ''api/v1/gear'' '':id/review'' (Reserved [ADMIN]) ''review'',
     route PATCH ''api/v1/gear'' '':id/loadout'' (Reserved [FREELANCE]) ''setLoadout'']"

definition CertificationController :: "api_route list" where
  "CertificationController = [
     route POST ''api/v1/certifications'' [] (Reserved [FREELANCE]) ''upload'',
     route GET ''api/v1/certifications'' ''me'' (Reserved [FREELANCE]) ''getMine'',
     route GET ''api/v1/certifications'' ''pending'' (Reserved [ADMIN]) ''getPending'',
     route GET ''api/v1/certifications'' '':id/document'' (Reserved [FREELANCE, ADMIN]) ''getDocument'',
     route PATCH ''api/v1/certifications'' '':id/review'' (Reserved [ADMIN]) ''review'']"

definition MatchingController :: "api_route list" where
  "MatchingController = [route POST ''api/v1/matching'' ''search'' (Reserved [RECRUITER]) ''search'']"

definition ChatController :: "api_route list" where
  "ChatController = [
     route GET ''api/v1/chat'' ''conversations'' Authenticated ''getConversations'',
     route GET ''api/v1/chat'' ''with/:userId'' Authenticated ''getHistory'']"

definition GamificationController :: "api_route list" where
  "GamificationController = [
     route GET ''api/v1/gamification'' ''me'' (Reserved [FREELANCE]) ''getMyProfile'',
     route GET ''api/v1/gamification'' ''freelance/:id'' (Reserved [RECRUITER]) ''getPublicProfile'']"

definition HealthController :: "api_route list" where
  "HealthController = [
     route GET ''api/v1/health'' [] Public ''liveness'',
     route GET ''api/v1/health'' ''ready'' Public ''readiness'']"

definition MetricsController :: "api_route list" where
  "MetricsController = [route GET ''metrics'' [] Public ''scrape'']"

definition API_ROUTES :: "api_route list" where
  "API_ROUTES = AuthController @ TwoFactorController @ GearController @ CertificationController @ MatchingController @ ChatController @
     GamificationController @ HealthController @ MetricsController"

text \<open>The template of a route; a segment with a colon stands for any segment. The first route that fits is taken.\<close>

definition template :: "api_route \<Rightarrow> string" where
  "template r = ''/'' @ ar_controller r @ ''/'' @ ar_path r"

fun fits :: "string list \<Rightarrow> string list \<Rightarrow> bool" where
  "fits [] [] \<longleftrightarrow> True"
| "fits (t # ts) (s # ss) \<longleftrightarrow> (js_startsWith t '':'' \<or> t = s) \<and> fits ts ss"
| "fits _ _ \<longleftrightarrow> False"

definition dispatch :: "verb \<Rightarrow> string \<Rightarrow> api_route option" where
  "dispatch v path = find (\<lambda>r. ar_verb r = v \<and> fits (segments (template r)) (segments path)) API_ROUTES"

text \<open>No route hides another: the path of every template leads to its own route.\<close>

lemma routes_reachable: "list_all (\<lambda>r. dispatch (ar_verb r) (template r) = Some r) API_ROUTES"
  by code_simp

section \<open>Requests of the client\<close>

datatype client_call = Register_call | Login_call | Verify_call | Refresh_call | Logout_call
  | Status_query | Enroll_call | Confirm_call | Disable_call
  | MyGear_query | FreelanceGear_query string | CreateGear_call | SetLoadout_call string
  | Gamification_query | FreelanceGamification_query string
  | Conversations_query | Thread_query string | MatchSearch_call

text \<open>
  The hooks: the request of a query or of a mutation, the key of a query and the keys that \<open>onSuccess\<close> of a mutation invalidates. An
  entry of the cache is invalidated when its key starts with one of those.
\<close>

record hook =
  h_request :: "verb \<times> string"
  h_key :: "string list option"
  h_invalidates :: "string list list"

definition query_hook :: "string list \<Rightarrow> string \<Rightarrow> hook" where
  "query_hook key path = \<lparr>h_request = (GET, path), h_key = Some key, h_invalidates = []\<rparr>"

definition mutation_hook :: "verb \<Rightarrow> string \<Rightarrow> string list list \<Rightarrow> hook" where
  "mutation_hook v path keys = \<lparr>h_request = (v, path), h_key = None, h_invalidates = keys\<rparr>"

definition myGearQueryKey :: "string list" where
  "myGearQueryKey = [''gear'', ''me'']"

definition useMyGear :: hook where
  "useMyGear = query_hook myGearQueryKey ''/api/v1/gear/me''"

definition useFreelanceGear :: "string \<Rightarrow> hook" where
  "useFreelanceGear freelanceId = query_hook [''gear'', ''freelance'', freelanceId] (''/api/v1/gear/freelance/'' @ freelanceId)"

definition useCreateGear :: hook where
  "useCreateGear = mutation_hook POST ''/api/v1/gear'' [myGearQueryKey]"

definition useSetLoadout :: "string \<Rightarrow> hook" where
  "useSetLoadout gearId = mutation_hook PATCH (''/api/v1/gear/'' @ gearId @ ''/loadout'') [[''gear'', ''me''], [''gamification'', ''me'']]"

definition useGamification :: hook where
  "useGamification = query_hook [''gamification'', ''me''] ''/api/v1/gamification/me''"

definition useFreelanceGamification :: "string \<Rightarrow> hook" where
  "useFreelanceGamification freelanceId =
     query_hook [''gamification'', ''freelance'', freelanceId] (''/api/v1/gamification/freelance/'' @ freelanceId)"

definition useConversations :: hook where
  "useConversations = query_hook [''chat'', ''conversations''] ''/api/v1/chat/conversations''"

definition historyQuery :: "string \<Rightarrow> hook" where
  "historyQuery peerId = query_hook [''chat'', ''with'', peerId] (''/api/v1/chat/with/'' @ peerId)"

definition useMatchSearch :: hook where
  "useMatchSearch = mutation_hook POST ''/api/v1/matching/search'' []"

definition statusQueryKey :: "string list" where
  "statusQueryKey = [''auth'', ''2fa'', ''status'']"

text \<open>The query and the mutations of the 2FA section.\<close>

definition settings_status :: hook where
  "settings_status = query_hook statusQueryKey ''/api/v1/auth/2fa/status''"

definition settings_enroll :: hook where
  "settings_enroll = mutation_hook POST ''/api/v1/auth/2fa/enroll'' []"

definition settings_confirm :: hook where
  "settings_confirm = mutation_hook POST ''/api/v1/auth/2fa/confirm'' [statusQueryKey]"

definition settings_disable :: hook where
  "settings_disable = mutation_hook POST ''/api/v1/auth/2fa/disable'' [statusQueryKey]"

text \<open>The requests of the session, which go through no hook of the query client.\<close>

definition login_request :: hook where
  "login_request = mutation_hook POST ''/api/v1/auth/login'' []"

definition verifyTwoFactor_request :: hook where
  "verifyTwoFactor_request = mutation_hook POST ''/api/v1/auth/2fa/verify'' []"

definition register_request :: hook where
  "register_request = mutation_hook POST ''/api/v1/auth/register'' []"

definition logout_request :: hook where
  "logout_request = mutation_hook POST ''/api/v1/auth/logout'' []"

definition refresh_request :: hook where
  "refresh_request = mutation_hook POST REFRESH_ENDPOINT []"

fun hook_of :: "client_call \<Rightarrow> hook" where
  "hook_of Register_call = register_request"
| "hook_of Login_call = login_request"
| "hook_of Verify_call = verifyTwoFactor_request"
| "hook_of Refresh_call = refresh_request"
| "hook_of Logout_call = logout_request"
| "hook_of Status_query = settings_status"
| "hook_of Enroll_call = settings_enroll"
| "hook_of Confirm_call = settings_confirm"
| "hook_of Disable_call = settings_disable"
| "hook_of MyGear_query = useMyGear"
| "hook_of (FreelanceGear_query i) = useFreelanceGear i"
| "hook_of CreateGear_call = useCreateGear"
| "hook_of (SetLoadout_call i) = useSetLoadout i"
| "hook_of Gamification_query = useGamification"
| "hook_of (FreelanceGamification_query i) = useFreelanceGamification i"
| "hook_of Conversations_query = useConversations"
| "hook_of (Thread_query i) = historyQuery i"
| "hook_of MatchSearch_call = useMatchSearch"

definition call_request :: "client_call \<Rightarrow> verb \<times> string" where
  "call_request c = h_request (hook_of c)"

definition stale :: "client_call \<Rightarrow> client_call \<Rightarrow> bool" where
  "stale c q \<longleftrightarrow> list_ex (\<lambda>k. case h_key (hook_of q) of None \<Rightarrow> False | Some key \<Rightarrow> prefix k key) (h_invalidates (hook_of c))"

lemmas hook_defs = query_hook_def mutation_hook_def myGearQueryKey_def useMyGear_def useFreelanceGear_def useCreateGear_def useSetLoadout_def
  useGamification_def useFreelanceGamification_def useConversations_def historyQuery_def useMatchSearch_def statusQueryKey_def
  settings_status_def settings_enroll_def settings_confirm_def settings_disable_def login_request_def verifyTwoFactor_request_def
  register_request_def logout_request_def refresh_request_def

text \<open>The route that each one is meant for.\<close>

fun call_handler :: "client_call \<Rightarrow> string \<times> string" where
  "call_handler Register_call = (''api/v1/auth'', ''register'')"
| "call_handler Login_call = (''api/v1/auth'', ''login'')"
| "call_handler Verify_call = (''api/v1/auth/2fa'', ''verify'')"
| "call_handler Refresh_call = (''api/v1/auth'', ''refresh'')"
| "call_handler Logout_call = (''api/v1/auth'', ''logout'')"
| "call_handler Status_query = (''api/v1/auth/2fa'', ''status'')"
| "call_handler Enroll_call = (''api/v1/auth/2fa'', ''enroll'')"
| "call_handler Confirm_call = (''api/v1/auth/2fa'', ''confirm'')"
| "call_handler Disable_call = (''api/v1/auth/2fa'', ''disable'')"
| "call_handler MyGear_query = (''api/v1/gear'', ''getMyGear'')"
| "call_handler (FreelanceGear_query i) = (''api/v1/gear'', ''getPublicFreelanceGear'')"
| "call_handler CreateGear_call = (''api/v1/gear'', ''addGear'')"
| "call_handler (SetLoadout_call i) = (''api/v1/gear'', ''setLoadout'')"
| "call_handler Gamification_query = (''api/v1/gamification'', ''getMyProfile'')"
| "call_handler (FreelanceGamification_query i) = (''api/v1/gamification'', ''getPublicProfile'')"
| "call_handler Conversations_query = (''api/v1/chat'', ''getConversations'')"
| "call_handler (Thread_query i) = (''api/v1/chat'', ''getHistory'')"
| "call_handler MatchSearch_call = (''api/v1/matching'', ''search'')"

fun call_ok :: "client_call \<Rightarrow> bool" where
  "call_ok (FreelanceGear_query i) \<longleftrightarrow> segment i"
| "call_ok (SetLoadout_call i) \<longleftrightarrow> segment i"
| "call_ok (FreelanceGamification_query i) \<longleftrightarrow> segment i"
| "call_ok (Thread_query i) \<longleftrightarrow> segment i"
| "call_ok c \<longleftrightarrow> True"

text \<open>What the pages send; \<open>i\<close> is the item whose place in the showcase changes.\<close>

fun page_calls :: "screen_page \<Rightarrow> string \<Rightarrow> client_call list" where
  "page_calls LoginPage i = [Login_call, Verify_call]"
| "page_calls RegisterPage i = [Register_call, Login_call]"
| "page_calls AccountPage i = [Status_query, Enroll_call, Confirm_call, Disable_call, Logout_call]"
| "page_calls ArmureriePage i = [MyGear_query, Gamification_query, SetLoadout_call i]"
| "page_calls AddGearPage i = [CreateGear_call]"
| "page_calls (FreelanceGearPage f) i = [FreelanceGear_query f, FreelanceGamification_query f]"
| "page_calls SearchPage i = [MatchSearch_call]"
| "page_calls MessagesPage i = [Conversations_query]"
| "page_calls (MessageThreadPage u) i = [Thread_query u]"
| "page_calls p i = []"

fun allows :: "access \<Rightarrow> UserRole \<Rightarrow> bool" where
  "allows (Reserved roles) r \<longleftrightarrow> r \<in> set roles"
| "allows _ r \<longleftrightarrow> True"

lemma path_segments_id: "CHR ''/'' \<notin> set i \<Longrightarrow> path_segments acc (i @ s) = path_segments (rev i @ acc) s"
  by (induction i arbitrary: acc) auto

lemma takeWhile_hash_append: "CHR ''#'' \<notin> set i \<Longrightarrow> takeWhile (\<lambda>c. c \<noteq> CHR ''#'') (i @ s) = i @ takeWhile (\<lambda>c. c \<noteq> CHR ''#'') s"
  by (induction i) auto

lemma fixed_calls_routed:
  "list_all (\<lambda>c. (case dispatch (fst (call_request c)) (snd (call_request c)) of
       Some r \<Rightarrow> (ar_controller r, ar_handler r) = call_handler c | None \<Rightarrow> False))
     [Register_call, Login_call, Verify_call, Refresh_call, Logout_call, Status_query, Enroll_call, Confirm_call, Disable_call,
      MyGear_query, CreateGear_call, Gamification_query, Conversations_query, MatchSearch_call]"
  by code_simp

lemmas literal_path = segments_code path_segments_id takeWhile_hash_append segment_def

lemma calls_with_id:
  assumes "segment i"
  shows "segments (''/api/v1/gear/freelance/'' @ i) = [''api'', ''v1'', ''gear'', ''freelance'', i]"
    "segments (''/api/v1/gear/'' @ i @ ''/loadout'') = [''api'', ''v1'', ''gear'', i, ''loadout'']"
    "segments (''/api/v1/gamification/freelance/'' @ i) = [''api'', ''v1'', ''gamification'', ''freelance'', i]"
    "segments (''/api/v1/chat/with/'' @ i) = [''api'', ''v1'', ''chat'', ''with'', i]"
  using assms path_segments_id [of i "[]" "[]"] by (simp_all add: literal_path takeWhile_hash del: takeWhile_eq_all_conv)

lemma template_segments:
  "map (\<lambda>r. (ar_verb r, segments (template r))) API_ROUTES = [
     (POST, [''api'', ''v1'', ''auth'', ''register'']),
     (POST, [''api'', ''v1'', ''auth'', ''login'']),
     (POST, [''api'', ''v1'', ''auth'', ''refresh'']),
     (POST, [''api'', ''v1'', ''auth'', ''logout'']),
     (GET, [''api'', ''v1'', ''auth'', ''2fa'', ''status'']),
     (POST, [''api'', ''v1'', ''auth'', ''2fa'', ''enroll'']),
     (POST, [''api'', ''v1'', ''auth'', ''2fa'', ''confirm'']),
     (POST, [''api'', ''v1'', ''auth'', ''2fa'', ''verify'']),
     (POST, [''api'', ''v1'', ''auth'', ''2fa'', ''disable'']),
     (POST, [''api'', ''v1'', ''auth'', ''2fa'', ''backup-codes'', ''regenerate'']),
     (POST, [''api'', ''v1'', ''gear'']),
     (GET, [''api'', ''v1'', ''gear'', ''me'']),
     (GET, [''api'', ''v1'', ''gear'', ''freelance'', '':freelanceId'']),
     (GET, [''api'', ''v1'', ''gear'', ''pending'']),
     (PATCH, [''api'', ''v1'', ''gear'', '':id'', ''review'']),
     (PATCH, [''api'', ''v1'', ''gear'', '':id'', ''loadout'']),
     (POST, [''api'', ''v1'', ''certifications'']),
     (GET, [''api'', ''v1'', ''certifications'', ''me'']),
     (GET, [''api'', ''v1'', ''certifications'', ''pending'']),
     (GET, [''api'', ''v1'', ''certifications'', '':id'', ''document'']),
     (PATCH, [''api'', ''v1'', ''certifications'', '':id'', ''review'']),
     (POST, [''api'', ''v1'', ''matching'', ''search'']),
     (GET, [''api'', ''v1'', ''chat'', ''conversations'']),
     (GET, [''api'', ''v1'', ''chat'', ''with'', '':userId'']),
     (GET, [''api'', ''v1'', ''gamification'', ''me'']),
     (GET, [''api'', ''v1'', ''gamification'', ''freelance'', '':id'']),
     (GET, [''api'', ''v1'', ''health'']),
     (GET, [''api'', ''v1'', ''health'', ''ready'']),
     (GET, [''metrics''])]"
  by code_simp

lemmas route_defs = API_ROUTES_def AuthController_def TwoFactorController_def GearController_def CertificationController_def
  MatchingController_def ChatController_def GamificationController_def HealthController_def MetricsController_def route_def

lemma find_zip: "find (\<lambda>x. Q (g x)) xs = map_option snd (find (\<lambda>(a, x). Q a) (zip (map g xs) xs))"
  by (induction xs) auto

lemma dispatch_rows:
  "dispatch v path = map_option snd (find (\<lambda>(a, r). fst a = v \<and> fits (snd a) (segments path))
     (zip (map (\<lambda>r. (ar_verb r, segments (template r))) API_ROUTES) API_ROUTES))"
  using find_zip [of "\<lambda>a. fst a = v \<and> fits (snd a) (segments path)" "\<lambda>r. (ar_verb r, segments (template r))" API_ROUTES]
  by (simp add: dispatch_def)

lemma calls_with_id_routed:
  assumes "segment i"
  shows "dispatch GET (''/api/v1/gear/freelance/'' @ i) = Some (route GET ''api/v1/gear'' ''freelance/:freelanceId'' (Reserved [RECRUITER]) ''getPublicFreelanceGear'')"
    "dispatch PATCH (''/api/v1/gear/'' @ i @ ''/loadout'') = Some (route PATCH ''api/v1/gear'' '':id/loadout'' (Reserved [FREELANCE]) ''setLoadout'')"
    "dispatch GET (''/api/v1/gamification/freelance/'' @ i) = Some (route GET ''api/v1/gamification'' ''freelance/:id'' (Reserved [RECRUITER]) ''getPublicProfile'')"
    "dispatch GET (''/api/v1/chat/with/'' @ i) = Some (route GET ''api/v1/chat'' ''with/:userId'' Authenticated ''getHistory'')"
  unfolding dispatch_rows template_segments calls_with_id [OF assms] by (simp_all add: route_defs js_startsWith_def)

lemma call_routed:
  assumes "call_ok c"
  shows "\<exists>r. dispatch (fst (call_request c)) (snd (call_request c)) = Some r \<and> (ar_controller r, ar_handler r) = call_handler c"
  using assms fixed_calls_routed
  by (cases c) (auto simp: calls_with_id_routed call_request_def hook_defs route_def simp del: append_Cons append_Nil split: option.splits)

text \<open>The access of the routes that the pages use.\<close>

lemma page_access:
  "list_all (\<lambda>(c, r). case dispatch (fst (call_request c)) (snd (call_request c)) of Some q \<Rightarrow> allows (ar_access q) r | None \<Rightarrow> False)
     [(MyGear_query, FREELANCE), (Gamification_query, FREELANCE), (Conversations_query, FREELANCE), (Conversations_query, RECRUITER),
      (Conversations_query, ADMIN), (MatchSearch_call, RECRUITER)]"
  by code_simp

section \<open>Properties\<close>

text \<open>
  C38. Requests and routes. Every request of the client, with an identifier that is a segment of a path, is taken by the route it is meant for,
  and each declared route by itself. A page that the navigation shows to a role sends only requests that the role may send.
\<close>

theorem client_calls_routed:
  "list_all (\<lambda>r. dispatch (ar_verb r) (template r) = Some r) API_ROUTES \<and>
   (call_ok c \<longrightarrow> (\<exists>r. dispatch (fst (call_request c)) (snd (call_request c)) = Some r \<and> (ar_controller r, ar_handler r) = call_handler c)) \<and>
   (\<forall>(to, label) \<in> set (NAV_ITEMS role). segment i \<longrightarrow> (\<forall>c \<in> set (page_calls (fst (routes (segments to))) i).
      \<exists>r. dispatch (fst (call_request c)) (snd (call_request c)) = Some r \<and> allows (ar_access r) role))"
proof -
  have pages: "routes (segments ''/mon-armurerie'') = (ArmureriePage, True)" "routes (segments ''/recherche'') = (SearchPage, True)"
    "routes (segments ''/messages'') = (MessagesPage, True)"
    by code_simp+
  have "\<exists>r. dispatch (fst (call_request c)) (snd (call_request c)) = Some r \<and> allows (ar_access r) role"
    if "(to, label) \<in> set (NAV_ITEMS role)" "segment i" "c \<in> set (page_calls (fst (routes (segments to))) i)" for to label c
    using that page_access
    by (cases role) (auto simp: NAV_ITEMS_def pages calls_with_id_routed call_request_def hook_defs route_def
        simp del: append_Cons append_Nil split: option.splits)
  then show ?thesis using routes_reachable call_routed by blast
qed

theorem client_calls_routed_witness:
  "dispatch PATCH ''/api/v1/gear/g1/loadout'' = Some (route PATCH ''api/v1/gear'' '':id/loadout'' (Reserved [FREELANCE]) ''setLoadout'')"
proof -
  have "call_ok (SetLoadout_call ''g1'')" "segment ''g1''" by (simp_all add: segment_def)
  with client_calls_routed [of "SetLoadout_call ''g1''" FREELANCE "''g1''"]
  obtain r where r: "dispatch PATCH (''/api/v1/gear/'' @ ''g1'' @ ''/loadout'') = Some r"
    by (auto simp: call_request_def hook_defs)
  with calls_with_id_routed(2) [OF \<open>segment ''g1''\<close>] show ?thesis by simp
qed

section \<open>What stays in the cache\<close>

text \<open>Two queries never share an entry of the cache, and a mutation makes stale what its keys name, nothing else.\<close>

lemma keys_own:
  "h_key (hook_of q) = Some key \<Longrightarrow> h_key (hook_of q') = Some key \<Longrightarrow> q = q'"
  by (cases q; cases q') (auto simp: hook_defs)

lemma made_stale:
  "stale CreateGear_call q \<longleftrightarrow> q = MyGear_query"
  "stale (SetLoadout_call i) q \<longleftrightarrow> q = MyGear_query \<or> q = Gamification_query"
  "stale Confirm_call q \<longleftrightarrow> q = Status_query"
  "stale Disable_call q \<longleftrightarrow> q = Status_query"
  "\<not> stale Enroll_call q"
  by (cases q; simp add: stale_def hook_defs)+

text \<open>Pending items count for nothing.\<close>

lemma stats_pending:
  assumes "tg i = None" "g_status g = GearStatus.PENDING"
  shows "stats_of (tg(i \<mapsto> g)) tc f = stats_of tg tc f"
proof -
  have m: "matching (tg(i \<mapsto> g)) Q = matching tg Q" if "\<not> Q g" for Q using that assms(1) by (auto simp: matching_def)
  have "{h \<in> ran (tg(i \<mapsto> g)). g_freelanceId h = f \<and> g_status h = GearStatus.VALIDATED} =
      {h \<in> ran tg. g_freelanceId h = f \<and> g_status h = GearStatus.VALIDATED}"
    using assms by auto
  with assms(2) show ?thesis by (simp add: stats_of_def m)
qed

lemma created_gear:
  assumes "repository G tblg g_id" "post_gear J U G now auth c b m s w = (Inr g, w')"
  obtains i where "tblg (aw_gear w) i = None" "g_status g = GearStatus.PENDING" "tblg (aw_gear w') = (tblg (aw_gear w))(i \<mapsto> g)"
    "aw_certs w' = aw_certs w"
proof -
  obtain i dto where "addGearToLocker U G i dto w = (Inr g, w')"
    by (rule roles_guarded_Inr [OF assms(2) [unfolded post_gear_def]]) (auto elim!: bindP_liftE_cases intro: that)
  then obtain found w1 where found: "atUsers (repo_findOne U (\<lambda>u. u_id u = i)) w = (Inr found, w1)"
    and "(case found of None \<Rightarrow> throwP (exn.NotFound FreelanceProfileNotFoundOrNotAllowed)
       | Some u \<Rightarrow> if u_role u \<noteq> FREELANCE then throwP (exn.NotFound FreelanceProfileNotFoundOrNotAllowed)
           else atGear (repo_insert G (new_gear (u_id u) dto))) w1 = (Inr g, w')"
    unfolding addGearToLocker_def bindP_Inr_iff by blast
  then obtain f where "atGear (repo_insert G (new_gear f dto)) w1 = (Inr g, w')"
    by (cases found) (auto split: if_splits)
  then obtain y where y: "repo_insert G (new_gear f dto) (aw_gear w1) = (Inr g, y)" "w' = w1\<lparr>aw_gear := y\<rparr>"
    by (auto simp: at_iff)
  obtain i t where "g = new_gear f dto i t" "tblg y = (tblg (aw_gear w1))(g_id g \<mapsto> g)" "tblg (aw_gear w1) (g_id g) = None"
    using repository.insert_row [OF assms(1) y(1)] by (auto simp: new_gear_def)
  with y(2) found show thesis by (intro that [of "g_id g"]) (auto simp: at_iff new_gear_def)
qed

text \<open>Enrolling makes nothing stale: the flag that the status shows is set by confirming only.\<close>

lemma enroll_keeps_status:
  assumes "repository U tblu u_id" "redis_server RD view" "enroll U L secret r32 iv i w = (Inr (s, url), w')"
    and "status_2fa U i w = (Inr x, v1)" "status_2fa U i w' = (Inr y, v2)"
  shows "x = y"
proof -
  have acc: "account_store U tblu RD view" using assms(1,2) by (rule account_store.intro)
  have row: "\<exists>u. tblu (w_users w0) i = Some u \<and> u_twoFactorEnabled u = b" if "status_2fa U i w0 = (Inr b, v)" for w0 b v
    using that account_store.requireUser_Inr [OF acc] by (fastforce simp: status_2fa_def bindP_Inr_iff)
  show ?thesis
    by (rule account_store.enroll_Inr [OF acc assms(3)]) (use row [OF assms(4)] row [OF assms(5)] in auto)
qed

text \<open>
  C39. Nothing stale. When a mutation of the locker returns (an item declared by anybody, or one of the showcase set), the client
  invalidates the locker, and either also the profile or the profile that the API answers after it is the one that it answered before.
\<close>

theorem cache_coherent:
  assumes "repository G tblg g_id" "repository C tblc c_id"
    and mutation: "c = CreateGear_call \<and> post_gear J U G now auth cat b m s w = (Inr g, w') \<or>
      c = SetLoadout_call i \<and> patch_gear_loadout J is_uuid G now auth i pin w = (Inr g, w')"
    and before: "get_gamification_me J G C t1 a1 w = (Inr p, v1)" "JwtAuthGuard_canActivate J t1 a1 = Inr u"
    and after: "get_gamification_me J G C t2 a2 w' = (Inr q, v2)" "JwtAuthGuard_canActivate J t2 a2 = Inr u'"
    and same: "p_userId u = p_userId u'"
  shows "stale c MyGear_query \<and> (stale c Gamification_query \<or> p = q)"
  using mutation
proof
  assume create: "c = CreateGear_call \<and> post_gear J U G now auth cat b m s w = (Inr g, w')"
  then obtain k where "tblg (aw_gear w) k = None" "g_status g = GearStatus.PENDING" "tblg (aw_gear w') = (tblg (aw_gear w))(k \<mapsto> g)"
    "aw_certs w' = aw_certs w"
    using created_gear [OF assms(1)] by blast
  then have "p = q"
    using own_profile_refines [OF assms(1,2) before(1)] own_profile_refines [OF assms(1,2) after(1)] before(2) after(2) same
    by (auto simp: stats_pending)
  with create show ?thesis by (simp add: made_stale)
qed (simp add: made_stale)

theorem cache_coherent_witness:
  "\<exists>p w'. fst (get_gamification_me mem_jwt (gear_table {''f1''}) (certifications_table {''f1''}) 10 (bearer ''f1'' FREELANCE) profile_world) =
     Inr p \<and> gp_xp p = 80 \<and>
     w' = snd (post_gear mem_jwt users_table (gear_table {''f1''}) 20 (bearer ''f1'' FREELANCE) (Some DRONE) (Some ''DJI'') (Some ''M3'')
       (Some ''SN-12345'') profile_world) \<and> length (aw_gear w') = 3 \<and>
     fst (get_gamification_me mem_jwt (gear_table {''f1''}) (certifications_table {''f1''}) 30 (bearer ''f1'' FREELANCE) w') = Inr p"
proof -
  let ?post = "post_gear mem_jwt users_table (gear_table {''f1''}) 20 (bearer ''f1'' FREELANCE) (Some DRONE) (Some ''DJI'') (Some ''M3'')
    (Some ''SN-12345'') profile_world"
  let ?get = "\<lambda>now. get_gamification_me mem_jwt (gear_table {''f1''}) (certifications_table {''f1''}) now (bearer ''f1'' FREELANCE)"
  let ?g = "\<lparr>g_id = ''000'', g_brand = ''DJI'', g_model = ''M3'', g_serialNumber = ''SN-12345'', g_category = DRONE,
    g_status = GearStatus.PENDING, g_isInLoadout = False, g_createdAt = 2, g_freelanceId = ''f1''\<rparr>"
  have post: "?post = (Inr ?g, profile_world\<lparr>aw_gear := aw_gear profile_world @ [?g]\<rparr>)"
    by (simp add: post_gear_def roles_guarded_passes [OF bearer_ok] validate_AddGearDto_def addGearToLocker_def bindP_def atUsers_def
        atGear_def liftP_def liftE_def profile_world_def table_run table_rows mk_user_def new_gear_def mk_gear_def)
  define w where "w = profile_world\<lparr>aw_gear := aw_gear profile_world @ [?g]\<rparr>"
  note eval = get_gamification_me_def roles_guarded_passes [OF bearer_ok] profileFor_def statsFor_def bindP_def atGear_def atCerts_def
    liftP_def returnP_def table_run table_rows profile_world_def mk_gear_def
  have rows: "repo_find (gear_table {''f1''}) (\<lambda>g. g_freelanceId g = ''f1'' \<and> g_status g = GearStatus.VALIDATED)
      (aw_gear profile_world) = (Inr [mk_gear ''g1'' GearStatus.VALIDATED True], aw_gear profile_world)"
    "repo_find (certifications_table {''f1''}) P (aw_certs profile_world) = (Inr [], aw_certs profile_world)" for P
    by (simp_all add: profile_world_def table_run table_rows)
  have "\<exists>p. fst (?get 10 profile_world) = Inr p \<and> gp_xp p = 80"
    by (simp add: get_gamification_me_def roles_guarded_passes [OF bearer_ok] profileFor_def statsFor_def bindP_def
        atGear_def atCerts_def liftP_def returnP_def rows profile_fields xp_of_def XP_PER_VALIDATED_GEAR_def XP_PER_COVERED_CATEGORY_def)
  then obtain p v1 where p: "?get 10 profile_world = (Inr p, v1)" "gp_xp p = 80" by (metis prod.collapse)
  have "\<exists>q. fst (?get 30 w) = Inr q" by (simp add: w_def eval)
  then obtain q v2 where q: "?get 30 w = (Inr q, v2)" by (metis prod.collapse)
  have "p = q"
    using cache_coherent [OF gear_tbl.repository_axioms certifications_tbl.repository_axioms disjI1 [OF conjI [OF refl post [folded w_def]]]
        p(1) bearer_ok q bearer_ok] by (simp add: made_stale)
  with p q post show ?thesis by (intro exI [of _ p] exI [of _ w]) (simp add: w_def profile_world_def)
qed

end
