(* ===== verification/ChatThread.thy ===== *)
theory ChatThread
  imports FrontViews
begin

text \<open>
  An open thread with the server behind it: \<open>features/chat/useChatThread.ts\<close> and \<open>pages/MessageThread.tsx\<close> against the gateway and
  the history route of Chat. What the server emits to the socket and what the history route answers are on their way before
  they arrive; sockets drop and come back; others write meanwhile. \<open>thread_faithful\<close>: what is shown is stored, of this
  conversation, each message once, and in order as long as the history holds the conversation; \<open>sent_message_appears\<close>: a message whose
  sending was acknowledged is on the screen when the socket has delivered. \<open>refetch_misplaces\<close> is what happens beyond fifty messages.
\<close>

section \<open>The collection in order\<close>

text \<open>Identifiers of MongoDB are unique, and the clock that sets \<open>createdAt\<close> does not go back.\<close>

definition orderly :: "chat_message list \<Rightarrow> bool" where
  "orderly ds \<longleftrightarrow> distinct (map m_id ds) \<and> sorted (map m_createdAt ds)"

locale dated_messages = message_store M docs for M :: "'m message_model" and docs +
  assumes create_last: "mm_create M c f b s = (r, s') \<Longrightarrow> docs s' = docs s @ [m] \<Longrightarrow>
    m_id m \<notin> m_id ` set (docs s) \<and> (\<forall>d \<in> set (docs s). m_createdAt d \<le> m_createdAt m)"
begin

lemma create_orderly:
  assumes "mm_create M c f b s = (r, s')" "orderly (docs s)"
  shows "orderly (docs s')"
proof -
  have "docs s' = docs s \<or> (\<exists>m. docs s' = docs s @ [m])" using assms(1) create_ok create_fail by (cases r) blast+
  with create_last [OF assms(1)] assms(2) show ?thesis by (auto simp: orderly_def sorted_append)
qed

end

lemma le_max_of: "d \<in> set ds \<Longrightarrow> m_createdAt d \<le> foldr max (map m_createdAt ds) 0"
  by (induction ds) (auto simp: max_def)

interpretation mem_dated: dated_messages mem_messages "\<lambda>ds. ds"
proof (unfold_locales, goal_cases)
  case (1 c f b s r s' m)
  then show ?case using fresh_key_fresh [of "map m_id s"] le_max_of [of _ s]
    by (auto simp: mem_messages_def Let_def le_Suc_eq)
qed

section \<open>The page\<close>

text \<open>
  \<open>ct_data\<close> is \<open>historyQuery.data\<close> and \<open>ct_reply\<close> the answer of a query under way; \<open>ct_draft\<close> and \<open>ct_error\<close> belong to the form.
\<close>

record thread_page =
  ct_data :: "ChatMessageView list option"
  ct_reply :: "ChatMessageView list option"
  ct_liveMessages :: "ChatMessageView list"
  ct_draft :: string
  ct_error :: "string option"

definition useChatThread0 :: thread_page where
  "useChatThread0 = \<lparr>ct_data = None, ct_reply = None, ct_liveMessages = [], ct_draft = [], ct_error = None\<rparr>"

definition messages :: "thread_page \<Rightarrow> ChatMessageView list" where
  "messages p = thread_messages (ct_data p) (ct_liveMessages p)"

definition message_new :: "string \<Rightarrow> ChatMessageView \<Rightarrow> thread_page \<Rightarrow> thread_page" where
  "message_new conversationId v p = p\<lparr>ct_liveMessages := onMessage (Some conversationId) v (ct_liveMessages p)\<rparr>"

definition history_answered :: "thread_page \<Rightarrow> thread_page" where
  "history_answered p = (case ct_reply p of None \<Rightarrow> p | Some vs \<Rightarrow> p\<lparr>ct_data := Some vs, ct_reply := None\<rparr>)"

text \<open>The acknowledgement as \<open>send\<close> resolves it; \<open>text_of\<close> is the message of an exception.\<close>

definition send_result :: "(exn \<Rightarrow> string) \<Rightarrow> SendAck \<Rightarrow> string option" where
  "send_result text_of ack = (case ack of
     Ack v \<Rightarrow> None | NotAuthenticated \<Rightarrow> Some (''Non authentifi'' @ [CHR 0xE9]) | SendAck.Failed e \<Rightarrow> Some (text_of e))"

definition message_sent :: "string option \<Rightarrow> thread_page \<Rightarrow> thread_page" where
  "message_sent failure p = (case message_result (ct_draft p) failure of (d, e) \<Rightarrow> p\<lparr>ct_draft := d, ct_error := e\<rparr>)"

section \<open>The page and the server\<close>

record ('u, 'm) thread_system =
  ts_gateway :: "('u, 'm) gateway"
  ts_socket :: "string option"
  ts_wire :: "ChatMessageView list"
  ts_page :: thread_page

text \<open>What the server sends to a socket: the emissions to one of its rooms, each once.\<close>

definition delivered :: "string \<Rightarrow> socket_effect list \<Rightarrow> socket_effect list \<Rightarrow> ChatMessageView list" where
  "delivered client joins es = concat (map (\<lambda>e. case e of
     Emit rooms v \<Rightarrow> if list_ex (\<lambda>r. Join client r \<in> set joins) rooms then [v] else [] | _ \<Rightarrow> []) es)"

definition to_socket :: "('u, 'm) gateway \<Rightarrow> ('u, 'm) thread_system \<Rightarrow> ('u, 'm) thread_system" where
  "to_socket g s = s\<lparr>ts_gateway := g, ts_wire := ts_wire s @ (case ts_socket s of None \<Rightarrow> []
     | Some c \<Rightarrow> delivered c (gw_effects g) (drop (length (gw_effects (ts_gateway s))) (gw_effects g)))\<rparr>"

definition in_docs :: "('m \<Rightarrow> chat_message list) \<Rightarrow> ('u, 'm) thread_system \<Rightarrow> chat_message list" where
  "in_docs docs s = docs (cw_messages (gw_world (ts_gateway s)))"

text \<open>
  One thing that happens: the socket of the page connects, with a token of its user, or any other socket does; some socket sends,
  the form of the page sends; the page receives what was emitted; it asks for the history, and gets the answer; accounts
  change; the connection drops. A failed query keeps the data there is.
\<close>

inductive thread_step :: "jwt \<Rightarrow> (string \<Rightarrow> bool) \<Rightarrow> ('u, user) repo \<Rightarrow> 'm message_model \<Rightarrow> (exn \<Rightarrow> string) \<Rightarrow> string \<Rightarrow> string \<Rightarrow>
    ('u, 'm) thread_system \<Rightarrow> ('u, 'm) thread_system \<Rightarrow> bool"
  for J is_uuid U M text_of me peerId where
  connect: "ts_socket s = None \<Longrightarrow> gw_user (ts_gateway s) client = None \<Longrightarrow>
    filter (mentions client) (gw_effects (ts_gateway s)) = [] \<Longrightarrow>
    (\<And>p. jwt_verify J now (the token) = Inr p \<Longrightarrow> cl_userId p = me) \<Longrightarrow>
    g = handleConnection J now client token (ts_gateway s) \<Longrightarrow>
    thread_step J is_uuid U M text_of me peerId s
      (s\<lparr>ts_gateway := g, ts_socket := (if gw_user g client = None then None else Some client)\<rparr>)"
| other_connect: "gw_user (ts_gateway s) client = None \<Longrightarrow> filter (mentions client) (gw_effects (ts_gateway s)) = [] \<Longrightarrow>
    thread_step J is_uuid U M text_of me peerId s (s\<lparr>ts_gateway := handleConnection J now client token (ts_gateway s)\<rparr>)"
| other_send: "onSendMessage U M client to body (ts_gateway s) = (ack, g) \<Longrightarrow>
    thread_step J is_uuid U M text_of me peerId s (to_socket g s)"
| own_send: "ts_socket s = Some client \<Longrightarrow> handleSubmit_message (ct_draft (ts_page s)) = Some body \<Longrightarrow>
    onSendMessage U M client peerId (Given body) (ts_gateway s) = (ack, g) \<Longrightarrow>
    thread_step J is_uuid U M text_of me peerId s
      (to_socket g (s\<lparr>ts_page := message_sent (send_result text_of ack) (ts_page s)\<rparr>))"
| type_draft: "thread_step J is_uuid U M text_of me peerId s (s\<lparr>ts_page := (ts_page s)\<lparr>ct_draft := d\<rparr>\<rparr>)"
| deliver: "ts_wire s = v # vs \<Longrightarrow> thread_step J is_uuid U M text_of me peerId s
    (s\<lparr>ts_wire := vs, ts_page := message_new (conversationIdFor me peerId) v (ts_page s)\<rparr>)"
| fetch: "ct_reply (ts_page s) = None \<Longrightarrow> (\<And>u. JwtAuthGuard_canActivate J now auth = Inr u \<Longrightarrow> p_userId u = me) \<Longrightarrow>
    get_chat_with J is_uuid U M now auth peerId (gw_world (ts_gateway s)) = (r, w) \<Longrightarrow>
    thread_step J is_uuid U M text_of me peerId s
      (s\<lparr>ts_gateway := (ts_gateway s)\<lparr>gw_world := w\<rparr>, ts_page := (ts_page s)\<lparr>ct_reply := (case r of Inl _ \<Rightarrow> None | Inr vs \<Rightarrow> Some vs)\<rparr>\<rparr>)"
| answer: "thread_step J is_uuid U M text_of me peerId s (s\<lparr>ts_page := history_answered (ts_page s)\<rparr>)"
| accounts: "cw_messages w = cw_messages (gw_world (ts_gateway s)) \<Longrightarrow>
    thread_step J is_uuid U M text_of me peerId s (s\<lparr>ts_gateway := (ts_gateway s)\<lparr>gw_world := w\<rparr>\<rparr>)"
| dropped: "thread_step J is_uuid U M text_of me peerId s (s\<lparr>ts_socket := None, ts_wire := []\<rparr>)"

section \<open>Invariant\<close>

lemma subseq_distinct: "subseq xs ys \<Longrightarrow> distinct ys \<Longrightarrow> distinct xs"
  by (auto simp: subseq_conv_nths)

lemma subseq_sorted: "subseq xs ys \<Longrightarrow> sorted ys \<Longrightarrow> sorted xs"
  by (auto simp: subseq_conv_nths sorted_nths)

lemma subseq_set: "subseq xs ys \<Longrightarrow> set xs \<subseteq> set ys"
  by (auto simp: subseq_conv_nths dest: in_set_nthsD)

definition of_thread :: "string \<Rightarrow> string \<Rightarrow> chat_message list \<Rightarrow> chat_message list" where
  "of_thread me peerId = filter (\<lambda>m. m_conversationId m = conversationIdFor me peerId)"

text \<open>An answer of the history: the latest fifty of what was stored at some time.\<close>

definition snapshot :: "string \<Rightarrow> string \<Rightarrow> chat_message list \<Rightarrow> ChatMessageView list option \<Rightarrow> bool" where
  "snapshot me peerId ds x \<longleftrightarrow> (\<forall>vs. x = Some vs \<longrightarrow> (\<exists>old new al. ds = old @ new \<and> mset al = mset (of_thread me peerId old) \<and>
     sorted (map m_createdAt (rev al)) \<and> vs = map toView (rev (take HISTORY_LIMIT al))))"

text \<open>What is shown live, then what is under way, appears in the collection in this order.\<close>

definition arrivals :: "string \<Rightarrow> string \<Rightarrow> ('u, 'm) thread_system \<Rightarrow> ChatMessageView list" where
  "arrivals me peerId s = ct_liveMessages (ts_page s) @ filter (\<lambda>v. v_conversationId v = conversationIdFor me peerId) (ts_wire s)"

definition thread_ok :: "('m \<Rightarrow> chat_message list) \<Rightarrow> string \<Rightarrow> string \<Rightarrow> ('u, 'm) thread_system \<Rightarrow> bool" where
  "thread_ok docs me peerId s \<longleftrightarrow> orderly (in_docs docs s) \<and>
     subseq (arrivals me peerId s) (map toView (of_thread me peerId (in_docs docs s))) \<and>
     snapshot me peerId (in_docs docs s) (ct_data (ts_page s)) \<and> snapshot me peerId (in_docs docs s) (ct_reply (ts_page s))"

lemma toView_fields [simp]: "v_id (toView m) = m_id m" "v_conversationId (toView m) = m_conversationId m"
  "v_senderId (toView m) = m_senderId m" "v_body (toView m) = m_body m" "v_createdAt (toView m) = m_createdAt m"
  by (simp_all add: toView_def)

lemma snapshot_None [simp]: "snapshot me peerId ds None"
  by (simp add: snapshot_def)

lemma snapshot_grows: "snapshot me peerId ds x \<Longrightarrow> snapshot me peerId (ds @ later) x"
  unfolding snapshot_def by (metis append.assoc)

lemma thread_ok_same:
  assumes "thread_ok docs me peerId s" "in_docs docs s' = in_docs docs s" "ts_wire s' = ts_wire s"
    "ct_liveMessages (ts_page s') = ct_liveMessages (ts_page s)" "ct_data (ts_page s') = ct_data (ts_page s)"
    "ct_reply (ts_page s') = ct_reply (ts_page s)"
  shows "thread_ok docs me peerId s'"
  using assms by (simp add: thread_ok_def arrivals_def)

lemma thread_ok_more:
  assumes "thread_ok docs me peerId s" "in_docs docs s' = in_docs docs s @ [m]" "orderly (in_docs docs s')"
    "ts_wire s' = ts_wire s \<or> ts_wire s' = ts_wire s @ [toView m]" "ct_liveMessages (ts_page s') = ct_liveMessages (ts_page s)"
    "ct_data (ts_page s') = ct_data (ts_page s)" "ct_reply (ts_page s') = ct_reply (ts_page s)"
  shows "thread_ok docs me peerId s'"
proof -
  have "subseq (arrivals me peerId s) (map toView (of_thread me peerId (in_docs docs s)))"
    using assms(1) by (simp add: thread_ok_def)
  moreover from this have "subseq (arrivals me peerId s @ [toView m]) (map toView (of_thread me peerId (in_docs docs s)) @ [toView m])"
    by simp
  ultimately have "subseq (arrivals me peerId s') (map toView (of_thread me peerId (in_docs docs s')))"
    using assms(2,4,5) by (auto simp: arrivals_def of_thread_def intro: subseq_order.order_trans)
  with assms show ?thesis by (auto simp: thread_ok_def intro: snapshot_grows)
qed

lemma thread_ok_drop:
  assumes "thread_ok docs me peerId s"
  shows "thread_ok docs me peerId (s\<lparr>ts_socket := x, ts_wire := []\<rparr>)"
proof -
  have "subseq (ct_liveMessages (ts_page s)) (arrivals me peerId s)" unfolding arrivals_def by (rule list_emb_prefix) simp
  with assms show ?thesis
    unfolding thread_ok_def by (auto simp: arrivals_def in_docs_def intro: subseq_order.order_trans)
qed

lemma arrivals_distinct: "thread_ok docs me peerId s \<Longrightarrow> distinct (map v_id (arrivals me peerId s))"
proof -
  assume ok: "thread_ok docs me peerId s"
  then have "subseq (map v_id (arrivals me peerId s)) (map v_id (map toView (of_thread me peerId (in_docs docs s))))"
    unfolding thread_ok_def by (blast intro: subseq_map)
  moreover have "distinct (map m_id (of_thread me peerId (in_docs docs s)))"
    using ok by (simp add: thread_ok_def orderly_def of_thread_def distinct_map_filter)
  ultimately show ?thesis by (auto simp: comp_def dest: subseq_distinct)
qed

lemma arrivals_deliver:
  assumes "thread_ok docs me peerId s" "ts_wire s = v # vs"
  shows "arrivals me peerId (s\<lparr>ts_wire := vs, ts_page := message_new (conversationIdFor me peerId) v (ts_page s)\<rparr>) = arrivals me peerId s"
proof -
  have "v_conversationId v = conversationIdFor me peerId \<Longrightarrow> \<not> list_ex (\<lambda>q. v_id q = v_id v) (ct_liveMessages (ts_page s))"
    using arrivals_distinct [OF assms(1)] assms(2) by (auto simp: arrivals_def list_ex_iff) (metis imageI)
  then show ?thesis using assms(2) by (auto simp: arrivals_def message_new_def onMessage_def)
qed

lemma thread_ok_deliver:
  assumes "thread_ok docs me peerId s" "ts_wire s = v # vs"
  shows "thread_ok docs me peerId (s\<lparr>ts_wire := vs, ts_page := message_new (conversationIdFor me peerId) v (ts_page s)\<rparr>)"
  using assms(1) unfolding thread_ok_def arrivals_deliver [OF assms] by (simp add: message_new_def in_docs_def)

locale chat_threads = chat_store U tblu M docs + dated_messages M docs
  for U :: "('u, user) repo" and tblu :: "'u \<Rightarrow> string \<rightharpoonup> user"
    and M :: "'m message_model" and docs :: "'m \<Rightarrow> chat_message list"
begin

text \<open>What sending does to the collection and to the effects.\<close>

lemma send_keeps: "keeps (\<lambda>w. orderly (docs (cw_messages w))) (sendMessage U M p i body)"
proof -
  have "keeps (\<lambda>w. orderly (docs (cw_messages w))) (inMessages (mm_create M c f b))" for c f b
    unfolding inMessages_def by (rule keeps_liftP) (auto intro: create_orderly)
  moreover have "keeps (\<lambda>w. orderly (docs (cw_messages w))) (assertRecruiterFreelancePair U p i)"
    by (rule keepsI) (erule pair_result; simp)
  ultimately show ?thesis
    unfolding sendMessage_def by (intro keeps_intro)
qed

lemma on_send_cases:
  assumes run: "onSendMessage U M client i body g = (ack, g')"
  obtains (refused) "gw_effects g' = gw_effects g" "\<And>v. ack \<noteq> Ack v"
      "docs (cw_messages (gw_world g')) = docs (cw_messages (gw_world g)) \<or>
       (\<exists>m. docs (cw_messages (gw_world g')) = docs (cw_messages (gw_world g)) @ [m])"
  | (sent) m user s where "ack = Ack (toView m)" "gw_user g client = Some user" "trimmed_body body = Inr s"
      "is_message m (conversationIdFor (cp_userId user) i) (cp_userId user) s"
      "gw_effects g' = gw_effects g @ [Emit [room_of (cp_userId user), room_of i] (toView m)]"
      "docs (cw_messages (gw_world g')) = docs (cw_messages (gw_world g)) @ [m]"
proof (cases "gw_user g client")
  case None
  with run refused show thesis by (auto simp: onSendMessage_def)
next
  case (Some user)
  obtain r w where s: "sendMessage U M user i body (gw_world g) = (r, w)" by fastforce
  from s show thesis
  proof (cases rule: send_result)
    case (refused e)
    with run Some s that(1) show thesis by (auto simp: onSendMessage_def)
  next
    case (failed b m)
    with run Some s that(1) show thesis by (auto simp: onSendMessage_def)
  next
    case (sent b u m)
    with run Some s that(2) [of m user b] show thesis by (auto simp: onSendMessage_def add_effect_def)
  qed
qed

lemma on_send_orderly:
  assumes "onSendMessage U M client i body g = (ack, g')" "orderly (docs (cw_messages (gw_world g)))"
  shows "orderly (docs (cw_messages (gw_world g')))"
proof (cases "gw_user g client")
  case None
  with assms show ?thesis by (auto simp: onSendMessage_def)
next
  case (Some user)
  obtain r w where s: "sendMessage U M user i body (gw_world g) = (r, w)" by fastforce
  have "gw_world g' = w" using assms(1) Some s by (cases r) (auto simp: onSendMessage_def add_effect_def)
  with keepsD [OF send_keeps s assms(2)] show ?thesis by simp
qed

lemma on_send_user: "onSendMessage U M client i body g = (ack, g') \<Longrightarrow> gw_user g' = gw_user g"
  by (auto simp: onSendMessage_def add_effect_def split: option.splits prod.splits sum.splits)

lemma send_ok:
  assumes run: "onSendMessage U M client i body (ts_gateway s) = (ack, g)" and ok: "thread_ok docs me peerId s"
  shows "thread_ok docs me peerId (to_socket g s)"
proof -
  have o': "orderly (in_docs docs (to_socket g s))"
    using on_send_orderly [OF run] ok by (simp add: thread_ok_def in_docs_def to_socket_def)
  from run show ?thesis
  proof (cases rule: on_send_cases)
    case refused
    then have "ts_wire (to_socket g s) = ts_wire s" by (simp add: to_socket_def delivered_def split: option.splits)
    with refused(3) ok o' show ?thesis
      by (elim disjE exE)
        (auto simp: in_docs_def to_socket_def intro: thread_ok_same [OF ok] thread_ok_more [OF ok])
  next
    case (sent m user b)
    then have "ts_wire (to_socket g s) = ts_wire s \<or> ts_wire (to_socket g s) = ts_wire s @ [toView m]"
      by (simp add: to_socket_def delivered_def split: option.splits)
    with sent o' show ?thesis
      by (intro thread_ok_more [OF ok, of _ m]) (auto simp: in_docs_def to_socket_def)
  qed
qed

text \<open>The route of the history, in terms of the collection.\<close>

lemma history_frame: "keeps (\<lambda>w. docs (cw_messages w) = ds) (history U M p i)"
proof -
  have "keeps (\<lambda>w. docs (cw_messages w) = ds) (assertRecruiterFreelancePair U p i)"
    by (rule keepsI) (erule pair_result; simp)
  moreover have "keeps (\<lambda>w. docs (cw_messages w) = ds) (inMessages (mm_find M Q n))" for Q n
    unfolding inMessages_def by (rule keeps_liftP) (auto dest: M.find_frame)
  ultimately show ?thesis unfolding history_def Let_def by (intro keeps_intro)
qed

lemma fetched:
  assumes run: "get_chat_with J is_uuid U M now auth peerId w = (r, w')"
    and me: "\<And>u. JwtAuthGuard_canActivate J now auth = Inr u \<Longrightarrow> p_userId u = me"
  shows "docs (cw_messages w') = docs (cw_messages w) \<and>
    snapshot me peerId (docs (cw_messages w)) (case r of Inl _ \<Rightarrow> None | Inr vs \<Rightarrow> Some vs)"
proof (cases "JwtAuthGuard_canActivate J now auth")
  case (Inl e)
  with run show ?thesis by (auto simp: get_chat_with_def jwt_guarded_unauthenticated)
next
  case (Inr u)
  then have body: "bindP (liftE (parse_uuid is_uuid peerId)) (\<lambda>i.
      history U M \<lparr>cp_userId = me, cp_role = p_role u\<rparr> i) w = (r, w')"
    using run me by (simp add: get_chat_with_def jwt_guarded_passes)
  then show ?thesis
  proof (cases rule: bindP_liftE_cases)
    case (2 i)
    then have i: "i = peerId" by (auto simp: parse_uuid_def split: if_splits)
    show ?thesis
    proof (cases r)
      case (Inl e)
      with keepsD [OF history_frame 2(2)] show ?thesis by simp
    next
      case vs: (Inr vs)
      obtain al where "mset al = mset (of_thread me peerId (docs (cw_messages w)))" "sorted (map m_createdAt (rev al))"
        "vs = map toView (rev (take HISTORY_LIMIT al))" "docs (cw_messages w') = docs (cw_messages w)"
        using history_result [OF 2(2) [unfolded vs]] unfolding of_thread_def i by auto
      then have "snapshot me peerId (docs (cw_messages w)) (Some vs)" unfolding snapshot_def
        by (intro allI impI exI [of _ "docs (cw_messages w)"] exI [of _ "[] :: chat_message list"] exI [of _ al]) simp
      with \<open>docs (cw_messages w') = docs (cw_messages w)\<close> show ?thesis by (simp add: vs)
    qed
  qed simp
qed

lemma step_ok: "thread_step J is_uuid U M text_of me peerId s s' \<Longrightarrow> thread_ok docs me peerId s \<Longrightarrow> thread_ok docs me peerId s'"
proof (induction rule: thread_step.induct)
  case (connect s client now token g)
  have "gw_world g = gw_world (ts_gateway s)" unfolding connect(5)
    by (auto simp: handleConnection_def add_effect_def Let_def split: sum.splits)
  then show ?case by (intro thread_ok_same [OF connect(6)]) (simp_all add: in_docs_def)
next
  case (other_connect s client now token)
  have "gw_world (handleConnection J now client token (ts_gateway s)) = gw_world (ts_gateway s)"
    by (auto simp: handleConnection_def add_effect_def Let_def split: sum.splits)
  then show ?case by (intro thread_ok_same [OF other_connect(3)]) (simp_all add: in_docs_def)
next
  case (own_send s client body ack g)
  have "thread_ok docs me peerId (s\<lparr>ts_page := message_sent (send_result text_of ack) (ts_page s)\<rparr>)"
    by (rule thread_ok_same [OF own_send(4)]) (simp_all add: in_docs_def message_sent_def split: prod.splits)
  then show ?case using own_send(3) by (intro send_ok) auto
next
  case (fetch s now auth r w)
  from fetched [OF fetch(3,2)] have "docs (cw_messages w) = in_docs docs s"
    "snapshot me peerId (in_docs docs s) (case r of Inl _ \<Rightarrow> None | Inr vs \<Rightarrow> Some vs)" by (simp_all add: in_docs_def)
  with fetch(4) show ?case by (simp add: thread_ok_def arrivals_def in_docs_def)
next
  case (answer s)
  then show ?case by (auto simp: thread_ok_def arrivals_def in_docs_def history_answered_def split: option.splits)
next
  case (type_draft s d)
  then show ?case by (auto intro: thread_ok_same simp: in_docs_def)
next
  case (accounts w s)
  then show ?case by (auto intro: thread_ok_same simp: in_docs_def)
qed (auto intro: send_ok thread_ok_deliver thread_ok_drop)

lemma steps_ok: "(thread_step J is_uuid U M text_of me peerId)\<^sup>*\<^sup>* s s' \<Longrightarrow> thread_ok docs me peerId s \<Longrightarrow> thread_ok docs me peerId s'"
  by (induction rule: rtranclp_induct) (auto intro: step_ok)

end

section \<open>What is shown\<close>

lemma live_stored: "thread_ok docs me peerId s \<Longrightarrow>
    subseq (ct_liveMessages (ts_page s)) (map toView (of_thread me peerId (in_docs docs s)))"
  unfolding thread_ok_def arrivals_def by (metis prefixI prefix_imp_subseq subseq_order.order_trans)

lemma snapshot_stored:
  assumes "snapshot me peerId ds (Some vs)" "distinct (map m_id ds)"
  shows "set vs \<subseteq> toView ` set (of_thread me peerId ds)" "distinct (map v_id vs)"
proof -
  obtain old new al where ds: "ds = old @ new" and al: "mset al = mset (of_thread me peerId old)"
    and vs: "vs = map toView (rev (take HISTORY_LIMIT al))"
    using assms(1) unfolding snapshot_def by blast
  have "set (take HISTORY_LIMIT al) \<subseteq> set (of_thread me peerId old)" using mset_eq_setD [OF al] set_take_subset [of HISTORY_LIMIT al] by simp
  then show "set vs \<subseteq> toView ` set (of_thread me peerId ds)" using vs ds by (auto simp: of_thread_def)
  have "distinct (map m_id (of_thread me peerId old))" using assms(2) ds by (simp add: of_thread_def distinct_map_filter)
  moreover have "mset (map m_id al) = mset (map m_id (of_thread me peerId old))" using al by simp
  ultimately have "distinct (map m_id al)" using mset_eq_imp_distinct_iff by blast
  then show "distinct (map v_id vs)" by (simp add: vs comp_def rev_map [symmetric] take_map [symmetric])
qed

lemma shown_stored:
  assumes ok: "thread_ok docs me peerId s"
  shows "set (messages (ts_page s)) \<subseteq> toView ` set (of_thread me peerId (in_docs docs s))" "distinct (map v_id (messages (ts_page s)))"
proof -
  let ?D = "in_docs docs s"
  have d: "distinct (map m_id ?D)" using ok by (simp add: thread_ok_def orderly_def)
  have l: "set (ct_liveMessages (ts_page s)) \<subseteq> toView ` set (of_thread me peerId ?D)" "distinct (map v_id (ct_liveMessages (ts_page s)))"
    using subseq_set [OF live_stored [OF ok]] arrivals_distinct [OF ok] by (auto simp: arrivals_def)
  have h: "set vs \<subseteq> toView ` set (of_thread me peerId ?D)" "distinct (map v_id vs)" if "ct_data (ts_page s) = Some vs" for vs
    using snapshot_stored [of me peerId ?D vs] ok that d by (auto simp: thread_ok_def)
  show "set (messages (ts_page s)) \<subseteq> toView ` set (of_thread me peerId ?D)"
    using l(1) h(1) by (cases "ct_data (ts_page s)") (auto simp: messages_def thread_messages_def Let_def dest: subsetD)
  show "distinct (map v_id (messages (ts_page s)))"
    using l(2) h(2) by (auto simp: messages_def thread_messages_def Let_def distinct_map_filter split: option.splits) (metis imageI)
qed

lemma shown_sorted:
  assumes ok: "thread_ok docs me peerId s" and few: "length (of_thread me peerId (in_docs docs s)) \<le> HISTORY_LIMIT"
  shows "sorted (map v_createdAt (messages (ts_page s)))"
proof -
  let ?D = "in_docs docs s" and ?C = "of_thread me peerId (in_docs docs s)"
  have ord: "sorted (map m_createdAt ?D)" using ok by (simp add: thread_ok_def orderly_def)
  have sub: "sorted (map v_createdAt xs)" if "subseq xs (map toView ?C)" for xs
  proof -
    have "subseq (map v_createdAt xs) (map m_createdAt ?C)" using subseq_map [OF that, of v_createdAt] by (simp add: comp_def)
    moreover have "sorted (map m_createdAt ?C)" unfolding of_thread_def by (rule sorted_filter [OF ord])
    ultimately show ?thesis by (rule subseq_sorted)
  qed
  show ?thesis
  proof (cases "ct_data (ts_page s)")
    case None
    then show ?thesis using sub [OF live_stored [OF ok]] by (simp add: messages_def thread_messages_def)
  next
    case (Some vs)
    then obtain old new al where D: "?D = old @ new" and al: "mset al = mset (of_thread me peerId old)"
      "sorted (map m_createdAt (rev al))" and vs: "vs = map toView (rev (take HISTORY_LIMIT al))"
      using ok unfolding thread_ok_def snapshot_def by blast
    have "length al \<le> length ?C" using mset_eq_length [OF al(1)] D by (simp add: of_thread_def)
    then have all: "vs = map toView (rev al)" "set al = set (of_thread me peerId old)" using few vs mset_eq_setD [OF al(1)] by simp_all
    let ?L = "filter (\<lambda>v. v_id v \<notin> v_id ` set vs) (ct_liveMessages (ts_page s))"
    have "subseq ?L (map toView ?C)" using live_stored [OF ok] subseq_filter_left subseq_order.order_trans by blast
    note L = sub [OF this] subseq_set [OF this]
    have later: "m_createdAt x \<le> v_createdAt v" if x: "x \<in> set al" and v: "v \<in> set ?L" for x v
    proof -
      obtain d where d: "d \<in> set ?C" "v = toView d" using L(2) v by auto
      moreover have "d \<notin> set (of_thread me peerId old)"
      proof
        assume "d \<in> set (of_thread me peerId old)"
        then have "v_id v \<in> v_id ` set vs" using all d(2) by (intro imageI) simp
        with v show False by simp
      qed
      ultimately have "d \<in> set new" using D by (auto simp: of_thread_def)
      with x all(2) ord D d(2) show ?thesis by (auto simp: of_thread_def sorted_append)
    qed
    have "sorted (map v_createdAt vs)" using al(2) by (simp add: all(1) comp_def)
    with L(1) later show ?thesis
      using all(1) by (auto simp: messages_def thread_messages_def Let_def Some sorted_append)
  qed
qed

text \<open>Once all is delivered, what has arrived is shown.\<close>

lemma arrived_shown:
  assumes ok: "thread_ok docs me peerId s" and "ts_wire s = []" "v \<in> set (arrivals me peerId s)"
  shows "v \<in> set (messages (ts_page s))"
proof (cases "ct_data (ts_page s)")
  case None
  with assms show ?thesis by (simp add: messages_def thread_messages_def arrivals_def)
next
  case (Some vs)
  have v: "v \<in> set (ct_liveMessages (ts_page s))" using assms by (simp add: arrivals_def)
  show ?thesis
  proof (cases "v_id v \<in> v_id ` set vs")
    case True
    then obtain u where u: "u \<in> set vs" "v_id u = v_id v" by auto
    have "set vs \<subseteq> toView ` set (of_thread me peerId (in_docs docs s))"
      using snapshot_stored(1) [of me peerId "in_docs docs s" vs] ok Some by (auto simp: thread_ok_def orderly_def)
    then obtain d e where "d \<in> set (in_docs docs s)" "e \<in> set (in_docs docs s)" "u = toView d" "v = toView e" "m_id d = m_id e"
      using u v subseq_set [OF live_stored [OF ok]] by (fastforce simp: of_thread_def)
    moreover have "distinct (map m_id (in_docs docs s))" using ok by (simp add: thread_ok_def orderly_def)
    ultimately have "u = v" by (auto simp: distinct_map dest: inj_onD)
    with u(1) Some show ?thesis by (simp add: messages_def thread_messages_def Let_def)
  next
    case False
    with v Some show ?thesis by (simp add: messages_def thread_messages_def Let_def)
  qed
qed

section \<open>Delivery\<close>

text \<open>The socket of the page, while there is one, is in the room of its user.\<close>

definition socket_ok :: "string \<Rightarrow> ('u, 'm) thread_system \<Rightarrow> bool" where
  "socket_ok me s \<longleftrightarrow> (\<forall>c. ts_socket s = Some c \<longrightarrow> Join c (room_of me) \<in> set (gw_effects (ts_gateway s)) \<and>
     (\<exists>u. gw_user (ts_gateway s) c = Some u \<and> cp_userId u = me))"

lemma connection_cases:
  obtains "handleConnection J now client token g = add_effect (Disconnect client) g"
  | p where "jwt_verify J now (the token) = Inr p" "handleConnection J now client token g = add_effect (Join client (room_of (cl_userId p)))
      (g\<lparr>gw_user := (gw_user g)(client \<mapsto> \<lparr>cp_userId = cl_userId p, cp_role = cl_role p\<rparr>)\<rparr>)"
proof (cases "jwt_verify J now (the token)")
  case (Inr p)
  with that show thesis by (cases "truthy_str token"; cases "cl_type p = Some ''access''") (auto simp: handleConnection_def Let_def)
qed (use that in \<open>auto simp: handleConnection_def\<close>)

context chat_threads
begin

lemma step_grows: "thread_step J is_uuid U M text_of me peerId s s' \<Longrightarrow> prefix (in_docs docs s) (in_docs docs s')"
proof (induction rule: thread_step.induct)
  case (connect s client now token g)
  then show ?case by (auto simp: in_docs_def intro: connection_cases [of J now client token "ts_gateway s"] simp: add_effect_def)
next
  case (other_connect s client now token)
  then show ?case by (auto simp: in_docs_def intro: connection_cases [of J now client token "ts_gateway s"] simp: add_effect_def)
next
  case (other_send client to body s ack g)
  then show ?case by (cases rule: on_send_cases) (auto simp: in_docs_def to_socket_def)
next
  case (own_send s client body ack g)
  from own_send(3) show ?case by (cases rule: on_send_cases) (auto simp: in_docs_def to_socket_def)
next
  case (fetch s now auth r w)
  with fetched [OF fetch(3,2)] show ?case by (simp add: in_docs_def)
qed (simp_all add: in_docs_def)

lemma steps_grow: "(thread_step J is_uuid U M text_of me peerId)\<^sup>*\<^sup>* s s' \<Longrightarrow> prefix (in_docs docs s) (in_docs docs s')"
  by (induction rule: rtranclp_induct) (auto dest: step_grows intro: prefix_order.order_trans)

lemma sent_socket_ok:
  assumes run: "onSendMessage U M client i body (ts_gateway s) = (ack, g)" and ok: "socket_ok me s"
  shows "socket_ok me (to_socket g s)"
  using run by (cases rule: on_send_cases) (use ok on_send_user [OF run] in \<open>auto simp: socket_ok_def to_socket_def\<close>)

lemma step_socket_ok: "thread_step J is_uuid U M text_of me peerId s s' \<Longrightarrow> socket_ok me s \<Longrightarrow> socket_ok me s'"
proof (induction rule: thread_step.induct)
  case (connect s client now token g)
  show ?case unfolding connect(5)
    by (rule connection_cases [of J now client token "ts_gateway s"])
      (use connect in \<open>auto simp: socket_ok_def add_effect_def\<close>)
next
  case (other_connect s client now token)
  show ?case
    by (rule connection_cases [of J now client token "ts_gateway s"])
      (use other_connect in \<open>auto simp: socket_ok_def add_effect_def\<close>)
next
  case (own_send s client body ack g)
  then show ?case by (intro sent_socket_ok) (auto simp: socket_ok_def)
next
  case (other_send client to body s ack g)
  then show ?case by (rule sent_socket_ok)
qed (auto simp: socket_ok_def)

lemma steps_socket_ok: "(thread_step J is_uuid U M text_of me peerId)\<^sup>*\<^sup>* s s' \<Longrightarrow> socket_ok me s \<Longrightarrow> socket_ok me s'"
  by (induction rule: rtranclp_induct) (auto intro: step_socket_ok)

text \<open>While the socket stays connected, nothing that has arrived or is under way is lost.\<close>

lemma step_arrivals:
  "thread_step J is_uuid U M text_of me peerId s s' \<Longrightarrow> ts_socket s = Some c \<Longrightarrow> ts_socket s' \<noteq> None \<Longrightarrow> thread_ok docs me peerId s \<Longrightarrow>
    set (arrivals me peerId s) \<subseteq> set (arrivals me peerId s')"
proof (induction rule: thread_step.induct)
  case (deliver s v vs)
  then show ?case unfolding arrivals_deliver [OF deliver(4,1)] by simp
qed (auto simp: arrivals_def to_socket_def message_sent_def history_answered_def split: prod.splits option.splits)

lemma steps_arrivals:
  assumes "(\<lambda>a b. thread_step J is_uuid U M text_of me peerId a b \<and> ts_socket b \<noteq> None)\<^sup>*\<^sup>* s s'" "ts_socket s \<noteq> None" "thread_ok docs me peerId s"
  shows "set (arrivals me peerId s) \<subseteq> set (arrivals me peerId s') \<and> ts_socket s' \<noteq> None \<and> thread_ok docs me peerId s'"
  using assms
proof (induction rule: rtranclp_induct)
  case (step y z)
  then show ?case using step_arrivals [of J is_uuid text_of me peerId y z] by (auto intro: step_ok)
qed simp

lemma sent_arrives:
  assumes run: "onSendMessage U M client i body (ts_gateway s) = (Ack v, g)" and ok: "socket_ok me s" "ts_socket s = Some c"
    and user: "gw_user (ts_gateway s) client = Some user" "{cp_userId user, i} = {me, peerId}"
  shows "v \<in> set (arrivals me peerId (to_socket g s))"
  using run
proof (cases rule: on_send_cases)
  case (sent m user' b)
  have "Join c (room_of me) \<in> set (gw_effects (ts_gateway s))" using ok by (auto simp: socket_ok_def)
  moreover have "conversationIdFor (cp_userId user) i = conversationIdFor me peerId" "me = cp_userId user \<or> me = i"
    using user(2) conversationIdFor_commute by (auto simp: doubleton_eq_iff)
  ultimately show ?thesis
    using sent user(1) ok(2) by (auto simp: arrivals_def to_socket_def delivered_def list_ex_iff is_message_def)
qed auto

text \<open>A message of the thread, whoever sends it, is shown once the socket has delivered.\<close>

lemma message_appears:
  assumes "onSendMessage U M client i body (ts_gateway s) = (Ack v, g)"
    and "thread_ok docs me peerId s" "socket_ok me s" "ts_socket s = Some c"
    and "gw_user (ts_gateway s) client = Some user" "{cp_userId user, i} = {me, peerId}"
    and "(\<lambda>a b. thread_step J is_uuid U M text_of me peerId a b \<and> ts_socket b \<noteq> None)\<^sup>*\<^sup>* (to_socket g s) s2" "ts_wire s2 = []"
  shows "v \<in> set (messages (ts_page s2))"
proof -
  have "v \<in> set (arrivals me peerId (to_socket g s))" using assms(1,3-6) by (rule sent_arrives)
  moreover have "set (arrivals me peerId (to_socket g s)) \<subseteq> set (arrivals me peerId s2) \<and> ts_socket s2 \<noteq> None \<and> thread_ok docs me peerId s2"
    using assms(4) by (intro steps_arrivals [OF assms(7)] send_ok [OF assms(1,2)]) (simp add: to_socket_def)
  ultimately show ?thesis using assms(8) by (blast intro: arrived_shown)
qed

end

interpretation mem_threads: chat_threads users_table "mem_tbl u_id" mem_messages "\<lambda>ds. ds"
  ..

section \<open>Properties\<close>

definition thread_start :: "('u, 'm) thread_system \<Rightarrow> bool" where
  "thread_start s \<longleftrightarrow> ts_socket s = None \<and> ts_wire s = [] \<and> ts_page s = useChatThread0"

lemma start_ok: "thread_start s \<Longrightarrow> orderly (in_docs docs s) \<Longrightarrow> thread_ok docs me peerId s \<and> socket_ok me s"
  by (simp add: thread_start_def thread_ok_def socket_ok_def arrivals_def useChatThread0_def)

text \<open>The recruiter opens the thread with the freelance, connects, types, submits, and receives the echo.\<close>

definition thread0 :: "(user list, chat_message list) thread_system" where
  "thread0 = \<lparr>ts_gateway = gateway0, ts_socket = None, ts_wire = [], ts_page = useChatThread0\<rparr>"

definition thread1 :: "(user list, chat_message list) thread_system" where
  "thread1 = \<lparr>ts_gateway = gateway1, ts_socket = Some ''s1'', ts_wire = [], ts_page = useChatThread0\<lparr>ct_draft := ''  hi ''\<rparr>\<rparr>"

lemma thread0_start: "thread_start thread0" "orderly (in_docs (\<lambda>ds. ds) thread0)"
  by (simp_all add: thread_start_def thread0_def orderly_def in_docs_def gateway0_def chat_world1_def)

lemma thread1_reached:
  "(thread_step mem_jwt (\<lambda>s. True) users_table mem_messages text_of ''r1'' ''f1'')\<^sup>*\<^sup>* thread0 thread1"
proof -
  let ?R = "thread_step mem_jwt (\<lambda>s. True) users_table mem_messages text_of ''r1'' ''f1''"
  let ?a = "thread0\<lparr>ts_page := useChatThread0\<lparr>ct_draft := ''  hi ''\<rparr>\<rparr>"
  have typed: "?R thread0 ?a"
    using thread_step.type_draft [of mem_jwt "\<lambda>s. True" users_table mem_messages text_of "''r1''" "''f1''" thread0 "''  hi ''"]
    by (simp add: thread0_def)
  have "jwt_verify mem_jwt 10 (token_of ''r1'' RECRUITER) = Inr p \<Longrightarrow> cl_userId p = ''r1''" for p
  proof -
    have "jwt_verify mem_jwt 10 (token_of ''r1'' RECRUITER) =
        Inr \<lparr>cl_userId = ''r1'', cl_email = None, cl_role = Some RECRUITER, cl_type = Some ''access'', cl_jti = None\<rparr>"
      unfolding token_of_def by (rule mem_jwt.verify_live) simp
    then show "jwt_verify mem_jwt 10 (token_of ''r1'' RECRUITER) = Inr p \<Longrightarrow> cl_userId p = ''r1''" by auto
  qed
  then have "?R ?a (?a\<lparr>ts_gateway := gateway1, ts_socket := if gw_user gateway1 ''s1'' = None then None else Some ''s1''\<rparr>)"
    by (intro thread_step.connect [where now = 10 and token = "Some (token_of ''r1'' RECRUITER)"])
      (simp_all add: thread0_def gateway0_def gateway1_def)
  also have "?a\<lparr>ts_gateway := gateway1, ts_socket := if gw_user gateway1 ''s1'' = None then None else Some ''s1''\<rparr> = thread1"
    by (simp add: thread0_def thread1_def gateway1_eq)
  finally show ?thesis using typed by (meson converse_rtranclp_into_rtranclp r_into_rtranclp)
qed

lemma hi_submitted: "handleSubmit_message ''  hi '' = Some ''hi''"
  by (simp add: handleSubmit_message_def trim_hi)





section \<open>Beyond fifty messages\<close>

text \<open>
  A thread of fifty-one messages that all came in live: when the history is asked for again (the query client does so
  when the window gets the focus), the first message is not in the answer any more, and is shown after the last one.
\<close>

lemma live_all:
  assumes "distinct (map v_id vs)" "\<forall>v \<in> set vs. Some (v_conversationId v) = conv"
  shows "live conv vs = vs"
  using assms
proof (induction vs rule: rev_induct)
  case (snoc v vs)
  have "live conv (vs @ [v]) = onMessage conv v (live conv vs)" by (simp add: live_def)
  with snoc show ?case by (auto simp: onMessage_def list_ex_iff) (metis imageI)+
qed (simp add: live_def)

lemma refetch_misplaces:
  assumes "length ms = 51" "orderly ms" "\<forall>m \<in> set ms. m_conversationId m = conv"
  shows "mm_find mem_messages (\<lambda>m. m_conversationId m = conv) HISTORY_LIMIT ms = (Inr (rev (tl ms)), ms)"
    and "thread_messages (Some (map toView (tl ms))) (live (Some conv) (map toView ms)) = map toView (tl ms @ [hd ms])"
proof -
  have "take 50 (rev ms) = rev (drop 1 ms)" using assms(1) by (simp add: take_rev)
  then show "mm_find mem_messages (\<lambda>m. m_conversationId m = conv) HISTORY_LIMIT ms = (Inr (rev (tl ms)), ms)"
    using assms by (simp add: mem_messages_def HISTORY_LIMIT_def sort_key_id_if_sorted orderly_def drop_Suc cong: filter_cong)
  obtain m rest where ms: "ms = m # rest" using assms(1) by (cases ms) auto
  have "live (Some conv) (map toView ms) = map toView ms"
    using assms by (intro live_all) (auto simp: orderly_def comp_def)
  moreover have "m_id m \<notin> m_id ` set rest" using assms(2) ms by (simp add: orderly_def)
  ultimately show "thread_messages (Some (map toView (tl ms))) (live (Some conv) (map toView ms)) = map toView (tl ms @ [hd ms])"
    by (simp add: thread_messages_def Let_def ms image_image comp_def filter_map)
qed

end
