(* ===== verification/Spec2Isabelle.thy ===== *)
theory Spec2Isabelle
  imports FrontScreens FrontProgress SessionStore Migrations AuthInterleaving RegisterInterleaving GearInterleaving CertInterleaving ApiContract ChatThread
begin

text \<open>
  A verification development for SkillHunt, a recruiting platform for technical freelances: the NestJS API
  (\<open>backend-core/src\<close>) and the React client (\<open>frontend-web/src\<close>).

  \<^bold>\<open>The program.\<close> The API is a modular monolith over PostgreSQL (accounts, gear, certificates), Redis (refresh tokens,
  two-factor counters, a stream of domain events), MongoDB (chat messages) and S3 (encrypted documents); it authenticates
  by RS256 tokens with three roles and proxies searches to a matching microservice. The client keeps the session in
  memory, renews it with a refresh cookie, and calls the API with axios and a chat socket.

  \<^bold>\<open>How it is modelled.\<close> An \<open>async\<close> method is a procedure \<open>'s \<Rightarrow> (exn + 'a) \<times> 's\<close> (Prelude): the left value is the exception,
  with its HTTP status, and the state is what the call left behind also when it failed. The stores and libraries that
  the repository calls but does not contain are records of procedures or functions that the services take as arguments
  (a TypeORM repository, an ioredis client, a JWT signer, an AES-GCM cipher, an S3 client, a Mongoose model), together with a locale
  that states what their documentation promises; every call of them may fail, unless a promise says otherwise. Each
  locale is interpreted on an in-memory provider that follows the schema of the repository, and each property with such a
  promise as hypothesis has a witness on that provider. Strings are lists of code units below 256, numbers of JSON are
  rationals, dates are natural numbers, and random values are arguments.

  \<^bold>\<open>Theories\<close>, in the order of their imports.

  \<^item> Prelude: procedures and their rules, exceptions, JavaScript's string functions, counting lemmas. Domain:
    \<open>common/enums.ts\<close> and the entities. Stores: the locales \<open>repository\<close>, \<open>redis_server\<close>, \<open>counting_redis\<close>.
    Schema: the tables of \<open>database/migrations\<close> with their constraints, as repositories.
  \<^item> SqlDdl: databases with columns, constraints, indexes and rows, and the statements that change them. Migrations
    (\<open>database/migrations\<close>, \<open>database/data-source.ts\<close>): \<open>migrations_reversible\<close>, \<open>schema_implements_entities\<close>,
    \<open>location_check_guards\<close>.
  \<^item> Bytes, TokenStore (\<open>auth/token-store.service.ts\<close>), Guards (\<open>auth/guards\<close>, \<open>auth/keys.ts\<close>), TwoFactorCrypto,
    TwoFactor (\<open>auth/two-factor.service.ts\<close>), Auth (\<open>auth/auth.service.ts\<close>, its DTOs and controllers). Locking
    and the bound on guesses, single use of backup codes, rotation and revocation of refresh tokens, no token
    before the second step.
  \<^item> Interleaving: requests as threads that give up the processor at every await, and what every schedule of them keeps.
    AuthInterleaving: the rotation of refresh tokens and the verification of a code as threads; \<open>rotation_interleaved\<close>, and
    bursts of parallel requests that the counter and the single use do not stop. RegisterInterleaving: registrations as threads;
    \<open>registrations_interleaved\<close> counts the accounts of an address.
  \<^item> AppWorld (the state of the resource services and \<open>common/events\<close>), Gear (\<open>gear/\<close>). A step relation over
    the routes keeps at most four pinned items, all validated; review once; the public route. GearInterleaving: the same
    requests split at their awaits; \<open>showcase_interleaved\<close> bounds what overlapping requests can pin.
  \<^item> Storage (\<open>storage/\<close>), Certifications (\<open>certifications/\<close>). A step relation over the routes; the document is
    purged at the review; every object of the bucket stays encrypted. CertInterleaving: the same requests split at their awaits;
    \<open>certificates_interleaved\<close> is what no overlap breaks, and bounds what the duplicate check lets through.
  \<^item> Gamification (\<open>gamification/\<close>). The profile computed from query results refines the profile of the validated
    rows; levels as counted thresholds; monotonicity; the showcase and its badge.
  \<^item> Chat (\<open>chat/\<close>). Conversation identifiers, messages, history, the list, and privacy of the gateway over
    any sequence of connections and messages.
  \<^item> Matching (\<open>matching/\<close>): the route of a search. Platform (\<open>common/cors.ts\<close>, \<open>app.setup.ts\<close>, \<open>observability/\<close>): origins,
    the correlation identifier, metrics, probes and redaction. Application (\<open>main.ts\<close>, \<open>app.module.ts\<close>, the modules of
    \<open>observability\<close>, \<open>storage\<close> and \<open>common/redis\<close>, \<open>database/data-source.ts\<close>): the environment, the classes and what is injected
    into them, the logs and metrics of a sequence of requests; \<open>telemetry_exact\<close>.
  \<^item> FrontSession (session store, interceptors, provider, cache purge): \<open>refresh_single_flight\<close> and \<open>cache_single_identity\<close>. A step
    relation over what the browser can run next, with three invariants: identity, requests, refresh. SessionStore: the set of listeners
    of the store, which simulates it. FrontForms (the forms):
    \<open>client_forms_agree\<close>, against the DTOs. FrontViews: what the screens show, with lemmas on retries, filters, threads, the unread
    mark and links. FrontScreens: the trees of elements of the pages; \<open>pages_wired\<close>. FrontProgress: the client comes to
    rest; \<open>interceptors_terminate\<close>.
  \<^item> ChatThread: the page of a thread with the gateway and the history behind it, a step relation over connections, messages, refetches
    and drops; \<open>thread_faithful\<close>, \<open>sent_message_appears\<close>, and what goes wrong beyond fifty messages.
  \<^item> ApiContract: the routes of the controllers and the hooks of the client; \<open>client_calls_routed\<close>, and \<open>cache_coherent\<close> on what a
    mutation leaves in the query cache.
  \<^item> This theory: \<open>access_control\<close>, over every guarded route.

  \<^bold>\<open>Bounds.\<close> No definition has fuel. \<open>run_query\<close> ends because a query is retried three times at most; every other recursion is
  structural or on a length. Widths of integers play no part in the sources: counters and amounts are far below the
  range in which doubles are exact, and are natural numbers or integers here; bytes are words of 8 bits.

  \<^bold>\<open>Not modelled\<close>, and why. The matching microservice is Python, the gateway and the dashboards are configuration, and
  \<open>api/schema.d.ts\<close> is generated. Of the module files only the graph of tokens is modelled: Nest's container, TypeORM, Mongoose and
  Pino are data or parameters there.
  Swagger decorators are documentation. Class names, icons and fixed wording of the client, Leaflet, Radix and React's
  scheduling are left out: an operation of the client is what runs between two events. Text outside
  Latin-1 and the exact rounding of doubles are out of reach of the model. A handler of the API runs as one step, except where
  AuthInterleaving, RegisterInterleaving, GearInterleaving and CertInterleaving split it at its awaits; the chat gateway, which emits what it has just stored,
  is not split.
\<close>

section \<open>Access control\<close>

text \<open>
  A handler that lets in access tokens of these roles only: nobody else gets more than 401 or 403, and
  the state does not change.
\<close>

definition only_roles :: "jwt \<Rightarrow> UserRole list \<Rightarrow> nat \<Rightarrow> string option \<Rightarrow> ('s, 'a) proc \<Rightarrow> bool" where
  "only_roles J roles now auth p \<longleftrightarrow> (\<forall>s. case JwtAuthGuard_canActivate J now auth of
      Inl e \<Rightarrow> p s = (Inl e, s) \<and> http_status e = 401
    | Inr u \<Rightarrow> (case p_role u of
        Some r \<Rightarrow> if r \<in> set roles then True else p s = (Inl (Forbidden RoleNotAllowed), s)
      | None \<Rightarrow> p s = (Inl (Forbidden RoleNotAllowed), s)))"

definition only_authenticated :: "jwt \<Rightarrow> nat \<Rightarrow> string option \<Rightarrow> ('s, 'a) proc \<Rightarrow> bool" where
  "only_authenticated J now auth p \<longleftrightarrow> (\<forall>s. case JwtAuthGuard_canActivate J now auth of
      Inl e \<Rightarrow> p s = (Inl e, s) \<and> http_status e = 401 | Inr _ \<Rightarrow> True)"

lemma only_roles_guarded: "roles \<noteq> [] \<Longrightarrow> only_roles J roles now auth (roles_guarded J roles now auth h)"
  unfolding only_roles_def
  by (auto simp: roles_guarded_unauthenticated JwtAuthGuard_Inl_401 intro!: roles_guarded_refuses split: sum.splits option.splits)

lemma only_authenticated_guarded: "only_authenticated J now auth (jwt_guarded J now auth h)"
  unfolding only_authenticated_def by (simp add: jwt_guarded_unauthenticated JwtAuthGuard_Inl_401 split: sum.splits)

text \<open>The link to the locker on the account page leads a recruiter to a request that is refused.\<close>

lemma account_link_refused:
  assumes "JwtAuthGuard_canActivate J now auth = Inr u" "p_role u = Some RECRUITER"
  shows "''/mon-armurerie'' \<in> set Account_links \<and> routes [''mon-armurerie''] = (ArmureriePage, True) \<and>
    get_gear_me J G now auth category status pg sz w = (Inl (Forbidden RoleNotAllowed), w)"
  using roles_guarded_refuses [OF assms(1), of "[FREELANCE]"] assms(2)
  by (simp add: Account_links_def routes_def get_gear_me_def)

text \<open>A page is missing from the navigation of the roles whose requests it would have refused.\<close>

lemma navigation_reflects_roles:
  assumes "JwtAuthGuard_canActivate J now auth = Inr u" "p_role u = Some r"
  shows "''/mon-armurerie'' \<notin> fst ` set (NAV_ITEMS r) \<Longrightarrow>
      get_gear_me J G now auth category status pg sz w = (Inl (Forbidden RoleNotAllowed), w)"
    and "''/recherche'' \<notin> fst ` set (NAV_ITEMS r) \<Longrightarrow>
      post_matching_search J U ms url requestId now auth skills lat lon radius s = (Inl (Forbidden RoleNotAllowed), s)"
  using assms by (cases r; auto simp: NAV_ITEMS_def get_gear_me_def post_matching_search_def intro!: roles_guarded_refuses)+

section \<open>Property\<close>

text \<open>
  C40. Access control. Every guarded route of the API answers 401 without a valid access token and, where it is
  reserved to roles, 403 to every other role, whatever the request and the state, and changes nothing then. Declaring,
  listing and pinning gear, uploading and listing certificates and the own profile are for freelances; the public locker,
  the public profile and the search for recruiters; the reviews and their queues for admins; the document of a certificate
  for freelances and admins; two-factor settings and chat for every account.
\<close>

theorem access_control:
  "only_roles J [FREELANCE] now auth (post_gear J U G now auth category brand model serial) \<and>
   only_roles J [FREELANCE] now auth (get_gear_me J G now auth pcategory pstatus pg sz) \<and>
   only_roles J [FREELANCE] now auth (patch_gear_loadout J is_uuid G now auth i inLoadout) \<and>
   only_roles J [RECRUITER] now auth (get_gear_freelance J is_uuid U G now auth i pcategory pstatus pg sz) \<and>
   only_roles J [ADMIN] now auth (get_gear_pending J G now auth pcategory pstatus pg sz) \<and>
   only_roles J [ADMIN] now auth (patch_gear_review J is_uuid G RD now auth i decision) \<and>
   only_roles J [FREELANCE] now auth (post_certification J C S P env i now ms auth file type number validUntil) \<and>
   only_roles J [FREELANCE] now auth (get_certifications_me J C now auth cstatus pg sz) \<and>
   only_roles J [ADMIN] now auth (get_certifications_pending J C now auth cstatus pg sz) \<and>
   only_roles J [FREELANCE, ADMIN] now auth (get_certification_document J is_uuid C S env now auth i) \<and>
   only_roles J [ADMIN] now auth (patch_certification_review J is_uuid C S now ms auth i cdecision cvalid) \<and>
   only_roles J [FREELANCE] now auth (get_gamification_me J G C now auth) \<and>
   only_roles J [RECRUITER] now auth (get_gamification_freelance J is_uuid U G C now auth i) \<and>
   only_roles J [RECRUITER] now auth (post_matching_search J U micro url requestId now auth skills lat lon radius) \<and>
   only_authenticated J now auth (get_2fa_status U J now auth) \<and>
   only_authenticated J now auth (post_2fa_enroll U J L secret random32 iv now auth) \<and>
   only_authenticated J now auth (post_2fa_confirm U J L rnd salt random32 now auth code) \<and>
   only_authenticated J now auth (post_2fa_disable U J RD L random32 now auth code) \<and>
   only_authenticated J now auth (post_2fa_regenerate U J RD L rnd salt random32 now auth code) \<and>
   only_authenticated J now auth (get_chat_conversations J U M now auth) \<and>
   only_authenticated J now auth (get_chat_with J is_uuid U M now auth i)"
  unfolding post_gear_def get_gear_me_def patch_gear_loadout_def get_gear_freelance_def get_gear_pending_def patch_gear_review_def
    post_certification_def get_certifications_me_def get_certifications_pending_def get_certification_document_def
    patch_certification_review_def get_gamification_me_def get_gamification_freelance_def post_matching_search_def
    get_2fa_status_def post_2fa_enroll_def post_2fa_confirm_def post_2fa_disable_def post_2fa_regenerate_def
    get_chat_conversations_def get_chat_with_def
  by (intro conjI only_roles_guarded only_authenticated_guarded) simp_all

end
